(* ===== verification/Prelude.thy ===== *)
theory Prelude
  imports Main "HOL-Library.AList" "HOL-Library.Word" "HOL-Library.Char_ord"
    "HOL-Library.List_Lexorder" "HOL-Library.Product_Lexorder"
begin

text \<open>
  Shared vocabulary of the development: fallible results with panics as values, Rust's
  saturating arithmetic on machine words, hash maps as association lists, the interface
  locales (addressed message planes and invariant systems) and the lemma collections
  that carry the component proofs.

  A \<^verbatim>\<open>HashMap\<close> is an association list with distinct keys; the order of the list stands
  for the iteration order of the map, which Rust leaves unspecified. Every theorem
  quantifies over all such lists, and the step relations of the components contain a
  rehash step that permutes them, so no property depends on one fixed order.
\<close>

named_theorems defs "definitions unfolded when an operation is executed symbolically"
named_theorems preserves "preservation of a component's invariant by an operation"
named_theorems frame "fields an operation leaves alone"

section \<open>Results\<close>

text \<open>
  \<open>Fail e\<close> is a Rust \<^verbatim>\<open>Err(e)\<close> carrying a string; \<open>Panic\<close> is a failed \<^verbatim>\<open>expect\<close>,
  \<^verbatim>\<open>unwrap\<close> or an index out of range, which the code never means to reach.
\<close>

datatype failure = Fail string | Panic

type_synonym 'a result = "failure + 'a"

abbreviation Ok :: "'a \<Rightarrow> 'a result" where
  "Ok x \<equiv> Inr x"

abbreviation Err :: "string \<Rightarrow> 'a result" where
  "Err e \<equiv> Inl (Fail e)"

abbreviation Panicked :: "'a result" where
  "Panicked \<equiv> Inl Panic"

definition is_ok :: "'a result \<Rightarrow> bool" where
  "is_ok r = (case r of Inl _ \<Rightarrow> False | Inr _ \<Rightarrow> True)"

lemma is_ok_simps [simp]: "is_ok (Inr x)" "\<not> is_ok (Inl e)"
  by (simp_all add: is_ok_def)

section \<open>Machine integers\<close>

type_synonym u64 = "64 word"
type_synonym u8 = "8 word"

text \<open>Instants and durations are natural numbers: milliseconds from an arbitrary origin.\<close>

type_synonym instant = nat
type_synonym duration = nat

definition sat_add :: "'a::len word \<Rightarrow> 'a word \<Rightarrow> 'a word" where
  "sat_add a b = (if unat a + unat b < 2 ^ LENGTH('a) then a + b else - 1)"

definition sat_sub :: "'a::len word \<Rightarrow> 'a word \<Rightarrow> 'a word" where
  "sat_sub a b = (if a < b then 0 else a - b)"

lemma unat_sat_add:
  "unat (sat_add a b) = min (unat a + unat b) (2 ^ LENGTH('a) - 1)" for a b :: "'a::len word"
proof (cases "unat a + unat b < 2 ^ LENGTH('a)")
  case True
  then have "unat (a + b) = unat a + unat b"
    by (simp add: unat_word_ariths)
  with True show ?thesis by (simp add: sat_add_def)
next
  case False
  then show ?thesis by (simp add: sat_add_def unsigned_minus_1_eq_mask mask_eq_exp_minus_1)
qed

text \<open>For evaluation, the overflow is read off the wrapped sum.\<close>

lemma sat_add_code [code]:
  "sat_add a b = (if a + b < a then - 1 else a + b)" for a b :: "'a::len word"
proof -
  have "a + b < a \<longleftrightarrow> \<not> unat a + unat b < 2 ^ LENGTH('a)"
  proof -
    have "a \<le> a + b \<longleftrightarrow> uint a + uint b < 2 ^ LENGTH('a)" by (rule no_olen_add)
    also have "\<dots> \<longleftrightarrow> int (unat a + unat b) < int (2 ^ LENGTH('a))"
      by (simp only: of_nat_add uint_nat [symmetric] of_nat_power of_nat_numeral)
    also have "\<dots> \<longleftrightarrow> unat a + unat b < 2 ^ LENGTH('a)" by (rule of_nat_less_iff)
    finally show ?thesis by (metis not_le)
  qed
  then show ?thesis by (simp add: sat_add_def)
qed

lemma unat_sat_sub: "unat (sat_sub a b) = unat a - unat b" for a b :: "'a::len word"
proof (cases "a < b")
  case True
  then show ?thesis by (simp add: sat_sub_def word_less_nat_alt)
next
  case False
  then have "b \<le> a" by simp
  then show ?thesis by (simp add: sat_sub_def unat_sub)
qed

lemma sat_add_ge: "a \<le> sat_add a b" for a b :: "'a::len word"
proof -
  have "unat a < 2 ^ LENGTH('a)"
    by (rule unsigned_less)
  then have "unat a \<le> 2 ^ LENGTH('a) - 1"
    by linarith
  then show ?thesis
    by (simp add: word_le_nat_alt unat_sat_add)
qed

lemma sat_add_one_gt: "a \<noteq> - 1 \<Longrightarrow> a < sat_add a 1" for a :: "'a::len word"
proof -
  assume "a \<noteq> - 1"
  then have "unat a \<noteq> 2 ^ LENGTH('a) - 1"
    by (metis mask_eq_exp_minus_1 unsigned_minus_1_eq_mask unsigned_word_eqI)
  moreover have "unat a < 2 ^ LENGTH('a)"
    by (rule unsigned_less)
  ultimately have "unat a < 2 ^ LENGTH('a) - 1"
    by linarith
  then show ?thesis
    by (simp add: word_less_nat_alt unat_sat_add)
qed

section \<open>Hash maps\<close>

type_synonym ('k, 'v) hashmap = "('k \<times> 'v) list"

abbreviation hm_insert :: "'k \<Rightarrow> 'v \<Rightarrow> ('k, 'v) hashmap \<Rightarrow> ('k, 'v) hashmap" where
  "hm_insert \<equiv> AList.update"

abbreviation hm_remove :: "'k \<Rightarrow> ('k, 'v) hashmap \<Rightarrow> ('k, 'v) hashmap" where
  "hm_remove \<equiv> AList.delete"

abbreviation hm_keys :: "('k, 'v) hashmap \<Rightarrow> 'k list" where
  "hm_keys m \<equiv> map fst m"

abbreviation hm_contains :: "('k, 'v) hashmap \<Rightarrow> 'k \<Rightarrow> bool" where
  "hm_contains m k \<equiv> map_of m k \<noteq> None"

abbreviation hm_ok :: "('k, 'v) hashmap \<Rightarrow> bool" where
  "hm_ok m \<equiv> distinct (map fst m)"

text \<open>\<^verbatim>\<open>for v in m.values_mut() { f(v) }\<close>\<close>

definition hm_map :: "('v \<Rightarrow> 'v) \<Rightarrow> ('k, 'v) hashmap \<Rightarrow> ('k, 'v) hashmap" where
  "hm_map f m = map (\<lambda>(k, v). (k, f v)) m"

text \<open>\<^verbatim>\<open>m.keys().find(|k| k != key)\<close>\<close>

definition other_key :: "'k \<Rightarrow> ('k, 'v) hashmap \<Rightarrow> 'k option" where
  "other_key k m = List.find (\<lambda>k'. k' \<noteq> k) (map fst m)"

declare map_of_eq_Some_iff [simp del] Some_eq_map_of_iff [simp del]

lemmas hm_simps [simp] = update_conv delete_conv

lemma hm_ok_insert [simp, intro]: "hm_ok m \<Longrightarrow> hm_ok (hm_insert k v m)"
  by (rule distinct_update)

lemma hm_ok_remove [simp, intro]: "hm_ok m \<Longrightarrow> hm_ok (hm_remove k m)"
  by (rule distinct_delete)

lemma map_of_hm_map [simp]: "map_of (hm_map f m) k = map_option f (map_of m k)"
  by (induction m) (auto simp: hm_map_def)

lemma hm_map_keys [simp]: "map fst (hm_map f m) = map fst m"
  by (induction m) (auto simp: hm_map_def)

lemma hm_map_Nil [simp]: "hm_map f [] = []" "hm_map f m = [] \<longleftrightarrow> m = []"
  by (auto simp: hm_map_def)

lemma length_hm_map [simp]: "length (hm_map f m) = length m"
  by (simp add: hm_map_def)

lemma length_hm_insert:
  "length (hm_insert k v m) = (if map_of m k = None then Suc (length m) else length m)"
  by (induction m) auto

lemma length_hm_remove:
  "hm_ok m \<Longrightarrow> length (hm_remove k m) = (if map_of m k = None then length m else length m - 1)"
proof (induction m)
  case Nil
  then show ?case by simp
next
  case (Cons p m)
  obtain a b where p: "p = (a, b)" by (cases p)
  have "map_of m k \<noteq> None \<Longrightarrow> 0 < length m" by (cases m) auto
  with Cons p show ?case
    by (auto simp: map_of_eq_None_iff simp del: not_None_eq)
qed

lemma length_hm_remove_le: "length (hm_remove k m) \<le> length m"
  by (rule length_delete_le)

lemma hm_remove_absent [simp]: "map_of m k = None \<Longrightarrow> hm_remove k m = m"
  by (induction m) (auto split: if_splits)

lemma in_set_hm: "hm_ok m \<Longrightarrow> (k, v) \<in> set m \<longleftrightarrow> map_of m k = Some v"
  by (simp add: map_of_eq_Some_iff)

lemma hm_keys_iff: "k \<in> fst ` set m \<longleftrightarrow> map_of m k \<noteq> None"
  by (simp add: map_of_eq_None_iff)

lemma other_key_Some: "other_key k m = Some k' \<Longrightarrow> k' \<noteq> k \<and> (\<exists>v. map_of m k' = Some v)"
  unfolding other_key_def
  by (auto simp: find_Some_iff weak_map_of_SomeI) (metis hm_keys_iff image_eqI not_None_eq nth_mem)

lemma other_key_None: "other_key k m = None \<Longrightarrow> map_of m k' = Some v \<Longrightarrow> k' = k"
  unfolding other_key_def
  by (auto simp: find_None_iff dest!: map_of_SomeD)

lemma hm_two_others:
  assumes "hm_ok m" "length m \<le> 2" "map_of m a \<noteq> None" "map_of m b \<noteq> None" "a \<noteq> b" "c \<noteq> a" "c \<noteq> b"
  shows "map_of m c = None"
proof (rule ccontr)
  assume "map_of m c \<noteq> None"
  with assms(3,4) have "{a, b, c} \<subseteq> fst ` set m"
    by (simp add: hm_keys_iff)
  then have "card {a, b, c} \<le> card (fst ` set m)"
    by (intro card_mono) auto
  also have "\<dots> = length m"
    using assms(1) by (metis distinct_card length_map list.set_map)
  finally show False using assms by simp
qed

text \<open>Reordering of a hash map: a rehash changes the iteration order and nothing else.\<close>

definition hm_perm :: "('k, 'v) hashmap \<Rightarrow> ('k, 'v) hashmap \<Rightarrow> bool" where
  "hm_perm m m' \<longleftrightarrow> hm_ok m' \<and> map_of m' = map_of m \<and> length m' = length m"

lemma hm_perm_get [simp]: "hm_perm m m' \<Longrightarrow> map_of m' k = map_of m k"
  by (simp add: hm_perm_def)

lemma hm_perm_refl: "hm_ok m \<Longrightarrow> hm_perm m m"
  by (simp add: hm_perm_def)

text \<open>
  \<^verbatim>\<open>for v in m.values_mut() { if let Some(x) = v.poll() { return Some(x) } } None\<close>: the first
  value that has something gives it up, the ones before it were polled in vain.
\<close>

fun scan_poll :: "('v \<Rightarrow> 'v \<times> 'm option) \<Rightarrow> ('k, 'v) hashmap \<Rightarrow> ('k, 'v) hashmap \<times> 'm option" where
  "scan_poll p [] = ([], None)"
| "scan_poll p ((k, v) # m) =
     (case p v of
        (v', Some x) \<Rightarrow> ((k, v') # m, Some x)
      | (v', None) \<Rightarrow> (case scan_poll p m of (m', r) \<Rightarrow> ((k, v') # m', r)))"

text \<open>The earliest of several optional deadlines.\<close>

definition earlier :: "instant option \<Rightarrow> instant option \<Rightarrow> instant option" where
  "earlier eto t = (case t of None \<Rightarrow> eto
     | Some next \<Rightarrow> Some (case eto of None \<Rightarrow> next | Some cur \<Rightarrow> min cur next))"

definition earliest :: "instant option list \<Rightarrow> instant option" where
  "earliest ts = foldl earlier None ts"

lemma foldl_earlier_None: "foldl earlier a ts = None \<longleftrightarrow> a = None \<and> (\<forall>t \<in> set ts. t = None)"
  by (induction ts arbitrary: a) (auto simp: earlier_def split: option.splits)

lemma foldl_earlier_le:
  "foldl earlier a ts = Some t \<Longrightarrow> Some u \<in> insert a (set ts) \<Longrightarrow> t \<le> u"
proof (induction ts arbitrary: a u)
  case Nil
  then show ?case by simp
next
  case (Cons x ts)
  have fd: "foldl earlier (earlier a x) ts = Some t" using Cons.prems(1) by simp
  show ?case
  proof (cases "Some u \<in> set ts")
    case True
    then show ?thesis using Cons.IH [OF fd] by blast
  next
    case False
    with Cons.prems(2) have "Some u = a \<or> Some u = x" by auto
    then obtain w where "earlier a x = Some w" "w \<le> u"
      by (cases x; cases a) (auto simp: earlier_def)
    then show ?thesis using Cons.IH [OF fd, of w] by simp
  qed
qed

lemma foldl_earlier_in: "foldl earlier a ts = Some t \<Longrightarrow> Some t \<in> insert a (set ts)"
proof (induction ts arbitrary: a)
  case Nil
  then show ?case by simp
next
  case (Cons x ts)
  then have "Some t \<in> insert (earlier a x) (set ts)" by simp
  then show ?case
    by (auto simp: earlier_def min_def split: option.splits if_splits)
qed

lemma earliest_None: "earliest ts = None \<longleftrightarrow> (\<forall>t \<in> set ts. t = None)"
  by (simp add: earliest_def foldl_earlier_None)

lemma earliest_le: "earliest ts = Some t \<Longrightarrow> Some u \<in> set ts \<Longrightarrow> t \<le> u"
  unfolding earliest_def by (erule foldl_earlier_le) simp

lemma earliest_in: "earliest ts = Some t \<Longrightarrow> Some t \<in> set ts"
  unfolding earliest_def by (drule foldl_earlier_in) simp

section \<open>Interfaces\<close>

text \<open>
  A message plane: a place messages are drained from one at a time, each message kept in
  the queue of its address. Polling returns the head of one non-empty queue, and nothing
  only when all are empty. \<open>size_of\<close> counts the messages waiting, \<open>ok\<close> is the
  provider's invariant.
\<close>

locale addressed_plane =
  fixes poll :: "'s \<Rightarrow> 's \<times> 'm option"
    and addr :: "'m \<Rightarrow> 'a"
    and queue :: "'s \<Rightarrow> 'a \<Rightarrow> 'm list"
    and size_of :: "'s \<Rightarrow> nat"
    and ok :: "'s \<Rightarrow> bool"
  assumes poll_none: "ok s \<Longrightarrow> poll s = (s', None) \<Longrightarrow> s' = s \<and> size_of s = 0"
    and size_zero: "ok s \<Longrightarrow> size_of s = 0 \<Longrightarrow> queue s a = []"
    and poll_head: "ok s \<Longrightarrow> poll s = (s', Some m) \<Longrightarrow> queue s (addr m) = m # queue s' (addr m)"
    and poll_others: "ok s \<Longrightarrow> poll s = (s', Some m) \<Longrightarrow> b \<noteq> addr m \<Longrightarrow> queue s' b = queue s b"
    and poll_size: "ok s \<Longrightarrow> poll s = (s', Some m) \<Longrightarrow> size_of s = Suc (size_of s')"
    and poll_ok: "ok s \<Longrightarrow> poll s = (s', r) \<Longrightarrow> ok s'"

text \<open>Draining: \<^verbatim>\<open>while let Some(m) = s.poll() { out.push(m) }\<close>, at most \<open>n\<close> times.\<close>

fun drain :: "('s \<Rightarrow> 's \<times> 'm option) \<Rightarrow> nat \<Rightarrow> 's \<Rightarrow> 's \<times> 'm list" where
  "drain poll 0 s = (s, [])"
| "drain poll (Suc n) s =
     (case poll s of
        (s', None) \<Rightarrow> (s', [])
      | (s', Some m) \<Rightarrow> (case drain poll n s' of (s'', ms) \<Rightarrow> (s'', m # ms)))"

context addressed_plane
begin

lemma drain_ok: "ok s \<Longrightarrow> ok (fst (drain poll n s))"
proof (induction n arbitrary: s)
  case 0
  then show ?case by simp
next
  case (Suc n)
  obtain s' r where p: "poll s = (s', r)" by (cases "poll s")
  with Suc.prems have "ok s'" by (rule poll_ok)
  then show ?case
    using Suc.IH [of s'] by (auto simp: p split: option.splits prod.splits)
qed

text \<open>Enough polls leave nothing behind: the drain loops of the code end.\<close>

lemma drain_empties: "ok s \<Longrightarrow> size_of s \<le> n \<Longrightarrow> size_of (fst (drain poll n s)) = 0"
proof (induction n arbitrary: s)
  case 0
  then show ?case by simp
next
  case (Suc n)
  obtain s' r where p: "poll s = (s', r)" by (cases "poll s")
  show ?case
  proof (cases r)
    case None
    with p Suc.prems have "s' = s \<and> size_of s = 0" by (auto dest: poll_none)
    then show ?thesis using None p by simp
  next
    case (Some m)
    with p Suc.prems have "size_of s' \<le> n" "ok s'"
      by (auto dest: poll_size poll_ok)
    with Suc.IH [of s'] show ?thesis
      by (auto simp: p Some split: prod.splits)
  qed
qed

lemma drain_stops: "ok s \<Longrightarrow> size_of s \<le> n \<Longrightarrow> snd (poll (fst (drain poll n s))) = None"
  using drain_empties [of s n] drain_ok [of s n]
  by (metis Zero_not_Suc not_None_eq poll_size prod.collapse)

text \<open>What is drained for an address is that address's queue, in its order.\<close>

lemma drain_in_order:
  "ok s \<Longrightarrow> size_of s \<le> n \<Longrightarrow>
     filter (\<lambda>m. addr m = a) (snd (drain poll n s)) = queue s a"
proof (induction n arbitrary: s)
  case 0
  then show ?case by (simp add: size_zero)
next
  case (Suc n)
  obtain s' r where p: "poll s = (s', r)" by (cases "poll s")
  show ?case
  proof (cases r)
    case None
    with p Suc.prems have "queue s a = []" by (blast dest: poll_none size_zero)
    with None p show ?thesis by simp
  next
    case (Some m)
    with p Suc.prems have "size_of s' \<le> n" "ok s'"
      by (auto dest: poll_size poll_ok)
    then have "filter (\<lambda>m. addr m = a) (snd (drain poll n s')) = queue s' a"
      by (rule Suc.IH [rotated])
    then show ?thesis
      using poll_head [OF Suc.prems(1), of s' m] poll_others [OF Suc.prems(1), of s' m a]
      by (auto simp: p Some split: prod.splits)
  qed
qed

end

text \<open>
  Planes held in a hash map: each value is a plane, a value's messages all belong to its
  key. Polling the first value that has something is again a plane, over the same
  addresses.
\<close>

definition hm_queue :: "('a \<Rightarrow> 'k) \<Rightarrow> ('v \<Rightarrow> 'a \<Rightarrow> 'm list) \<Rightarrow> ('k, 'v) hashmap \<Rightarrow> 'a \<Rightarrow> 'm list" where
  "hm_queue owner q m a = (case map_of m (owner a) of None \<Rightarrow> [] | Some v \<Rightarrow> q v a)"

definition hm_size :: "('v \<Rightarrow> nat) \<Rightarrow> ('k, 'v) hashmap \<Rightarrow> nat" where
  "hm_size sz m = sum_list (map (\<lambda>(k, v). sz v) m)"

lemma hm_size_put:
  "hm_size sz (hm_insert k v m) + (case map_of m k of None \<Rightarrow> 0 | Some w \<Rightarrow> sz w) = hm_size sz m + sz v"
  by (induction m) (auto simp: hm_size_def)

lemma hm_size_update: "map_of m k = Some w \<Longrightarrow> hm_size sz (hm_insert k v m) + sz w = hm_size sz m + sz v"
  using hm_size_put [of sz k v m] by simp

lemma hm_size_le: "map_of m k = Some w \<Longrightarrow> sz v \<le> sz w \<Longrightarrow> hm_size sz (hm_insert k v m) \<le> hm_size sz m"
  by (induction m) (auto simp: hm_size_def)

lemma hm_size_less: "map_of m k = Some w \<Longrightarrow> sz v < sz w \<Longrightarrow> hm_size sz (hm_insert k v m) < hm_size sz m"
  by (induction m) (auto simp: hm_size_def)

lemma hm_size_remove: "hm_size sz (hm_remove k m) \<le> hm_size sz m"
  by (induction m) (auto simp: hm_size_def)

lemma hm_size_in: "(k, v) \<in> set m \<Longrightarrow> sz v \<le> hm_size sz m"
  by (induction m) (auto simp: hm_size_def)

lemma hm_size_pos: "0 < hm_size sz m \<Longrightarrow> \<exists>k v. (k, v) \<in> set m \<and> 0 < sz v"
  by (induction m) (auto simp: hm_size_def)

lemma hm_size_dom: "hm_ok m \<Longrightarrow> hm_size sz m = (\<Sum>k \<in> dom (map_of m). sz (the (map_of m k)))"
proof (induction m)
  case (Cons p m)
  obtain k v where p: "p = (k, v)" by (cases p)
  have k: "k \<notin> dom (map_of m)" "dom (map_of (p # m)) = insert k (dom (map_of m))"
    using Cons.prems by (simp_all add: p dom_map_of_conv_image_fst)
  then have "(\<Sum>x \<in> dom (map_of m). sz (the (map_of (p # m) x))) = (\<Sum>x \<in> dom (map_of m). sz (the (map_of m x)))"
    by (intro sum.cong) (auto simp: p)
  with k show ?case
    using Cons unfolding k(2) by (simp add: p hm_size_def finite_dom_map_of)
qed (simp add: hm_size_def)

definition hm_all :: "('k \<Rightarrow> 'v \<Rightarrow> bool) \<Rightarrow> ('k, 'v) hashmap \<Rightarrow> bool" where
  "hm_all P m \<longleftrightarrow> hm_ok m \<and> (\<forall>(k, v) \<in> set m. P k v)"

lemma hm_all_Cons [simp]:
  "hm_all P ((k, v) # m) \<longleftrightarrow> map_of m k = None \<and> P k v \<and> hm_all P m"
  by (auto simp: hm_all_def map_of_eq_None_iff)

lemma hm_all_Nil [simp]: "hm_all P []"
  by (simp add: hm_all_def)

lemma hm_allD: "hm_all P m \<Longrightarrow> map_of m k = Some v \<Longrightarrow> P k v"
  by (auto simp: hm_all_def dest: map_of_SomeD)

lemma hm_all_iff: "hm_all P m \<longleftrightarrow> hm_ok m \<and> (\<forall>k v. map_of m k = Some v \<longrightarrow> P k v)"
proof (cases "hm_ok m")
  case True
  have "(\<forall>(k, v) \<in> set m. P k v) \<longleftrightarrow> (\<forall>k v. (k, v) \<in> set m \<longrightarrow> P k v)" by auto
  with True show ?thesis unfolding hm_all_def by (simp only: in_set_hm [OF True])
next
  case False
  then show ?thesis by (simp add: hm_all_def)
qed

lemma hm_all_insert [simp, intro]: "hm_all P m \<Longrightarrow> P k v \<Longrightarrow> hm_all P (hm_insert k v m)"
  by (auto simp: hm_all_iff)

lemma hm_all_remove [simp, intro]: "hm_all P m \<Longrightarrow> hm_all P (hm_remove k m)"
  by (auto simp: hm_all_iff)

lemma hm_all_filter: "hm_all P m \<Longrightarrow> hm_all P (filter Q m)"
  by (auto simp: hm_all_def distinct_map_filter)

lemma hm_all_perm: "hm_all P m \<Longrightarrow> hm_perm m m' \<Longrightarrow> hm_all P m'"
  unfolding hm_all_iff hm_perm_def by metis

locale keyed_planes = addressed_plane poll addr queue size_of ok
  for poll :: "'v \<Rightarrow> 'v \<times> 'm option"
    and addr :: "'m \<Rightarrow> 'a"
    and queue :: "'v \<Rightarrow> 'a \<Rightarrow> 'm list"
    and size_of :: "'v \<Rightarrow> nat"
    and ok :: "'v \<Rightarrow> bool" +
  fixes owner :: "'a \<Rightarrow> 'k"
    and holds :: "'k \<Rightarrow> 'v \<Rightarrow> bool"
  assumes holds_owner: "ok v \<Longrightarrow> holds k v \<Longrightarrow> queue v a \<noteq> [] \<Longrightarrow> owner a = k"
    and holds_poll: "ok v \<Longrightarrow> holds k v \<Longrightarrow> poll v = (v', r) \<Longrightarrow> holds k v'"
begin

abbreviation hm_good :: "('k, 'v) hashmap \<Rightarrow> bool" where
  "hm_good \<equiv> hm_all (\<lambda>k v. ok v \<and> holds k v)"

text \<open>A scan polls nothing and changes nothing, or takes the head of one value.\<close>

lemma scan_poll_cases:
  "hm_good m \<Longrightarrow> scan_poll poll m = (m', r) \<Longrightarrow>
     (r = None \<and> m' = m \<and> hm_size size_of m = 0) \<or>
     (\<exists>k v v' x. r = Some x \<and> map_of m k = Some v \<and> poll v = (v', Some x) \<and> m' = hm_insert k v' m)"
proof (induction m arbitrary: m' r)
  case Nil
  then show ?case by (simp add: hm_size_def)
next
  case (Cons p m)
  obtain k v where p: "p = (k, v)" by (cases p)
  obtain v' x where pv: "poll v = (v', x)" by (cases "poll v")
  from Cons.prems(1) have good: "hm_good m" "ok v" "map_of m k = None" by (simp_all add: p)
  show ?case
  proof (cases x)
    case None
    with pv good(2) have v: "v' = v" "size_of v = 0" by (auto dest: poll_none)
    obtain m1 r1 where s: "scan_poll poll m = (m1, r1)" by (cases "scan_poll poll m")
    with Cons.prems(2) have "m' = (k, v) # m1" "r = r1" by (auto simp: p pv None v)
    note eqs = this
    from Cons.IH [OF good(1) s] show ?thesis
    proof (elim disjE exE conjE)
      assume "r1 = None" "m1 = m" "hm_size size_of m = 0"
      with eqs v(2) show ?thesis by (simp add: p hm_size_def)
    next
      fix k1 v1 v1' y
      assume h: "r1 = Some y" "map_of m k1 = Some v1" "poll v1 = (v1', Some y)"
        "m1 = hm_insert k1 v1' m"
      with good(3) have "k1 \<noteq> k" by auto
      with eqs h show ?thesis by (intro disjI2 exI [of _ k1] exI [of _ v1] exI [of _ v1']) (simp add: p)
    qed
  next
    case (Some y)
    with Cons.prems(2) have "m' = (k, v') # m" "r = Some y" by (auto simp: p pv)
    with pv Some show ?thesis by (fastforce simp: p)
  qed
qed

lemma hm_size_zero: "hm_size size_of m = 0 \<Longrightarrow> map_of m k = Some v \<Longrightarrow> size_of v = 0"
  by (induction m) (auto simp: hm_size_def split: if_splits)

lemma poll_owner:
  "ok v \<Longrightarrow> holds k v \<Longrightarrow> poll v = (v', Some x) \<Longrightarrow> owner (addr x) = k"
  using holds_owner [of v k "addr x"] poll_head [of v v' x] by simp

sublocale scan: addressed_plane "scan_poll poll" addr "hm_queue owner queue" "hm_size size_of" hm_good
proof
  fix m m' :: "('k, 'v) hashmap" and a
  assume "hm_good m" "scan_poll poll m = (m', None)"
  then show "m' = m \<and> hm_size size_of m = 0" by (auto dest: scan_poll_cases)
next
  fix m :: "('k, 'v) hashmap" and a
  assume "hm_good m" "hm_size size_of m = 0"
  then show "hm_queue owner queue m a = []"
    by (auto simp: hm_queue_def split: option.split dest: hm_allD hm_size_zero intro: size_zero)
next
  fix m m' :: "('k, 'v) hashmap" and x
  assume good: "hm_good m" and s: "scan_poll poll m = (m', Some x)"
  from scan_poll_cases [OF this] obtain k v v' where
    kv: "map_of m k = Some v" "poll v = (v', Some x)" "m' = hm_insert k v' m" by auto
  from good kv(1) have v: "ok v" "holds k v" by (auto dest: hm_allD)
  have k: "owner (addr x) = k" by (rule poll_owner [OF v kv(2)])
  show "hm_queue owner queue m (addr x) = x # hm_queue owner queue m' (addr x)"
    using poll_head [OF v(1) kv(2)] by (simp add: hm_queue_def k kv)
  show "hm_size size_of m = Suc (hm_size size_of m')"
    using hm_size_update [OF kv(1), of size_of v'] poll_size [OF v(1) kv(2)] by (simp add: kv(3))
  fix b
  assume "b \<noteq> addr x"
  then show "hm_queue owner queue m' b = hm_queue owner queue m b"
    using poll_others [OF v(1) kv(2)] by (simp add: hm_queue_def kv)
next
  fix m m' :: "('k, 'v) hashmap" and r
  assume good: "hm_good m" and "scan_poll poll m = (m', r)"
  then show "hm_good m'"
    using hm_allD [OF good]
    by (auto dest!: scan_poll_cases [OF good] intro!: hm_all_insert intro: poll_ok holds_poll)
qed

end

text \<open>
  A component as a transition system with an invariant: the invariant holds initially
  and every step keeps it, so it holds in every state a run can reach.
\<close>

locale invariant_system =
  fixes initial :: "'s \<Rightarrow> bool"
    and step :: "'s \<Rightarrow> 's \<Rightarrow> bool"
    and inv :: "'s \<Rightarrow> bool"
  assumes inv_initial: "initial s \<Longrightarrow> inv s"
    and inv_step: "inv s \<Longrightarrow> step s t \<Longrightarrow> inv t"

definition reachable :: "('s \<Rightarrow> bool) \<Rightarrow> ('s \<Rightarrow> 's \<Rightarrow> bool) \<Rightarrow> 's \<Rightarrow> bool" where
  "reachable initial step t \<longleftrightarrow> (\<exists>s. initial s \<and> step\<^sup>*\<^sup>* s t)"

context invariant_system
begin

lemma inv_run: "step\<^sup>*\<^sup>* s t \<Longrightarrow> inv s \<Longrightarrow> inv t"
  by (induction rule: rtranclp_induct) (auto intro: inv_step)

lemma inv_reachable: "reachable initial step t \<Longrightarrow> inv t"
  by (auto simp: reachable_def intro: inv_run inv_initial)

end

lemma reachable_initial: "initial s \<Longrightarrow> reachable initial step s"
  by (auto simp: reachable_def)

lemma reachable_step: "reachable initial step s \<Longrightarrow> step s t \<Longrightarrow> reachable initial step t"
  by (auto simp: reachable_def intro: rtranclp.rtrancl_into_rtrancl)

end
