(* ===== verification/Messages.thy ===== *)
theory Messages
  imports Prelude
begin

text \<open>
  The browser wire frames of \<^verbatim>\<open>src/messages.rs\<close>. JSON itself is \<^verbatim>\<open>serde_json\<close>, a third-party
  crate: decoding a text into a frame and encoding a server frame are fields of the
  parameter \<open>json\<close> that every definition using them takes as an argument. \<open>'v\<close> stands for
  \<^verbatim>\<open>serde_json::Value\<close>.
\<close>

type_synonym room_id = string
type_synonym client_id = string

record message =
  msg_roomid :: room_id
  msg_clientid :: client_id
  msg_msg :: string

record 'v ws_client_msg =
  ws_cmd :: string
  ws_roomid :: string
  ws_clientid :: string
  ws_msg :: string
  ws_ver :: "u8 option"
  ws_token :: string
  ws_epoch :: "'v option"

record v2_registered =
  rd_control :: string
  rd_roomid :: string
  rd_epoch :: string
  rd_mode :: string
  rd_is_initiator :: "bool option"

record v2_promoted =
  pm_control :: string
  pm_roomid :: string
  pm_epoch :: string
  pm_is_initiator :: bool

record v2_upgrade =
  ug_control :: string
  ug_roomid :: string
  ug_epoch :: string

record v2_downgrade =
  dg_control :: string
  dg_roomid :: string
  dg_epoch :: string
  dg_is_initiator :: bool

record v2_room_failed =
  rf_control :: string
  rf_roomid :: string
  rf_reason :: string

record ws_server_msg =
  sv_msg :: string
  sv_error :: string

text \<open>The values the code serializes: the instances of \<^verbatim>\<open>to_wire\<close>'s type parameter.\<close>

datatype wire =
    WRegistered v2_registered
  | WPromoted v2_promoted
  | WUpgrade v2_upgrade
  | WDowngrade v2_downgrade
  | WRoomFailed v2_room_failed
  | WServer ws_server_msg

text \<open>What the code uses of \<^verbatim>\<open>serde_json\<close>.\<close>

record 'v json =
  json_from_str :: "string \<Rightarrow> string + 'v"
  json_from_value :: "'v \<Rightarrow> string + 'v ws_client_msg"
  json_as_str :: "'v \<Rightarrow> string option"
  json_to_string :: "wire \<Rightarrow> string option"

definition ws_server_msg_msg :: "string \<Rightarrow> ws_server_msg" where
  "ws_server_msg_msg m = \<lparr>sv_msg = m, sv_error = ''''\<rparr>"

definition ws_server_msg_err :: "string \<Rightarrow> ws_server_msg" where
  "ws_server_msg_err e = \<lparr>sv_msg = '''', sv_error = e\<rparr>"

definition to_wire :: "'v json \<Rightarrow> wire \<Rightarrow> string" where
  "to_wire js w = (case json_to_string js w of None \<Rightarrow> '''' | Some s \<Rightarrow> s)"

definition server_msg :: "'v json \<Rightarrow> string \<Rightarrow> string" where
  "server_msg js m = to_wire js (WServer (ws_server_msg_msg m))"

definition server_err :: "'v json \<Rightarrow> string \<Rightarrow> string" where
  "server_err js e = to_wire js (WServer (ws_server_msg_err e))"

end
