(* ===== verification/Client.thy ===== *)
theory Client
  imports Messages
begin

text \<open>
  One participant of a V1 room (\<^verbatim>\<open>src/client.rs\<close>): its state record, one definition per
  method, the read and write planes as FIFO queues, and the register timeout.
\<close>

definition MAX_QUEUED_MSG_COUNT :: nat where
  "MAX_QUEUED_MSG_COUNT = 1024"

datatype client_event = Expired

record client =
  cl_id :: client_id
  cl_room_id :: room_id
  cl_registered :: bool
  cl_msgs :: "string list"
  cl_reads :: "message list"
  cl_writes :: "message list"
  cl_events :: "client_event list"
  cl_timeout :: "instant option"
  cl_is_initiator :: bool

section \<open>Operations\<close>

definition client_new :: "client_id \<Rightarrow> room_id \<Rightarrow> instant option \<Rightarrow> client" where
  "client_new cid rid timeout =
     \<lparr>cl_id = cid, cl_room_id = rid, cl_registered = False, cl_msgs = [], cl_reads = [],
      cl_writes = [], cl_events = [], cl_timeout = timeout, cl_is_initiator = False\<rparr>"

definition client_set_initiator :: "bool \<Rightarrow> client \<Rightarrow> client" where
  "client_set_initiator b c = c\<lparr>cl_is_initiator := b\<rparr>"

definition client_set_timer :: "instant option \<Rightarrow> client \<Rightarrow> client" where
  "client_set_timer t c = c\<lparr>cl_timeout := t\<rparr>"

definition client_register :: "client \<Rightarrow> client \<times> unit result" where
  "client_register c =
     (if cl_registered c then (c, Err ''Duplicated registration'')
      else ((client_set_timer None c)\<lparr>cl_registered := True\<rparr>, Ok ()))"

definition client_deregister :: "client \<Rightarrow> client" where
  "client_deregister c = c\<lparr>cl_registered := False\<rparr>"

definition client_enqueue :: "string \<Rightarrow> client \<Rightarrow> client \<times> unit result" where
  "client_enqueue m c =
     (if length (cl_msgs c) \<ge> MAX_QUEUED_MSG_COUNT
      then (c, Err ''Too many messages queued for the client'')
      else (c\<lparr>cl_msgs := cl_msgs c @ [m]\<rparr>, Ok ()))"

definition client_drain_msgs :: "client \<Rightarrow> client \<times> string list" where
  "client_drain_msgs c = (c\<lparr>cl_msgs := []\<rparr>, cl_msgs c)"

definition client_handle_read :: "message \<Rightarrow> client \<Rightarrow> client \<times> unit result" where
  "client_handle_read m c = (c\<lparr>cl_reads := cl_reads c @ [m]\<rparr>, Ok ())"

definition client_poll_read :: "client \<Rightarrow> client \<times> message option" where
  "client_poll_read c =
     (case cl_reads c of [] \<Rightarrow> (c, None) | m # ms \<Rightarrow> (c\<lparr>cl_reads := ms\<rparr>, Some m))"

definition client_handle_write :: "message \<Rightarrow> client \<Rightarrow> client \<times> unit result" where
  "client_handle_write m c = (c\<lparr>cl_writes := cl_writes c @ [m]\<rparr>, Ok ())"

definition client_poll_write :: "client \<Rightarrow> client \<times> message option" where
  "client_poll_write c =
     (case cl_writes c of [] \<Rightarrow> (c, None) | m # ms \<Rightarrow> (c\<lparr>cl_writes := ms\<rparr>, Some m))"

definition client_poll_event :: "client \<Rightarrow> client \<times> client_event option" where
  "client_poll_event c =
     (case cl_events c of [] \<Rightarrow> (c, None) | e # es \<Rightarrow> (c\<lparr>cl_events := es\<rparr>, Some e))"

text \<open>
  The loop of \<^verbatim>\<open>send_queued\<close>: \<open>self\<close>'s queue is drained whatever happens, a failing
  delivery ends the loop with its error.
\<close>

fun deliver_all :: "room_id \<Rightarrow> string list \<Rightarrow> client \<Rightarrow> client \<times> unit result" where
  "deliver_all rid [] other = (other, Ok ())"
| "deliver_all rid (m # ms) other =
     (case client_handle_write
             \<lparr>msg_roomid = rid, msg_clientid = cl_id other, msg_msg = m\<rparr> other of
        (other', Inl e) \<Rightarrow> (other', Inl e)
      | (other', Inr _) \<Rightarrow> deliver_all rid ms other')"

definition client_send_queued :: "client \<Rightarrow> client \<Rightarrow> client \<times> client \<times> unit result" where
  "client_send_queued self other =
     (if cl_id self = cl_id other \<or> \<not> cl_registered other then (self, other, Err ''Invalid client'')
      else (case deliver_all (cl_room_id self) (cl_msgs self) other of
              (other', r) \<Rightarrow> (self\<lparr>cl_msgs := []\<rparr>, other', r)))"

definition client_send :: "client \<Rightarrow> client \<Rightarrow> string \<Rightarrow> client \<times> client \<times> unit result" where
  "client_send self other m =
     (if cl_id self = cl_id other then (self, other, Err ''Invalid client'')
      else if cl_registered other then
        (case client_handle_write
                \<lparr>msg_roomid = cl_room_id self, msg_clientid = cl_id other, msg_msg = m\<rparr> other of
           (other', Inl e) \<Rightarrow> (self, other', Inl e)
         | (other', Inr _) \<Rightarrow> (self, other', Ok ()))
      else (case client_enqueue m self of (self', r) \<Rightarrow> (self', other, r)))"

definition client_handle_timeout :: "instant \<Rightarrow> client \<Rightarrow> client \<times> unit result" where
  "client_handle_timeout now c =
     (case cl_timeout c of
        Some deadline \<Rightarrow>
          if now \<ge> deadline \<and> \<not> cl_registered c
          then (c\<lparr>cl_events := cl_events c @ [Expired], cl_timeout := None\<rparr>, Ok ())
          else (c, Ok ())
      | None \<Rightarrow> (c, Ok ()))"

definition client_poll_timeout :: "client \<Rightarrow> instant option" where
  "client_poll_timeout c = cl_timeout c"

definition client_close :: "client \<Rightarrow> client \<times> unit result" where
  "client_close c = (client_deregister c, Ok ())"

lemmas client_defs [defs] =
  client_new_def client_set_initiator_def client_set_timer_def client_register_def
  client_deregister_def client_enqueue_def client_drain_msgs_def client_handle_read_def
  client_handle_write_def client_send_queued_def client_send_def client_handle_timeout_def
  client_poll_timeout_def client_close_def

section \<open>The planes of a client are FIFO queues\<close>

text \<open>A message's address: the room and the client it is tagged with.\<close>

definition msg_addr :: "message \<Rightarrow> room_id \<times> client_id" where
  "msg_addr m = (msg_roomid m, msg_clientid m)"

definition client_addr :: "client \<Rightarrow> room_id \<times> client_id" where
  "client_addr c = (cl_room_id c, cl_id c)"

definition client_writes_at :: "client \<Rightarrow> room_id \<times> client_id \<Rightarrow> message list" where
  "client_writes_at c a = (if a = client_addr c then cl_writes c else [])"

definition client_reads_at :: "client \<Rightarrow> room_id \<times> client_id \<Rightarrow> message list" where
  "client_reads_at c a = (if a = client_addr c then cl_reads c else [])"

definition client_tagged :: "client \<Rightarrow> bool" where
  "client_tagged c \<longleftrightarrow> (\<forall>m \<in> set (cl_writes c) \<union> set (cl_reads c). msg_addr m = client_addr c)"

lemma client_addr_simps [simp]:
  "client_addr (c\<lparr>cl_writes := ws\<rparr>) = client_addr c" "client_addr (c\<lparr>cl_reads := rs\<rparr>) = client_addr c"
  "snd (client_addr c) = cl_id c" "fst (client_addr c) = cl_room_id c"
  by (simp_all add: client_addr_def)

lemma client_tagged_polls:
  "client_tagged c \<Longrightarrow> cl_writes c = m # ms \<Longrightarrow> msg_addr m = client_addr c"
  "client_tagged c \<Longrightarrow> cl_reads c = m # ms \<Longrightarrow> msg_addr m = client_addr c"
  "client_tagged c \<Longrightarrow> cl_writes c = m # ms \<Longrightarrow> client_tagged (c\<lparr>cl_writes := ms\<rparr>)"
  "client_tagged c \<Longrightarrow> cl_reads c = m # ms \<Longrightarrow> client_tagged (c\<lparr>cl_reads := ms\<rparr>)"
  unfolding client_tagged_def by simp_all

lemma client_poll_write_iff:
  "client_poll_write c = (c', None) \<longleftrightarrow> cl_writes c = [] \<and> c' = c"
  "client_poll_write c = (c', Some m) \<longleftrightarrow> (\<exists>ms. cl_writes c = m # ms \<and> c' = c\<lparr>cl_writes := ms\<rparr>)"
  by (auto simp: client_poll_write_def split: list.splits)

lemma client_poll_read_iff:
  "client_poll_read c = (c', None) \<longleftrightarrow> cl_reads c = [] \<and> c' = c"
  "client_poll_read c = (c', Some m) \<longleftrightarrow> (\<exists>ms. cl_reads c = m # ms \<and> c' = c\<lparr>cl_reads := ms\<rparr>)"
  by (auto simp: client_poll_read_def split: list.splits)

lemma client_poll_kept:
  "client_tagged c \<Longrightarrow> client_poll_write c = (c', r) \<Longrightarrow> client_tagged c' \<and> cl_id c' = cl_id c"
  "client_tagged c \<Longrightarrow> client_poll_read c = (c', r) \<Longrightarrow> client_tagged c' \<and> cl_id c' = cl_id c"
  by (cases r; clarsimp simp: client_poll_write_iff client_poll_read_iff client_tagged_polls)+

lemma client_polled:
  "client_tagged c \<Longrightarrow> client_poll_write c = (c', Some m) \<Longrightarrow> client_addr c' = client_addr c \<and> msg_addr m = client_addr c"
  "client_tagged c \<Longrightarrow> client_poll_read c = (c', Some m) \<Longrightarrow> client_addr c' = client_addr c \<and> msg_addr m = client_addr c"
  by (clarsimp simp: client_poll_write_iff client_poll_read_iff client_tagged_polls)+

interpretation client_writes: keyed_planes client_poll_write msg_addr client_writes_at
  "\<lambda>c. length (cl_writes c)" client_tagged snd "\<lambda>k c. cl_id c = k"
proof
  fix c c' :: client and m a b k r
  assume c: "client_tagged c"
  show "client_poll_write c = (c', None) \<Longrightarrow> c' = c \<and> length (cl_writes c) = 0"
    by (simp add: client_poll_write_iff)
  show "length (cl_writes c) = 0 \<Longrightarrow> client_writes_at c a = []"
    by (simp add: client_writes_at_def)
  show "cl_id c = k \<Longrightarrow> client_writes_at c a \<noteq> [] \<Longrightarrow> snd a = k"
    by (auto simp: client_writes_at_def split: if_splits)
  show "client_poll_write c = (c', r) \<Longrightarrow> client_tagged c'"
    and "cl_id c = k \<Longrightarrow> client_poll_write c = (c', r) \<Longrightarrow> cl_id c' = k"
    by (blast dest: client_poll_kept(1) [OF c])+
  assume p: "client_poll_write c = (c', Some m)"
  then obtain ms where w: "cl_writes c = m # ms" "cl_writes c' = ms"
    by (clarsimp simp: client_poll_write_iff)
  with client_polled(1) [OF c p]
  show "client_writes_at c (msg_addr m) = m # client_writes_at c' (msg_addr m)"
    and "b \<noteq> msg_addr m \<Longrightarrow> client_writes_at c' b = client_writes_at c b"
    and "length (cl_writes c) = Suc (length (cl_writes c'))"
    by (simp_all add: client_writes_at_def)
qed

interpretation client_reads: keyed_planes client_poll_read msg_addr client_reads_at
  "\<lambda>c. length (cl_reads c)" client_tagged snd "\<lambda>k c. cl_id c = k"
proof
  fix c c' :: client and m a b k r
  assume c: "client_tagged c"
  show "client_poll_read c = (c', None) \<Longrightarrow> c' = c \<and> length (cl_reads c) = 0"
    by (simp add: client_poll_read_iff)
  show "length (cl_reads c) = 0 \<Longrightarrow> client_reads_at c a = []"
    by (simp add: client_reads_at_def)
  show "cl_id c = k \<Longrightarrow> client_reads_at c a \<noteq> [] \<Longrightarrow> snd a = k"
    by (auto simp: client_reads_at_def split: if_splits)
  show "client_poll_read c = (c', r) \<Longrightarrow> client_tagged c'"
    and "cl_id c = k \<Longrightarrow> client_poll_read c = (c', r) \<Longrightarrow> cl_id c' = k"
    by (blast dest: client_poll_kept(2) [OF c])+
  assume p: "client_poll_read c = (c', Some m)"
  then obtain ms where w: "cl_reads c = m # ms" "cl_reads c' = ms"
    by (clarsimp simp: client_poll_read_iff)
  with client_polled(2) [OF c p]
  show "client_reads_at c (msg_addr m) = m # client_reads_at c' (msg_addr m)"
    and "b \<noteq> msg_addr m \<Longrightarrow> client_reads_at c' b = client_reads_at c b"
    and "length (cl_reads c) = Suc (length (cl_reads c'))"
    by (simp_all add: client_reads_at_def)
qed

section \<open>Relay between two clients\<close>

text \<open>Wrapping a payload for a recipient, as every relay does.\<close>

definition addressed_to :: "room_id \<Rightarrow> client_id \<Rightarrow> string \<Rightarrow> message" where
  "addressed_to rid cid m = \<lparr>msg_roomid = rid, msg_clientid = cid, msg_msg = m\<rparr>"

lemma addressed_to_sel [simp]:
  "msg_roomid (addressed_to rid cid m) = rid" "msg_clientid (addressed_to rid cid m) = cid"
  "msg_msg (addressed_to rid cid m) = m"
  by (simp_all add: addressed_to_def)

lemma deliver_all_eq:
  "deliver_all rid ms other =
     (other\<lparr>cl_writes := cl_writes other @ map (addressed_to rid (cl_id other)) ms\<rparr>, Ok ())"
  by (induction ms arbitrary: other) (simp_all add: client_handle_write_def addressed_to_def)

lemma client_send_queued_ok:
  "cl_id self \<noteq> cl_id other \<Longrightarrow> cl_registered other \<Longrightarrow>
     client_send_queued self other =
       (self\<lparr>cl_msgs := []\<rparr>,
        other\<lparr>cl_writes := cl_writes other @
                map (addressed_to (cl_room_id self) (cl_id other)) (cl_msgs self)\<rparr>, Ok ())"
  by (simp add: client_send_queued_def deliver_all_eq)

lemma client_send_registered:
  "cl_id self \<noteq> cl_id other \<Longrightarrow> cl_registered other \<Longrightarrow>
     client_send self other m =
       (self, other\<lparr>cl_writes := cl_writes other @
                      [addressed_to (cl_room_id self) (cl_id other) m]\<rparr>, Ok ())"
  by (simp add: client_send_def client_handle_write_def addressed_to_def)

lemma client_send_queues:
  "cl_id self \<noteq> cl_id other \<Longrightarrow> \<not> cl_registered other \<Longrightarrow>
     client_send self other m = (fst (client_enqueue m self), other, snd (client_enqueue m self))"
  by (simp add: client_send_def split: prod.splits)

end
