(* ===== verification/Room.thy ===== *)
theory Room
  imports Client
begin

text \<open>
  A V1 room and its at most two clients (\<^verbatim>\<open>src/room.rs\<close>): the operations, the room
  invariant and its preservation.
\<close>

definition MAX_ROOM_CAPACITY :: nat where
  "MAX_ROOM_CAPACITY = 2"

definition LOOPBACK_CLIENT_ID :: client_id where
  "LOOPBACK_CLIENT_ID = ''LOOPBACK_CLIENT_ID''"

record room =
  rm_id :: room_id
  rm_clients :: "(client_id, client) hashmap"
  rm_register_timeout :: duration

section \<open>Operations\<close>

definition room_new :: "room_id \<Rightarrow> duration \<Rightarrow> room" where
  "room_new rid timeout = \<lparr>rm_id = rid, rm_clients = [], rm_register_timeout = timeout\<rparr>"

text \<open>Writing back through a \<^verbatim>\<open>&mut Client\<close> borrowed from the map.\<close>

definition room_put :: "client_id \<Rightarrow> client \<Rightarrow> room \<Rightarrow> room" where
  "room_put cid c r = r\<lparr>rm_clients := hm_insert cid c (rm_clients r)\<rparr>"

definition room_client :: "instant \<Rightarrow> client_id \<Rightarrow> room \<Rightarrow> room \<times> unit result" where
  "room_client now cid r =
     (if \<not> hm_contains (rm_clients r) cid then
        (if length (rm_clients r) \<ge> MAX_ROOM_CAPACITY then (r, Err ''Max room capacity reached'')
         else (room_put cid (client_new cid (rm_id r) (Some (now + rm_register_timeout r))) r, Ok ()))
      else (r, Ok ()))"

definition room_register :: "instant \<Rightarrow> client_id \<Rightarrow> room \<Rightarrow> room \<times> unit result" where
  "room_register now cid r0 =
     (case room_client now cid r0 of
        (r, Inl e) \<Rightarrow> (r, Inl e)
      | (r, Inr _) \<Rightarrow>
         (case map_of (rm_clients r) cid of
            None \<Rightarrow> (r, Panicked)
          | Some c \<Rightarrow>
             (case client_register c of
                (c', Inl e) \<Rightarrow> (room_put cid c' r, Inl e)
              | (c', Inr _) \<Rightarrow>
                 (let r' = room_put cid c' r in
                  if length (rm_clients r') > 1 then
                    (case other_key cid (rm_clients r') of
                       None \<Rightarrow> (r', Ok ())
                     | Some oid \<Rightarrow>
                        (case (map_of (rm_clients r') oid, map_of (rm_clients r') cid) of
                           (Some other, Some c) \<Rightarrow>
                             (case client_send_queued other c of
                                (other', c'', _) \<Rightarrow> (room_put cid c'' (room_put oid other' r'), Ok ()))
                         | _ \<Rightarrow> (r', Ok ())))
                  else (r', Ok ())))))"

definition room_send :: "instant \<Rightarrow> client_id \<Rightarrow> string \<Rightarrow> room \<Rightarrow> room \<times> unit result" where
  "room_send now src msg r0 =
     (case room_client now src r0 of
        (r, Inl e) \<Rightarrow> (r, Inl e)
      | (r, Inr _) \<Rightarrow>
         (if length (rm_clients r) = 1 then
            (case map_of (rm_clients r) src of
               None \<Rightarrow> (r, Panicked)
             | Some c \<Rightarrow> (case client_enqueue msg c of (c', res) \<Rightarrow> (room_put src c' r, res)))
          else
            (case other_key src (rm_clients r) of
               Some oid \<Rightarrow>
                 (case (map_of (rm_clients r) src, map_of (rm_clients r) oid) of
                    (Some s, Some oc) \<Rightarrow>
                      (case client_send s oc msg of
                         (s', oc', res) \<Rightarrow> (room_put oid oc' (room_put src s' r), res))
                  | _ \<Rightarrow> (r, Err (''Corrupted room '' @ rm_id r)))
             | None \<Rightarrow> (r, Err (''Corrupted room '' @ rm_id r)))))"

definition room_remove :: "client_id \<Rightarrow> room \<Rightarrow> room" where
  "room_remove cid r =
     (case map_of (rm_clients r) cid of
        None \<Rightarrow> r
      | Some _ \<Rightarrow>
          r\<lparr>rm_clients := hm_map (client_set_initiator True) (hm_remove cid (rm_clients r))\<rparr>)"

definition room_deregister :: "instant \<Rightarrow> client_id \<Rightarrow> room \<Rightarrow> room \<times> bool" where
  "room_deregister now cid r =
     (case map_of (rm_clients r) cid of
        None \<Rightarrow> (r, False)
      | Some c \<Rightarrow>
          if cl_registered c
          then (room_put cid (client_set_timer (Some (now + rm_register_timeout r))
                                (client_deregister c)) r, True)
          else (r, False))"

definition room_remove_if_unregistered :: "client_id \<Rightarrow> room \<Rightarrow> room \<times> bool" where
  "room_remove_if_unregistered cid r =
     (case map_of (rm_clients r) cid of
        None \<Rightarrow> (r, False)
      | Some c \<Rightarrow> if \<not> cl_registered c then (room_remove cid r, True) else (r, False))"

definition room_client_is_initiator :: "client_id \<Rightarrow> room \<Rightarrow> bool" where
  "room_client_is_initiator cid r =
     (case map_of (rm_clients r) cid of None \<Rightarrow> False | Some c \<Rightarrow> cl_is_initiator c)"

definition room_set_initiator :: "client_id \<Rightarrow> bool \<Rightarrow> room \<Rightarrow> room" where
  "room_set_initiator cid b r =
     (case map_of (rm_clients r) cid of
        None \<Rightarrow> r | Some c \<Rightarrow> room_put cid (client_set_initiator b c) r)"

definition room_add_client ::
    "instant \<Rightarrow> client_id \<Rightarrow> bool \<Rightarrow> room \<Rightarrow> room \<times> (bool \<times> string list) result" where
  "room_add_client now cid is_loopback r =
     (if hm_contains (rm_clients r) cid then (r, Err ''DUPLICATE_CLIENT'')
      else if length (rm_clients r) \<ge> MAX_ROOM_CAPACITY then (r, Err ''FULL'')
      else
        (let is_initiator = (rm_clients r = []);
             messages = (if \<not> is_initiator
                         then concat (map (\<lambda>(k, c). snd (client_drain_msgs c)) (rm_clients r))
                         else []);
             r1 = (if \<not> is_initiator
                   then r\<lparr>rm_clients := hm_map (\<lambda>c. fst (client_drain_msgs c)) (rm_clients r)\<rparr>
                   else r)
         in case room_client now cid r1 of
              (r2, Inl e) \<Rightarrow> (r2, Inl e)
            | (r2, Inr _) \<Rightarrow>
               (let r3 = room_set_initiator cid is_initiator r2;
                    r4 = (if is_loopback then
                            (case room_client now LOOPBACK_CLIENT_ID r3 of
                               (r', Inl _) \<Rightarrow> r'
                             | (r', Inr _) \<Rightarrow> room_set_initiator LOOPBACK_CLIENT_ID False r')
                          else r3)
                in (r4, Ok (is_initiator, messages)))))"

definition room_occupancy :: "room \<Rightarrow> nat" where
  "room_occupancy r = length (rm_clients r)"

definition room_empty :: "room \<Rightarrow> bool" where
  "room_empty r \<longleftrightarrow> rm_clients r = []"

definition room_ws_count :: "room \<Rightarrow> nat" where
  "room_ws_count r = length (filter (\<lambda>(k, c). cl_registered c) (rm_clients r))"

section \<open>The message planes and the timeout\<close>

definition room_handle_read :: "message \<Rightarrow> room \<Rightarrow> room \<times> unit result" where
  "room_handle_read m r =
     (case map_of (rm_clients r) (msg_clientid m) of
        None \<Rightarrow> (r, Ok ())
      | Some c \<Rightarrow> (case client_handle_read m c of (c', res) \<Rightarrow> (room_put (msg_clientid m) c' r, res)))"

definition room_poll_read :: "room \<Rightarrow> room \<times> message option" where
  "room_poll_read r =
     (case scan_poll client_poll_read (rm_clients r) of (m, x) \<Rightarrow> (r\<lparr>rm_clients := m\<rparr>, x))"

definition room_handle_write :: "message \<Rightarrow> room \<Rightarrow> room \<times> unit result" where
  "room_handle_write m r =
     (case map_of (rm_clients r) (msg_clientid m) of
        None \<Rightarrow> (r, Ok ())
      | Some c \<Rightarrow> (case client_handle_write m c of (c', res) \<Rightarrow> (room_put (msg_clientid m) c' r, res)))"

definition room_poll_write :: "room \<Rightarrow> room \<times> message option" where
  "room_poll_write r =
     (case scan_poll client_poll_write (rm_clients r) of (m, x) \<Rightarrow> (r\<lparr>rm_clients := m\<rparr>, x))"

text \<open>
  The first loop of \<^verbatim>\<open>handle_timeout\<close>: every client is ticked and its events drained, the
  ids of the expired ones are collected; an error ends the loop early.
\<close>

fun room_tick :: "instant \<Rightarrow> (client_id, client) hashmap \<Rightarrow>
    (client_id, client) hashmap \<times> client_id list \<times> unit result" where
  "room_tick now [] = ([], [], Ok ())"
| "room_tick now ((k, c) # m) =
     (case client_handle_timeout now c of
        (c', Inl e) \<Rightarrow> ((k, c') # m, [], Inl e)
      | (c', Inr _) \<Rightarrow>
         (case drain client_poll_event (length (cl_events c')) c' of
            (c'', evts) \<Rightarrow>
              (case room_tick now m of
                 (m', ids, res) \<Rightarrow> ((k, c'') # m', map (\<lambda>_. k) evts @ ids, res))))"

definition room_handle_timeout :: "instant \<Rightarrow> room \<Rightarrow> room \<times> unit result" where
  "room_handle_timeout now r =
     (case room_tick now (rm_clients r) of
        (m, ids, Inl e) \<Rightarrow> (r\<lparr>rm_clients := m\<rparr>, Inl e)
      | (m, ids, Inr _) \<Rightarrow> (fold room_remove ids (r\<lparr>rm_clients := m\<rparr>), Ok ()))"

definition room_poll_timeout :: "room \<Rightarrow> instant option" where
  "room_poll_timeout r = earliest (map (\<lambda>(k, c). client_poll_timeout c) (rm_clients r))"

text \<open>\<^verbatim>\<open>close\<close> stops at the first client whose \<^verbatim>\<open>close\<close> fails, which none does.\<close>

fun close_clients :: "(client_id, client) hashmap \<Rightarrow> (client_id, client) hashmap \<times> unit result" where
  "close_clients [] = ([], Ok ())"
| "close_clients ((k, c) # m) =
     (case client_close c of
        (c', Inl e) \<Rightarrow> ((k, c') # m, Inl e)
      | (c', Inr _) \<Rightarrow> (case close_clients m of (m', res) \<Rightarrow> ((k, c') # m', res)))"

definition room_close :: "room \<Rightarrow> room \<times> unit result" where
  "room_close r =
     (case close_clients (rm_clients r) of
        (m, Inl e) \<Rightarrow> (r\<lparr>rm_clients := m\<rparr>, Inl e)
      | (m, Inr _) \<Rightarrow> (r\<lparr>rm_clients := []\<rparr>, Ok ()))"

lemmas room_defs [defs] =
  room_new_def room_put_def room_client_def room_set_initiator_def room_remove_def
  room_deregister_def room_remove_if_unregistered_def room_occupancy_def room_empty_def

end
