(* ===== verification/Room_Inv.thy ===== *)
theory Room_Inv
  imports Room
begin

text \<open>
  The invariant of a V1 room, its preservation by every operation, and the functional
  behaviour of the operations on rooms that satisfy it.
\<close>

section \<open>The invariant\<close>

text \<open>
  One client: its key and room are its own, its deadline is pending exactly while it is
  unregistered, no event is left over, its queue is bounded and every waiting message is
  addressed to it.
\<close>

definition client_ok :: "room_id \<Rightarrow> client_id \<Rightarrow> client \<Rightarrow> bool" where
  "client_ok rid k c \<longleftrightarrow>
     cl_id c = k \<and> cl_room_id c = rid \<and> cl_registered c = (cl_timeout c = None) \<and>
     cl_events c = [] \<and> length (cl_msgs c) \<le> MAX_QUEUED_MSG_COUNT \<and>
     (\<forall>m \<in> set (cl_writes c). msg_roomid m = rid \<and> msg_clientid m = k) \<and>
     (\<forall>m \<in> set (cl_reads c). msg_roomid m = rid \<and> msg_clientid m = k)"

text \<open>At most one client is the initiator.\<close>

definition one_initiator :: "(client_id, client) hashmap \<Rightarrow> bool" where
  "one_initiator m \<longleftrightarrow>
     (\<forall>(a, ca) \<in> set m. \<forall>(b, cb) \<in> set m. cl_is_initiator ca \<longrightarrow> cl_is_initiator cb \<longrightarrow> a = b)"

text \<open>Nothing is queued for a registered peer.\<close>

definition flushed :: "(client_id, client) hashmap \<Rightarrow> bool" where
  "flushed m \<longleftrightarrow>
     (\<forall>(a, ca) \<in> set m. \<forall>(b, cb) \<in> set m. a \<noteq> b \<longrightarrow> cl_registered cb \<longrightarrow> cl_msgs ca = [])"

definition clients_ok :: "room_id \<Rightarrow> (client_id, client) hashmap \<Rightarrow> bool" where
  "clients_ok rid m \<longleftrightarrow>
     hm_ok m \<and> length m \<le> MAX_ROOM_CAPACITY \<and> (\<forall>(k, c) \<in> set m. client_ok rid k c) \<and>
     one_initiator m \<and> flushed m"

definition room_inv :: "room \<Rightarrow> bool" where
  "room_inv r \<longleftrightarrow> clients_ok (rm_id r) (rm_clients r)"

text \<open>
  A room holds no client, one or two; on each shape the invariant is a short conjunction,
  and the operations evaluate.
\<close>

lemma clients_ok_shapes [simp]:
  "clients_ok rid []"
  "clients_ok rid [(a, ca)] \<longleftrightarrow> client_ok rid a ca"
  "clients_ok rid [(a, ca), (b, cb)] \<longleftrightarrow>
     a \<noteq> b \<and> client_ok rid a ca \<and> client_ok rid b cb \<and>
     \<not> (cl_is_initiator ca \<and> cl_is_initiator cb) \<and>
     (cl_registered cb \<longrightarrow> cl_msgs ca = []) \<and> (cl_registered ca \<longrightarrow> cl_msgs cb = [])"
  by (auto simp: clients_ok_def one_initiator_def flushed_def MAX_ROOM_CAPACITY_def)

lemma clients_ok_cases:
  assumes "clients_ok rid m"
  obtains (empty) "m = []"
  | (single) a ca where "m = [(a, ca)]" "client_ok rid a ca" "cl_id ca = a" "cl_room_id ca = rid"
  | (pair) a ca b cb where "m = [(a, ca), (b, cb)]" "a \<noteq> b" "clients_ok rid [(a, ca), (b, cb)]"
      "cl_id ca = a" "cl_room_id ca = rid" "cl_id cb = b" "cl_room_id cb = rid"
proof (cases m)
  case Nil
  then show ?thesis by (rule empty)
next
  case (Cons p m1)
  obtain a ca where p: "p = (a, ca)" by (cases p)
  show ?thesis
  proof (cases m1)
    case Nil
    with assms Cons p have "m = [(a, ca)]" "client_ok rid a ca" by simp_all
    then show ?thesis by (intro single [of a ca]) (simp_all add: client_ok_def)
  next
    case c2: (Cons q m2)
    obtain b cb where q: "q = (b, cb)" by (cases q)
    have "m2 = []"
      using assms by (simp add: Cons c2 clients_ok_def MAX_ROOM_CAPACITY_def)
    with Cons c2 p q have m: "m = [(a, ca), (b, cb)]" by simp
    with assms have "clients_ok rid [(a, ca), (b, cb)]" by simp
    moreover from this have "a \<noteq> b" by simp
    ultimately show ?thesis using m by (intro pair [of a ca b cb]) (simp_all add: client_ok_def)
  qed
qed

lemma client_ok_new [simp]: "client_ok rid k (client_new k rid (Some t))"
  by (simp add: client_ok_def client_new_def)

text \<open>The updates the operations make keep a client well-formed.\<close>

lemma client_ok_updates [simp]:
  assumes "client_ok rid k c"
  shows "client_ok rid k (c\<lparr>cl_is_initiator := b\<rparr>)" "client_ok rid k (c\<lparr>cl_msgs := []\<rparr>)"
    "client_ok rid k (c\<lparr>cl_timeout := None, cl_registered := True\<rparr>)"
    "client_ok rid k (c\<lparr>cl_registered := False, cl_timeout := Some t\<rparr>)"
    "length (cl_msgs c) < MAX_QUEUED_MSG_COUNT \<Longrightarrow> client_ok rid k (c\<lparr>cl_msgs := cl_msgs c @ [msg]\<rparr>)"
  using assms by (auto simp: client_ok_def)

lemma client_ok_writes [simp]:
  "client_ok rid k c \<Longrightarrow> \<forall>m \<in> set ms. msg_roomid m = rid \<and> msg_clientid m = k \<Longrightarrow>
     client_ok rid k (c\<lparr>cl_writes := cl_writes c @ ms\<rparr>)"
  "client_ok rid k c \<Longrightarrow> \<forall>m \<in> set ms. msg_roomid m = rid \<and> msg_clientid m = k \<Longrightarrow>
     client_ok rid k (c\<lparr>cl_reads := cl_reads c @ ms\<rparr>)"
  "client_ok rid k c \<Longrightarrow> cl_writes c = m # ms \<Longrightarrow> client_ok rid k (c\<lparr>cl_writes := ms\<rparr>)"
  "client_ok rid k c \<Longrightarrow> cl_reads c = m # ms \<Longrightarrow> client_ok rid k (c\<lparr>cl_reads := ms\<rparr>)"
  by (auto simp: client_ok_def)

lemma client_ok_registered_writes [simp]:
  "client_ok rid k c \<Longrightarrow> \<forall>m \<in> set ms. msg_roomid m = rid \<and> msg_clientid m = k \<Longrightarrow>
     client_ok rid k (c\<lparr>cl_timeout := None, cl_registered := True, cl_writes := cl_writes c @ ms\<rparr>)"
  by (auto simp: client_ok_def)

lemma client_ok_new_msg [simp]:
  "0 < MAX_QUEUED_MSG_COUNT \<Longrightarrow> client_ok rid k (client_new k rid (Some t)\<lparr>cl_msgs := [msg]\<rparr>)"
  by (simp add: client_ok_def client_new_def)

lemma client_new_sel [simp]:
  "\<not> cl_registered (client_new k rid t)" "cl_msgs (client_new k rid t) = []"
  "\<not> cl_is_initiator (client_new k rid t)" "cl_id (client_new k rid t) = k"
  "cl_room_id (client_new k rid t) = rid"
  by (simp_all add: client_new_def)

lemma room_put_sel [simp]: "rm_id (room_put k c r) = rm_id r"
  "rm_register_timeout (room_put k c r) = rm_register_timeout r"
  "rm_clients (room_put k c r) = hm_insert k c (rm_clients r)"
  by (simp_all add: room_put_def)

lemma other_key_shapes [simp]:
  "other_key k [] = None"
  "other_key k [(a, ca)] = (if a \<noteq> k then Some a else None)"
  "other_key k [(a, ca), (b, cb)] = (if a \<noteq> k then Some a else if b \<noteq> k then Some b else None)"
  by (simp_all add: other_key_def)

lemma room_inv_new [preserves]: "room_inv (room_new rid t)"
  by (simp add: room_inv_def room_new_def)

section \<open>Timeouts\<close>

text \<open>A client is due when its register deadline has passed while it is unregistered.\<close>

definition due :: "instant \<Rightarrow> client \<Rightarrow> bool" where
  "due now c \<longleftrightarrow>
     (case cl_timeout c of Some d \<Rightarrow> d \<le> now \<and> \<not> cl_registered c | None \<Rightarrow> False)"

definition reaped :: "instant \<Rightarrow> (client_id, client) hashmap \<Rightarrow> (client_id, client) hashmap" where
  "reaped now m =
     (if \<exists>(k, c) \<in> set m. due now c
      then hm_map (client_set_initiator True) (filter (\<lambda>(k, c). \<not> due now c) m) else m)"

lemma client_tick:
  "client_handle_timeout now c =
     (if due now c then (c\<lparr>cl_events := cl_events c @ [Expired], cl_timeout := None\<rparr>, Ok ())
      else (c, Ok ()))"
  by (auto simp: client_handle_timeout_def due_def split: option.splits)

lemma room_tick_eq:
  "\<forall>(k, c) \<in> set m. cl_events c = [] \<Longrightarrow>
     room_tick now m =
       (map (\<lambda>(k, c). (k, if due now c then c\<lparr>cl_timeout := None\<rparr> else c)) m,
        map fst (filter (\<lambda>(k, c). due now c) m), Ok ())"
  by (induction m) (auto simp: client_tick client_poll_event_def)

text \<open>A tick of the room reaps exactly the clients that are due and promotes a survivor.\<close>

lemma room_handle_timeout_eq:
  assumes "room_inv r"
  shows "room_handle_timeout now r = (r\<lparr>rm_clients := reaped now (rm_clients r)\<rparr>, Ok ())"
proof -
  have "\<forall>(k, c) \<in> set (rm_clients r). cl_events c = []"
    using assms by (auto simp: room_inv_def clients_ok_def client_ok_def)
  note tick = room_tick_eq [OF this, of now]
  from assms show ?thesis
    unfolding room_inv_def
  proof (cases rule: clients_ok_cases)
    case empty
    then show ?thesis unfolding room_handle_timeout_def tick by (simp add: reaped_def)
  next
    case (single a ca)
    then show ?thesis
      unfolding room_handle_timeout_def tick
      by (cases "due now ca") (simp_all add: reaped_def room_remove_def)
  next
    case (pair a ca b cb)
    then show ?thesis
      unfolding room_handle_timeout_def tick
      by (cases "due now ca"; cases "due now cb")
        (simp_all add: reaped_def room_remove_def hm_map_def)
  qed
qed

lemma room_handle_timeout_inv [preserves]:
  assumes "room_inv r"
  shows "room_inv (fst (room_handle_timeout now r))"
proof -
  have "clients_ok (rm_id r) (reaped now (rm_clients r))"
    using assms unfolding room_inv_def
    by (cases rule: clients_ok_cases)
      (auto simp: reaped_def hm_map_def client_set_initiator_def)
  then show ?thesis
    by (simp add: room_handle_timeout_eq [OF assms] room_inv_def)
qed

section \<open>Preservation, one lemma per operation\<close>

lemma room_client_inv [preserves]: "room_inv r \<Longrightarrow> room_inv (fst (room_client now cid r))"
  unfolding room_inv_def
  by (erule clients_ok_cases) (auto simp: room_client_def MAX_ROOM_CAPACITY_def)

lemma room_register_inv [preserves]: "room_inv r \<Longrightarrow> room_inv (fst (room_register now cid r))"
  unfolding room_inv_def
  by (erule clients_ok_cases)
    (auto simp: room_register_def room_client_def MAX_ROOM_CAPACITY_def client_register_def
      client_send_queued_def deliver_all_eq client_set_timer_def)

lemma room_send_inv [preserves]: "room_inv r \<Longrightarrow> room_inv (fst (room_send now src msg r))"
  unfolding room_inv_def
  by (erule clients_ok_cases)
    (auto simp: room_send_def room_client_def MAX_ROOM_CAPACITY_def client_enqueue_def
      client_send_def client_handle_write_def)

lemma room_remove_inv [preserves]: "room_inv r \<Longrightarrow> room_inv (room_remove cid r)"
  unfolding room_inv_def
  by (erule clients_ok_cases)
    (auto simp: room_remove_def hm_map_def client_set_initiator_def)

lemma room_deregister_inv [preserves]: "room_inv r \<Longrightarrow> room_inv (fst (room_deregister now cid r))"
  unfolding room_inv_def
  by (erule clients_ok_cases)
    (auto simp: room_deregister_def client_set_timer_def client_deregister_def)

lemma room_remove_if_unregistered_inv [preserves]:
  "room_inv r \<Longrightarrow> room_inv (fst (room_remove_if_unregistered cid r))"
  using room_remove_inv [of r cid]
  by (auto simp: room_remove_if_unregistered_def split: option.splits)

lemma room_add_client_inv [preserves]:
  "room_inv r \<Longrightarrow> room_inv (fst (room_add_client now cid lb r))"
  unfolding room_inv_def
  by (erule clients_ok_cases)
    (auto simp: room_add_client_def room_client_def room_set_initiator_def MAX_ROOM_CAPACITY_def
      client_drain_msgs_def client_set_initiator_def hm_map_def Let_def)

lemma room_handle_read_inv [preserves]:
  "room_inv r \<Longrightarrow> msg_roomid m = rm_id r \<Longrightarrow> room_inv (fst (room_handle_read m r))"
  unfolding room_inv_def
  by (erule clients_ok_cases)
    (auto simp: room_handle_read_def client_handle_read_def)

lemma room_handle_write_inv [preserves]:
  "room_inv r \<Longrightarrow> msg_roomid m = rm_id r \<Longrightarrow> room_inv (fst (room_handle_write m r))"
  unfolding room_inv_def
  by (erule clients_ok_cases)
    (auto simp: room_handle_write_def client_handle_write_def)

lemma room_poll_read_inv [preserves]: "room_inv r \<Longrightarrow> room_inv (fst (room_poll_read r))"
  unfolding room_inv_def
  by (erule clients_ok_cases)
    (auto simp: room_poll_read_def client_poll_read_def split: list.splits)

lemma room_poll_write_inv [preserves]: "room_inv r \<Longrightarrow> room_inv (fst (room_poll_write r))"
  unfolding room_inv_def
  by (erule clients_ok_cases)
    (auto simp: room_poll_write_def client_poll_write_def split: list.splits)

lemma room_close_inv [preserves]: "room_inv r \<Longrightarrow> room_inv (fst (room_close r))"
  unfolding room_inv_def
  by (erule clients_ok_cases) (auto simp: room_close_def client_close_def)

end
