(* ===== verification/Room_Planes.thy ===== *)
theory Room_Planes
  imports Room_Inv
begin

text \<open>
  The read and write planes of a V1 room are addressed planes: polling a room takes the
  head of one client's queue, and draining it yields every client's messages in order.
\<close>

definition room_writes_at :: "room \<Rightarrow> room_id \<times> client_id \<Rightarrow> message list" where
  "room_writes_at r = hm_queue snd client_writes_at (rm_clients r)"

definition room_reads_at :: "room \<Rightarrow> room_id \<times> client_id \<Rightarrow> message list" where
  "room_reads_at r = hm_queue snd client_reads_at (rm_clients r)"

definition room_writes_size :: "room \<Rightarrow> nat" where
  "room_writes_size r = hm_size (\<lambda>c. length (cl_writes c)) (rm_clients r)"

definition room_reads_size :: "room \<Rightarrow> nat" where
  "room_reads_size r = hm_size (\<lambda>c. length (cl_reads c)) (rm_clients r)"

lemma client_ok_tagged: "client_ok rid k c \<Longrightarrow> client_tagged c \<and> cl_id c = k"
  by (auto simp: client_ok_def client_tagged_def msg_addr_def client_addr_def)

lemma room_inv_planes: "room_inv r \<Longrightarrow> hm_all (\<lambda>k c. client_tagged c \<and> cl_id c = k) (rm_clients r)"
  by (auto simp: room_inv_def clients_ok_def hm_all_def dest: client_ok_tagged)

lemma room_poll_write_scan:
  "room_poll_write r = (r', x) \<longleftrightarrow>
     (\<exists>m. scan_poll client_poll_write (rm_clients r) = (m, x) \<and> r' = r\<lparr>rm_clients := m\<rparr>)"
  by (auto simp: room_poll_write_def split: prod.splits)

lemma room_poll_read_scan:
  "room_poll_read r = (r', x) \<longleftrightarrow>
     (\<exists>m. scan_poll client_poll_read (rm_clients r) = (m, x) \<and> r' = r\<lparr>rm_clients := m\<rparr>)"
  by (auto simp: room_poll_read_def split: prod.splits)

text \<open>A room's messages carry the room's id.\<close>

lemma room_queue_owner:
  "room_inv r \<Longrightarrow> room_writes_at r a \<noteq> [] \<Longrightarrow> fst a = rm_id r"
  "room_inv r \<Longrightarrow> room_reads_at r a \<noteq> [] \<Longrightarrow> fst a = rm_id r"
  by (auto simp: room_writes_at_def room_reads_at_def hm_queue_def client_writes_at_def
      client_reads_at_def client_addr_def room_inv_def clients_ok_def client_ok_def
      split: option.splits if_splits dest!: map_of_SomeD)

interpretation room_writes: keyed_planes room_poll_write msg_addr room_writes_at
  room_writes_size room_inv fst "\<lambda>k r. rm_id r = k"
proof
  fix r r' :: room and a
  assume r: "room_inv r"
  show "room_poll_write r = (r', None) \<Longrightarrow> r' = r \<and> room_writes_size r = 0"
    using client_writes.scan.poll_none [OF room_inv_planes [OF r]]
    by (auto simp: room_poll_write_scan room_writes_size_def)
  show "room_writes_size r = 0 \<Longrightarrow> room_writes_at r a = []"
    using client_writes.scan.size_zero [OF room_inv_planes [OF r]]
    by (simp add: room_writes_size_def room_writes_at_def)
  fix x b k
  show "room_poll_write r = (r', Some x) \<Longrightarrow>
      room_writes_at r (msg_addr x) = x # room_writes_at r' (msg_addr x)"
    using client_writes.scan.poll_head [OF room_inv_planes [OF r]]
    by (auto simp: room_poll_write_scan room_writes_at_def)
  show "room_poll_write r = (r', Some x) \<Longrightarrow> b \<noteq> msg_addr x \<Longrightarrow> room_writes_at r' b = room_writes_at r b"
    using client_writes.scan.poll_others [OF room_inv_planes [OF r], where b = b]
    by (auto simp: room_poll_write_scan room_writes_at_def)
  show "room_poll_write r = (r', Some x) \<Longrightarrow> room_writes_size r = Suc (room_writes_size r')"
    using client_writes.scan.poll_size [OF room_inv_planes [OF r]]
    by (auto simp: room_poll_write_scan room_writes_size_def)
  fix y
  show "room_poll_write r = (r', y) \<Longrightarrow> room_inv r'"
    using room_poll_write_inv [OF r] by simp
  show "rm_id r = k \<Longrightarrow> room_poll_write r = (r', y) \<Longrightarrow> rm_id r' = k"
    by (auto simp: room_poll_write_scan)
  show "rm_id r = k \<Longrightarrow> room_writes_at r a \<noteq> [] \<Longrightarrow> fst a = k"
    using room_queue_owner(1) [OF r] by simp
qed

interpretation room_reads: keyed_planes room_poll_read msg_addr room_reads_at
  room_reads_size room_inv fst "\<lambda>k r. rm_id r = k"
proof
  fix r r' :: room and a
  assume r: "room_inv r"
  show "room_poll_read r = (r', None) \<Longrightarrow> r' = r \<and> room_reads_size r = 0"
    using client_reads.scan.poll_none [OF room_inv_planes [OF r]]
    by (auto simp: room_poll_read_scan room_reads_size_def)
  show "room_reads_size r = 0 \<Longrightarrow> room_reads_at r a = []"
    using client_reads.scan.size_zero [OF room_inv_planes [OF r]]
    by (simp add: room_reads_size_def room_reads_at_def)
  fix x b k
  show "room_poll_read r = (r', Some x) \<Longrightarrow>
      room_reads_at r (msg_addr x) = x # room_reads_at r' (msg_addr x)"
    using client_reads.scan.poll_head [OF room_inv_planes [OF r]]
    by (auto simp: room_poll_read_scan room_reads_at_def)
  show "room_poll_read r = (r', Some x) \<Longrightarrow> b \<noteq> msg_addr x \<Longrightarrow> room_reads_at r' b = room_reads_at r b"
    using client_reads.scan.poll_others [OF room_inv_planes [OF r], where b = b]
    by (auto simp: room_poll_read_scan room_reads_at_def)
  show "room_poll_read r = (r', Some x) \<Longrightarrow> room_reads_size r = Suc (room_reads_size r')"
    using client_reads.scan.poll_size [OF room_inv_planes [OF r]]
    by (auto simp: room_poll_read_scan room_reads_size_def)
  fix y
  show "room_poll_read r = (r', y) \<Longrightarrow> room_inv r'"
    using room_poll_read_inv [OF r] by simp
  show "rm_id r = k \<Longrightarrow> room_poll_read r = (r', y) \<Longrightarrow> rm_id r' = k"
    by (auto simp: room_poll_read_scan)
  show "rm_id r = k \<Longrightarrow> room_reads_at r a \<noteq> [] \<Longrightarrow> fst a = k"
    using room_queue_owner(2) [OF r] by simp
qed

end
