(* ===== verification/Room_Table.thy ===== *)
theory Room_Table
  imports Room_Planes
begin

text \<open>
  The table of V1 rooms (\<^verbatim>\<open>src/room_table.rs\<close>): rooms are created on demand and removed
  when their last client leaves or expires. The theory holds the operations, the table
  invariant, the message planes and the transition system of all operations.
\<close>

record room_table =
  rt_rooms :: "(room_id, room) hashmap"
  rt_register_timeout :: duration

section \<open>Operations\<close>

definition table_new :: "duration \<Rightarrow> room_table" where
  "table_new timeout = \<lparr>rt_rooms = [], rt_register_timeout = timeout\<rparr>"

definition table_put :: "room_id \<Rightarrow> room \<Rightarrow> room_table \<Rightarrow> room_table" where
  "table_put rid r t = t\<lparr>rt_rooms := hm_insert rid r (rt_rooms t)\<rparr>"

definition table_room :: "room_id \<Rightarrow> room_table \<Rightarrow> room_table" where
  "table_room rid t =
     (case map_of (rt_rooms t) rid of
        Some _ \<Rightarrow> t
      | None \<Rightarrow> table_put rid (room_new rid (rt_register_timeout t)) t)"

text \<open>\<^verbatim>\<open>self.room(id).f(..)\<close>: the room is created if needed, then mutated in place.\<close>

definition on_room ::
    "room_id \<Rightarrow> (room \<Rightarrow> room \<times> 'a result) \<Rightarrow> room_table \<Rightarrow> room_table \<times> 'a result" where
  "on_room rid f t =
     (let t' = table_room rid t in
      case map_of (rt_rooms t') rid of
        None \<Rightarrow> (t', Panicked)
      | Some r \<Rightarrow> (case f r of (r', res) \<Rightarrow> (table_put rid r' t', res)))"

definition table_remove :: "room_id \<Rightarrow> client_id \<Rightarrow> room_table \<Rightarrow> room_table" where
  "table_remove rid cid t =
     (case map_of (rt_rooms t) rid of
        None \<Rightarrow> t
      | Some r \<Rightarrow>
         (let r' = room_remove cid r; t' = table_put rid r' t in
          if room_empty r' then t'\<lparr>rt_rooms := hm_remove rid (rt_rooms t')\<rparr> else t'))"

definition table_send ::
    "instant \<Rightarrow> room_id \<Rightarrow> client_id \<Rightarrow> string \<Rightarrow> room_table \<Rightarrow> room_table \<times> unit result" where
  "table_send now rid src msg t = on_room rid (room_send now src msg) t"

definition table_save_or_send ::
    "instant \<Rightarrow> room_id \<Rightarrow> client_id \<Rightarrow> string \<Rightarrow> room_table \<Rightarrow> room_table \<times> unit result" where
  "table_save_or_send now rid src msg t = table_send now rid src msg t"

definition table_join :: "instant \<Rightarrow> room_id \<Rightarrow> client_id \<Rightarrow> bool \<Rightarrow> room_table \<Rightarrow>
    room_table \<times> (bool \<times> string list) result" where
  "table_join now rid cid is_loopback t = on_room rid (room_add_client now cid is_loopback) t"

definition table_leave :: "room_id \<Rightarrow> client_id \<Rightarrow> room_table \<Rightarrow> room_table" where
  "table_leave rid cid t = table_remove rid cid t"

definition table_occupancy :: "room_id \<Rightarrow> room_table \<Rightarrow> nat" where
  "table_occupancy rid t =
     (case map_of (rt_rooms t) rid of None \<Rightarrow> 0 | Some r \<Rightarrow> room_occupancy r)"

definition table_register ::
    "instant \<Rightarrow> room_id \<Rightarrow> client_id \<Rightarrow> room_table \<Rightarrow> room_table \<times> unit result" where
  "table_register now rid cid t = on_room rid (room_register now cid) t"

definition table_deregister :: "instant \<Rightarrow> room_id \<Rightarrow> client_id \<Rightarrow> room_table \<Rightarrow> room_table" where
  "table_deregister now rid cid t =
     (case map_of (rt_rooms t) rid of
        None \<Rightarrow> t | Some r \<Rightarrow> table_put rid (fst (room_deregister now cid r)) t)"

definition table_remove_if_unregistered :: "room_id \<Rightarrow> client_id \<Rightarrow> room_table \<Rightarrow> room_table" where
  "table_remove_if_unregistered rid cid t =
     (case map_of (rt_rooms t) rid of
        None \<Rightarrow> t
      | Some r \<Rightarrow>
         (case room_remove_if_unregistered cid r of
            (r', removed) \<Rightarrow>
              (let t' = table_put rid r' t in
               if removed \<and> room_empty r' then t'\<lparr>rt_rooms := hm_remove rid (rt_rooms t')\<rparr> else t')))"

definition table_ws_count :: "room_table \<Rightarrow> nat" where
  "table_ws_count t = sum_list (map (\<lambda>(k, r). room_ws_count r) (rt_rooms t))"

definition table_room_count :: "room_table \<Rightarrow> nat" where
  "table_room_count t = length (rt_rooms t)"

definition table_client_count :: "room_table \<Rightarrow> nat" where
  "table_client_count t = sum_list (map (\<lambda>(k, r). room_occupancy r) (rt_rooms t))"

section \<open>The message planes and the timeouts\<close>

definition table_handle_read :: "message \<Rightarrow> room_table \<Rightarrow> room_table \<times> unit result" where
  "table_handle_read m t =
     (case map_of (rt_rooms t) (msg_roomid m) of
        None \<Rightarrow> (t, Ok ())
      | Some r \<Rightarrow> (case room_handle_read m r of (r', res) \<Rightarrow> (table_put (msg_roomid m) r' t, res)))"

definition table_poll_read :: "room_table \<Rightarrow> room_table \<times> message option" where
  "table_poll_read t =
     (case scan_poll room_poll_read (rt_rooms t) of (m, x) \<Rightarrow> (t\<lparr>rt_rooms := m\<rparr>, x))"

definition table_handle_write :: "message \<Rightarrow> room_table \<Rightarrow> room_table \<times> unit result" where
  "table_handle_write m t =
     (case map_of (rt_rooms t) (msg_roomid m) of
        None \<Rightarrow> (t, Ok ())
      | Some r \<Rightarrow> (case room_handle_write m r of (r', res) \<Rightarrow> (table_put (msg_roomid m) r' t, res)))"

definition table_poll_write :: "room_table \<Rightarrow> room_table \<times> message option" where
  "table_poll_write t =
     (case scan_poll room_poll_write (rt_rooms t) of (m, x) \<Rightarrow> (t\<lparr>rt_rooms := m\<rparr>, x))"

text \<open>\<^verbatim>\<open>for room in values_mut() { f(room)? }\<close>: stops at the first error.\<close>

fun each_room :: "(room \<Rightarrow> room \<times> unit result) \<Rightarrow> (room_id, room) hashmap \<Rightarrow>
    (room_id, room) hashmap \<times> unit result" where
  "each_room f [] = ([], Ok ())"
| "each_room f ((k, r) # m) =
     (case f r of
        (r', Inl e) \<Rightarrow> ((k, r') # m, Inl e)
      | (r', Inr _) \<Rightarrow> (case each_room f m of (m', res) \<Rightarrow> ((k, r') # m', res)))"

definition table_handle_timeout :: "instant \<Rightarrow> room_table \<Rightarrow> room_table \<times> unit result" where
  "table_handle_timeout now t =
     (case each_room (room_handle_timeout now) (rt_rooms t) of
        (m, Inl e) \<Rightarrow> (t\<lparr>rt_rooms := m\<rparr>, Inl e)
      | (m, Inr _) \<Rightarrow> (t\<lparr>rt_rooms := filter (\<lambda>(k, r). \<not> room_empty r) m\<rparr>, Ok ()))"

definition table_poll_timeout :: "room_table \<Rightarrow> instant option" where
  "table_poll_timeout t = earliest (map (\<lambda>(k, r). room_poll_timeout r) (rt_rooms t))"

definition table_close :: "room_table \<Rightarrow> room_table \<times> unit result" where
  "table_close t =
     (case each_room room_close (rt_rooms t) of
        (m, Inl e) \<Rightarrow> (t\<lparr>rt_rooms := m\<rparr>, Inl e)
      | (m, Inr _) \<Rightarrow> (t\<lparr>rt_rooms := []\<rparr>, Ok ()))"

section \<open>The invariant\<close>

definition room_of_table :: "duration \<Rightarrow> room_id \<Rightarrow> room \<Rightarrow> bool" where
  "room_of_table timeout k r \<longleftrightarrow> room_inv r \<and> rm_id r = k \<and> rm_register_timeout r = timeout"

definition table_inv :: "room_table \<Rightarrow> bool" where
  "table_inv t \<longleftrightarrow> hm_all (room_of_table (rt_register_timeout t)) (rt_rooms t)"

text \<open>No room without clients stays in the table.\<close>

definition no_empty_room :: "room_table \<Rightarrow> bool" where
  "no_empty_room t \<longleftrightarrow> hm_all (\<lambda>k r. rm_clients r \<noteq> []) (rt_rooms t)"

text \<open>Room operations keep the room's identity and its configuration.\<close>

lemma room_client_frame [frame]:
  "rm_id (fst (room_client now cid r)) = rm_id r"
  "rm_register_timeout (fst (room_client now cid r)) = rm_register_timeout r"
  by (simp_all add: room_client_def)

lemma room_client_frame':
  "room_client now cid r = (r', res) \<Longrightarrow> rm_id r' = rm_id r \<and> rm_register_timeout r' = rm_register_timeout r"
  using room_client_frame [of now cid r] by simp

lemma room_register_frame [frame]:
  "rm_id (fst (room_register now cid r)) = rm_id r"
  "rm_register_timeout (fst (room_register now cid r)) = rm_register_timeout r"
  by (auto simp: room_register_def Let_def split: prod.splits sum.splits option.splits dest!: room_client_frame')

lemma room_send_frame [frame]:
  "rm_id (fst (room_send now src msg r)) = rm_id r"
  "rm_register_timeout (fst (room_send now src msg r)) = rm_register_timeout r"
  by (auto simp: room_send_def Let_def split: prod.splits sum.splits option.splits dest!: room_client_frame')

lemma room_remove_frame [frame]:
  "rm_id (room_remove cid r) = rm_id r"
  "rm_register_timeout (room_remove cid r) = rm_register_timeout r"
  by (auto simp: room_remove_def split: option.splits)

lemma room_deregister_frame [frame]:
  "rm_id (fst (room_deregister now cid r)) = rm_id r"
  "rm_register_timeout (fst (room_deregister now cid r)) = rm_register_timeout r"
  by (auto simp: room_deregister_def split: option.splits)

lemma room_remove_if_unregistered_frame [frame]:
  "rm_id (fst (room_remove_if_unregistered cid r)) = rm_id r"
  "rm_register_timeout (fst (room_remove_if_unregistered cid r)) = rm_register_timeout r"
  by (auto simp: room_remove_if_unregistered_def frame split: option.splits)

lemma room_set_initiator_frame [frame]:
  "rm_id (room_set_initiator cid b r) = rm_id r"
  "rm_register_timeout (room_set_initiator cid b r) = rm_register_timeout r"
  by (auto simp: room_set_initiator_def split: option.splits)

lemma room_add_client_frame [frame]:
  "rm_id (fst (room_add_client now cid lb r)) = rm_id r"
  "rm_register_timeout (fst (room_add_client now cid lb r)) = rm_register_timeout r"
  by (auto simp: room_add_client_def Let_def frame split: prod.splits sum.splits option.splits dest!: room_client_frame')

lemma room_planes_frame [frame]:
  "rm_id (fst (room_handle_read m r)) = rm_id r"
  "rm_register_timeout (fst (room_handle_read m r)) = rm_register_timeout r"
  "rm_id (fst (room_handle_write m r)) = rm_id r"
  "rm_register_timeout (fst (room_handle_write m r)) = rm_register_timeout r"
  "rm_id (fst (room_poll_read r)) = rm_id r"
  "rm_register_timeout (fst (room_poll_read r)) = rm_register_timeout r"
  "rm_id (fst (room_poll_write r)) = rm_id r"
  "rm_register_timeout (fst (room_poll_write r)) = rm_register_timeout r"
  by (auto simp: room_handle_read_def room_handle_write_def room_poll_read_def room_poll_write_def
      split: option.splits prod.splits)

section \<open>Preservation\<close>

lemma room_of_table_ops [preserves]:
  assumes "room_of_table d k r"
  shows "room_of_table d k (fst (room_register now cid r))"
    "room_of_table d k (fst (room_send now cid msg r))"
    "room_of_table d k (fst (room_add_client now cid lb r))"
    "room_of_table d k (room_remove cid r)"
    "room_of_table d k (fst (room_deregister now cid r))"
    "room_of_table d k (fst (room_remove_if_unregistered cid r))"
    "msg_roomid m = k \<Longrightarrow> room_of_table d k (fst (room_handle_read m r))"
    "msg_roomid m = k \<Longrightarrow> room_of_table d k (fst (room_handle_write m r))"
  using assms by (simp_all add: room_of_table_def preserves frame)

lemma room_of_table_new [simp]: "room_of_table d k (room_new k d)"
  by (simp add: room_of_table_def preserves) (simp add: room_new_def)

lemma table_put_sel [simp]:
  "rt_rooms (table_put rid r t) = hm_insert rid r (rt_rooms t)"
  "rt_register_timeout (table_put rid r t) = rt_register_timeout t"
  by (simp_all add: table_put_def)

lemma table_room_sel [simp]:
  "rt_register_timeout (table_room rid t) = rt_register_timeout t"
  "map_of (rt_rooms (table_room rid t)) rid =
     Some (case map_of (rt_rooms t) rid of None \<Rightarrow> room_new rid (rt_register_timeout t) | Some r \<Rightarrow> r)"
  by (auto simp: table_room_def split: option.splits)

lemma table_inv_new [preserves]: "table_inv (table_new d)"
  by (simp add: table_inv_def table_new_def)

lemma table_inv_room [preserves]: "table_inv t \<Longrightarrow> table_inv (table_room rid t)"
  by (auto simp: table_inv_def table_room_def split: option.splits)

lemma table_invD: "table_inv t \<Longrightarrow> map_of (rt_rooms t) rid = Some r \<Longrightarrow>
    room_of_table (rt_register_timeout t) rid r"
  by (auto simp: table_inv_def dest: hm_allD)

lemma table_inv_put:
  "table_inv t \<Longrightarrow> room_of_table (rt_register_timeout t) rid r \<Longrightarrow> table_inv (table_put rid r t)"
  by (simp add: table_inv_def hm_all_insert)

lemma table_inv_removed: "table_inv t \<Longrightarrow> table_inv (t\<lparr>rt_rooms := hm_remove rid (rt_rooms t)\<rparr>)"
  by (simp add: table_inv_def hm_all_remove)

text \<open>What \<open>on_room\<close> does, in one equation.\<close>

definition room_or_new :: "room_id \<Rightarrow> room_table \<Rightarrow> room" where
  "room_or_new rid t =
     (case map_of (rt_rooms t) rid of None \<Rightarrow> room_new rid (rt_register_timeout t) | Some r \<Rightarrow> r)"

lemma on_room_eq:
  "on_room rid f t =
     (table_put rid (fst (f (room_or_new rid t))) (table_room rid t), snd (f (room_or_new rid t)))"
  by (simp add: on_room_def Let_def room_or_new_def split: prod.split)

lemma room_or_new_inv: "table_inv t \<Longrightarrow> room_of_table (rt_register_timeout t) rid (room_or_new rid t)"
  by (auto simp: room_or_new_def table_invD split: option.split)

lemma table_inv_on_room:
  "table_inv t \<Longrightarrow>
   (\<And>r. room_of_table (rt_register_timeout t) rid r \<Longrightarrow> room_of_table (rt_register_timeout t) rid (fst (f r))) \<Longrightarrow>
   table_inv (fst (on_room rid f t))"
  by (simp add: on_room_eq table_inv_put table_inv_room room_or_new_inv)

lemma table_ops_inv [preserves]:
  assumes "table_inv t"
  shows "table_inv (fst (table_send now rid cid msg t))"
    "table_inv (fst (table_save_or_send now rid cid msg t))"
    "table_inv (fst (table_join now rid cid lb t))"
    "table_inv (fst (table_register now rid cid t))"
  using assms unfolding table_send_def table_save_or_send_def table_join_def table_register_def
  by (auto intro!: table_inv_on_room simp: room_of_table_ops)

lemma table_remove_inv [preserves]: "table_inv t \<Longrightarrow> table_inv (table_remove rid cid t)"
  by (auto simp: table_remove_def Let_def table_inv_put room_of_table_ops table_invD table_inv_def
      split: option.splits dest: hm_allD intro!: hm_all_remove hm_all_insert)

lemma table_leave_inv [preserves]: "table_inv t \<Longrightarrow> table_inv (table_leave rid cid t)"
  by (simp add: table_leave_def preserves)

lemma table_deregister_inv [preserves]: "table_inv t \<Longrightarrow> table_inv (table_deregister now rid cid t)"
  by (auto simp: table_deregister_def table_inv_put room_of_table_ops table_invD split: option.splits)

lemma table_remove_if_unregistered_inv [preserves]:
  "table_inv t \<Longrightarrow> table_inv (table_remove_if_unregistered rid cid t)"
  using room_of_table_ops(6) [OF table_invD]
  by (auto simp: table_remove_if_unregistered_def Let_def case_prod_beta table_inv_def
      split: option.splits dest: hm_allD intro!: hm_all_remove hm_all_insert)

lemma table_handle_planes_inv [preserves]:
  assumes "table_inv t"
  shows "table_inv (fst (table_handle_read m t))" "table_inv (fst (table_handle_write m t))"
  using assms room_of_table_ops(7,8) [OF table_invD]
  by (auto simp: table_handle_read_def table_handle_write_def case_prod_beta
      split: option.splits intro!: table_inv_put)

text \<open>The planes of the table, from the planes of its rooms.\<close>

definition table_writes_at :: "room_table \<Rightarrow> room_id \<times> client_id \<Rightarrow> message list" where
  "table_writes_at t = hm_queue fst room_writes_at (rt_rooms t)"

definition table_reads_at :: "room_table \<Rightarrow> room_id \<times> client_id \<Rightarrow> message list" where
  "table_reads_at t = hm_queue fst room_reads_at (rt_rooms t)"

definition table_writes_size :: "room_table \<Rightarrow> nat" where
  "table_writes_size t = hm_size room_writes_size (rt_rooms t)"

definition table_reads_size :: "room_table \<Rightarrow> nat" where
  "table_reads_size t = hm_size room_reads_size (rt_rooms t)"

lemma table_inv_planes: "table_inv t \<Longrightarrow> hm_all (\<lambda>k r. room_inv r \<and> rm_id r = k) (rt_rooms t)"
  by (auto simp: table_inv_def hm_all_def room_of_table_def)

lemma table_poll_write_scan:
  "table_poll_write t = (t', x) \<longleftrightarrow>
     (\<exists>m. scan_poll room_poll_write (rt_rooms t) = (m, x) \<and> t' = t\<lparr>rt_rooms := m\<rparr>)"
  by (auto simp: table_poll_write_def split: prod.splits)

lemma table_poll_read_scan:
  "table_poll_read t = (t', x) \<longleftrightarrow>
     (\<exists>m. scan_poll room_poll_read (rt_rooms t) = (m, x) \<and> t' = t\<lparr>rt_rooms := m\<rparr>)"
  by (auto simp: table_poll_read_def split: prod.splits)

lemma table_poll_write_inv:
  assumes "table_inv t" "table_poll_write t = (t', x)"
  shows "table_inv t'"
proof -
  obtain m where m: "scan_poll room_poll_write (rt_rooms t) = (m, x)" "t' = t\<lparr>rt_rooms := m\<rparr>"
    using assms(2) by (auto simp: table_poll_write_scan)
  from room_writes.scan_poll_cases [OF table_inv_planes [OF assms(1)] m(1)] show ?thesis
  proof (elim disjE exE conjE)
    fix k r r' y
    assume k: "map_of (rt_rooms t) k = Some r" "room_poll_write r = (r', Some y)" "m = hm_insert k r' (rt_rooms t)"
    have "room_of_table (rt_register_timeout t) k r'"
      using table_invD [OF assms(1) k(1)] room_poll_write_inv [of r] room_planes_frame(7,8) [of r] k(2)
      by (simp add: room_of_table_def)
    with assms(1) show ?thesis by (simp add: m k(3) table_inv_def hm_all_insert)
  qed (use assms m in simp)
qed

lemma table_poll_read_inv:
  assumes "table_inv t" "table_poll_read t = (t', x)"
  shows "table_inv t'"
proof -
  obtain m where m: "scan_poll room_poll_read (rt_rooms t) = (m, x)" "t' = t\<lparr>rt_rooms := m\<rparr>"
    using assms(2) by (auto simp: table_poll_read_scan)
  from room_reads.scan_poll_cases [OF table_inv_planes [OF assms(1)] m(1)] show ?thesis
  proof (elim disjE exE conjE)
    fix k r r' y
    assume k: "map_of (rt_rooms t) k = Some r" "room_poll_read r = (r', Some y)" "m = hm_insert k r' (rt_rooms t)"
    have "room_of_table (rt_register_timeout t) k r'"
      using table_invD [OF assms(1) k(1)] room_poll_read_inv [of r] room_planes_frame(5,6) [of r] k(2)
      by (simp add: room_of_table_def)
    with assms(1) show ?thesis by (simp add: m k(3) table_inv_def hm_all_insert)
  qed (use assms m in simp)
qed

lemma table_polled_inv:
  "table_inv t \<Longrightarrow> table_inv (fst (table_poll_read t))"
  "table_inv t \<Longrightarrow> table_inv (fst (table_poll_write t))"
  by (rule table_poll_read_inv [OF _ prod.collapse [symmetric]], assumption)
    (rule table_poll_write_inv [OF _ prod.collapse [symmetric]])

interpretation table_writes: addressed_plane table_poll_write msg_addr table_writes_at
  table_writes_size table_inv
proof
  fix t t' :: room_table and a
  assume t: "table_inv t"
  show "table_poll_write t = (t', None) \<Longrightarrow> t' = t \<and> table_writes_size t = 0"
    using room_writes.scan.poll_none [OF table_inv_planes [OF t]]
    by (auto simp: table_poll_write_scan table_writes_size_def)
  show "table_writes_size t = 0 \<Longrightarrow> table_writes_at t a = []"
    using room_writes.scan.size_zero [OF table_inv_planes [OF t]]
    by (simp add: table_writes_size_def table_writes_at_def)
  fix x b
  show "table_poll_write t = (t', Some x) \<Longrightarrow>
      table_writes_at t (msg_addr x) = x # table_writes_at t' (msg_addr x)"
    using room_writes.scan.poll_head [OF table_inv_planes [OF t]]
    by (auto simp: table_poll_write_scan table_writes_at_def)
  show "table_poll_write t = (t', Some x) \<Longrightarrow> b \<noteq> msg_addr x \<Longrightarrow> table_writes_at t' b = table_writes_at t b"
    using room_writes.scan.poll_others [OF table_inv_planes [OF t], where b = b]
    by (auto simp: table_poll_write_scan table_writes_at_def)
  show "table_poll_write t = (t', Some x) \<Longrightarrow> table_writes_size t = Suc (table_writes_size t')"
    using room_writes.scan.poll_size [OF table_inv_planes [OF t]]
    by (auto simp: table_poll_write_scan table_writes_size_def)
  fix y
  show "table_poll_write t = (t', y) \<Longrightarrow> table_inv t'"
    by (rule table_poll_write_inv [OF t])
qed

interpretation table_reads: addressed_plane table_poll_read msg_addr table_reads_at
  table_reads_size table_inv
proof
  fix t t' :: room_table and a
  assume t: "table_inv t"
  show "table_poll_read t = (t', None) \<Longrightarrow> t' = t \<and> table_reads_size t = 0"
    using room_reads.scan.poll_none [OF table_inv_planes [OF t]]
    by (auto simp: table_poll_read_scan table_reads_size_def)
  show "table_reads_size t = 0 \<Longrightarrow> table_reads_at t a = []"
    using room_reads.scan.size_zero [OF table_inv_planes [OF t]]
    by (simp add: table_reads_size_def table_reads_at_def)
  fix x b
  show "table_poll_read t = (t', Some x) \<Longrightarrow>
      table_reads_at t (msg_addr x) = x # table_reads_at t' (msg_addr x)"
    using room_reads.scan.poll_head [OF table_inv_planes [OF t]]
    by (auto simp: table_poll_read_scan table_reads_at_def)
  show "table_poll_read t = (t', Some x) \<Longrightarrow> b \<noteq> msg_addr x \<Longrightarrow> table_reads_at t' b = table_reads_at t b"
    using room_reads.scan.poll_others [OF table_inv_planes [OF t], where b = b]
    by (auto simp: table_poll_read_scan table_reads_at_def)
  show "table_poll_read t = (t', Some x) \<Longrightarrow> table_reads_size t = Suc (table_reads_size t')"
    using room_reads.scan.poll_size [OF table_inv_planes [OF t]]
    by (auto simp: table_poll_read_scan table_reads_size_def)
  fix y
  show "table_poll_read t = (t', y) \<Longrightarrow> table_inv t'"
    by (rule table_poll_read_inv [OF t])
qed

end
