(* ===== verification/Room_Relay.thy ===== *)
theory Room_Relay
  imports Room_Inv
begin

text \<open>
  What a V1 room promises to its two clients: an abstract mailbox per client. The room
  spreads a mailbox over two places, the frames waiting for the client's socket and the
  peer's queue of unsent messages; \<open>inbox\<close> puts them together. Sending appends to the
  peer's mailbox, registering and dropping a connection leave the mailboxes alone,
  polling takes the head. A run of any such operations delivers what was accepted, in
  order, without loss or duplication.
\<close>

section \<open>The mailbox abstraction\<close>

definition waiting :: "client_id \<Rightarrow> (client_id, client) hashmap \<Rightarrow> string list" where
  "waiting k m = (case map_of m k of None \<Rightarrow> [] | Some c \<Rightarrow> map msg_msg (cl_writes c))"

definition queued_for :: "client_id \<Rightarrow> (client_id, client) hashmap \<Rightarrow> string list" where
  "queued_for k m = concat (map (\<lambda>(k', c). cl_msgs c) (filter (\<lambda>(k', c). k' \<noteq> k) m))"

definition inbox :: "room \<Rightarrow> client_id \<Rightarrow> string list" where
  "inbox r k = waiting k (rm_clients r) @ queued_for k (rm_clients r)"

lemma inbox_parts_shapes [simp]:
  "waiting k [] = []" "queued_for k [] = []"
  "waiting k [(a, ca)] = (if k = a then map msg_msg (cl_writes ca) else [])"
  "queued_for k [(a, ca)] = (if k = a then [] else cl_msgs ca)"
  "waiting k [(a, ca), (b, cb)] =
     (if k = a then map msg_msg (cl_writes ca)
      else if k = b then map msg_msg (cl_writes cb) else [])"
  "queued_for k [(a, ca), (b, cb)] =
     (if k = a then [] else cl_msgs ca) @ (if k = b then [] else cl_msgs cb)"
  by (auto simp: waiting_def queued_for_def)

lemma msg_of_addressed [simp]: "msg_msg \<circ> addressed_to rid k = id"
  by (auto simp: fun_eq_iff)

text \<open>Two clients share the room.\<close>

definition paired :: "room \<Rightarrow> client_id \<Rightarrow> client_id \<Rightarrow> bool" where
  "paired r a b \<longleftrightarrow>
     room_inv r \<and> a \<noteq> b \<and> hm_contains (rm_clients r) a \<and> hm_contains (rm_clients r) b"

lemma paired_shape:
  assumes "paired r a b"
  obtains
    (ab) ca cb where "rm_clients r = [(a, ca), (b, cb)]" "a \<noteq> b"
      "clients_ok (rm_id r) [(a, ca), (b, cb)]"
      "cl_id ca = a" "cl_room_id ca = rm_id r" "cl_id cb = b" "cl_room_id cb = rm_id r"
  | (ba) ca cb where "rm_clients r = [(b, cb), (a, ca)]" "a \<noteq> b"
      "clients_ok (rm_id r) [(b, cb), (a, ca)]"
      "cl_id ca = a" "cl_room_id ca = rm_id r" "cl_id cb = b" "cl_room_id cb = rm_id r"
proof -
  from assms have "clients_ok (rm_id r) (rm_clients r)" and d: "a \<noteq> b"
    and c: "hm_contains (rm_clients r) a" "hm_contains (rm_clients r) b"
    by (auto simp: paired_def room_inv_def)
  from this(1) show ?thesis
  proof (cases rule: clients_ok_cases)
    case empty
    with c show ?thesis by simp
  next
    case (single k ck)
    with c d show ?thesis by (simp split: if_splits)
  next
    case (pair k1 c1 k2 c2)
    from pair(1) c d have "k1 = a \<and> k2 = b \<or> k1 = b \<and> k2 = a"
      by (auto split: if_splits)
    then show ?thesis
    proof
      assume "k1 = a \<and> k2 = b"
      with pair d show ?thesis by (intro ab [where ca = c1 and cb = c2]) simp_all
    next
      assume "k1 = b \<and> k2 = a"
      with pair d show ?thesis by (intro ba [where ca = c2 and cb = c1]) simp_all
    qed
  qed
qed

lemma paired_intro [simp]:
  "rm_clients r = [(x, cx), (y, cy)] \<Longrightarrow>
     paired r a b \<longleftrightarrow> clients_ok (rm_id r) [(x, cx), (y, cy)] \<and> a \<noteq> b \<and> a \<in> {x, y} \<and> b \<in> {x, y}"
  by (auto simp: paired_def room_inv_def)

section \<open>One operation at a time\<close>

lemma room_send_paired:
  assumes "paired r a b" "room_send now a msg r = (r', Ok ())"
  shows "inbox r' b = inbox r b @ [msg] \<and> inbox r' a = inbox r a"
  using assms(2)
  by (cases rule: paired_shape [OF assms(1)])
    (auto simp: room_send_def room_client_def client_send_def client_handle_write_def
        client_enqueue_def inbox_def split: if_splits)

lemma room_send_rejected:
  assumes "room_inv r" "hm_contains (rm_clients r) src" "room_send now src msg r = (r', Inl e)"
  shows "r' = r"
  using assms unfolding room_inv_def
  by (cases rule: clients_ok_cases)
    (auto simp: room_send_def room_client_def client_send_def client_handle_write_def
      client_enqueue_def split: if_splits)

lemma room_client_foreign:
  assumes "paired r a b" "c \<noteq> a" "c \<noteq> b"
  shows "room_client now c r = (r, Err ''Max room capacity reached'')" "map_of (rm_clients r) c = None"
  using assms(2,3)
  by (cases rule: paired_shape [OF assms(1)]; simp add: room_client_def MAX_ROOM_CAPACITY_def)+

lemma room_foreign:
  assumes "paired r a b" "c \<noteq> a" "c \<noteq> b"
  shows "room_send now c msg r = (r, Err ''Max room capacity reached'')"
    and "room_register now c r = (r, Err ''Max room capacity reached'')"
    and "room_deregister now c r = (r, False)"
  by (simp_all add: room_send_def room_register_def room_deregister_def
      room_client_foreign [OF assms])

lemma room_register_paired:
  assumes "paired r a b" "k = a \<or> k = b"
  shows "inbox (fst (room_register now a r)) k = inbox r k"
  using assms(2)
  by (cases rule: paired_shape [OF assms(1)])
    (auto simp: room_register_def room_client_def client_register_def client_set_timer_def
        client_send_queued_def deliver_all_eq inbox_def)

lemma room_deregister_inbox: "room_inv r \<Longrightarrow> inbox (fst (room_deregister now a r)) k = inbox r k"
  unfolding room_inv_def
  by (erule clients_ok_cases)
    (auto simp: room_deregister_def client_set_timer_def client_deregister_def inbox_def)

lemma client_ok_head: "client_ok rid k c \<Longrightarrow> cl_writes c = m # ms \<Longrightarrow> msg_clientid m = k"
  by (simp add: client_ok_def)

lemma room_poll_write_paired:
  assumes "paired r a b" "room_poll_write r = (r', x)"
  shows "case x of None \<Rightarrow> r' = r | Some m \<Rightarrow>
    (msg_clientid m = a \<and> inbox r a = msg_msg m # inbox r' a \<and> inbox r' b = inbox r b \<or>
     msg_clientid m = b \<and> inbox r b = msg_msg m # inbox r' b \<and> inbox r' a = inbox r a)"
  using assms(2)
  by (cases rule: paired_shape [OF assms(1)])
    (auto simp: room_poll_write_def client_poll_write_def inbox_def
      split: list.splits dest: client_ok_head)

lemma hm_same_keys: "map fst m' = map fst m \<Longrightarrow> hm_contains m' k = hm_contains m k"
  by (metis hm_keys_iff list.set_map)

lemma paired_intro_keys:
  "paired r a b \<Longrightarrow> room_inv r' \<Longrightarrow> map fst (rm_clients r') = map fst (rm_clients r) \<Longrightarrow> paired r' a b"
  unfolding paired_def by (metis hm_same_keys)

lemma room_send_kept:
  assumes "paired r a b"
  shows "paired (fst (room_send now a msg r)) a b"
proof (rule paired_intro_keys [OF assms])
  show "room_inv (fst (room_send now a msg r))"
    using assms by (simp add: paired_def room_send_inv)
  show "map fst (rm_clients (fst (room_send now a msg r))) = map fst (rm_clients r)"
    by (cases rule: paired_shape [OF assms])
      (auto simp: room_send_def room_client_def split: prod.splits)
qed

lemma room_register_kept:
  assumes "paired r a b"
  shows "paired (fst (room_register now a r)) a b"
proof (rule paired_intro_keys [OF assms])
  show "room_inv (fst (room_register now a r))"
    using assms by (simp add: paired_def room_register_inv)
  show "map fst (rm_clients (fst (room_register now a r))) = map fst (rm_clients r)"
    by (cases rule: paired_shape [OF assms])
      (auto simp: room_register_def room_client_def client_register_def client_set_timer_def
        client_send_queued_def deliver_all_eq)
qed

lemma room_deregister_kept: "paired r a b \<Longrightarrow> paired (fst (room_deregister now a r)) a b"
  using room_deregister_inv [of r now a]
  by (auto simp: paired_def room_deregister_def split: option.splits)

lemma scan_poll_keys: "map fst (fst (scan_poll p m)) = map fst m"
  by (induction p m rule: scan_poll.induct) (auto split: prod.splits option.splits)

lemma room_poll_write_kept:
  assumes "paired r a b"
  shows "paired (fst (room_poll_write r)) a b"
proof (rule paired_intro_keys [OF assms])
  show "room_inv (fst (room_poll_write r))"
    using assms by (simp add: paired_def room_poll_write_inv)
  show "map fst (rm_clients (fst (room_poll_write r))) = map fst (rm_clients r)"
    by (simp add: room_poll_write_def scan_poll_keys case_prod_beta)
qed

lemma paired_sym: "paired r a b \<Longrightarrow> paired r b a"
  by (auto simp: paired_def)

section \<open>Runs\<close>

text \<open>
  The operations the two clients' connections cause once both have joined, in any order,
  from either client or from a stranger.
\<close>

datatype link_op = LSend client_id string | LRegister client_id | LDeregister client_id | LPoll

record link =
  lk_room :: room
  lk_accepted :: "(client_id \<times> string) list"
  lk_delivered :: "message list"

fun link_step :: "link \<Rightarrow> instant \<times> link_op \<Rightarrow> link" where
  "link_step s (now, LSend c msg) =
     (case room_send now c msg (lk_room s) of
        (r, Inr _) \<Rightarrow> s\<lparr>lk_room := r, lk_accepted := lk_accepted s @ [(c, msg)]\<rparr>
      | (r, Inl _) \<Rightarrow> s\<lparr>lk_room := r\<rparr>)"
| "link_step s (now, LRegister c) = s\<lparr>lk_room := fst (room_register now c (lk_room s))\<rparr>"
| "link_step s (now, LDeregister c) = s\<lparr>lk_room := fst (room_deregister now c (lk_room s))\<rparr>"
| "link_step s (now, LPoll) =
     (case room_poll_write (lk_room s) of
        (r, None) \<Rightarrow> s\<lparr>lk_room := r\<rparr>
      | (r, Some m) \<Rightarrow> s\<lparr>lk_room := r, lk_delivered := lk_delivered s @ [m]\<rparr>)"

definition sent_by :: "client_id \<Rightarrow> (client_id \<times> string) list \<Rightarrow> string list" where
  "sent_by a log = map snd (filter (\<lambda>(c, _). c = a) log)"

definition received_by :: "client_id \<Rightarrow> message list \<Rightarrow> string list" where
  "received_by b log = map msg_msg (filter (\<lambda>m. msg_clientid m = b) log)"

lemma log_append [simp]:
  "sent_by a (xs @ ys) = sent_by a xs @ sent_by a ys" "sent_by a [] = []"
  "sent_by a ((c, m) # xs) = (if c = a then m # sent_by a xs else sent_by a xs)"
  "received_by b (us @ vs) = received_by b us @ received_by b vs" "received_by b [] = []"
  "received_by b (m' # us) = (if msg_clientid m' = b then msg_msg m' # received_by b us else received_by b us)"
  by (simp_all add: sent_by_def received_by_def)

text \<open>The simulation: the room's mailboxes are what was accepted and not yet delivered.\<close>

definition link_ok :: "client_id \<Rightarrow> client_id \<Rightarrow> link \<Rightarrow> bool" where
  "link_ok a b s \<longleftrightarrow> paired (lk_room s) a b \<and>
     sent_by a (lk_accepted s) = received_by b (lk_delivered s) @ inbox (lk_room s) b \<and>
     sent_by b (lk_accepted s) = received_by a (lk_delivered s) @ inbox (lk_room s) a"

lemma link_ok_sym: "link_ok a b s \<longleftrightarrow> link_ok b a s"
  by (auto simp: link_ok_def dest: paired_sym)

lemma link_step_own:
  assumes "link_ok a b s" "op = LSend a msg \<or> op = LRegister a \<or> op = LDeregister a"
  shows "link_ok a b (link_step s (now, op))"
proof -
  have p: "paired (lk_room s) a b" and inv: "room_inv (lk_room s)" and "a \<noteq> b"
    using assms(1) by (auto simp: link_ok_def paired_def)
  from assms(2) show ?thesis
  proof (elim disjE)
    assume op: "op = LSend a msg"
    obtain r res where r: "room_send now a msg (lk_room s) = (r, res)"
      by (cases "room_send now a msg (lk_room s)")
    then have k: "paired r a b" using room_send_kept [OF p, of now msg] by simp
    show ?thesis
    proof (cases res)
      case (Inl e)
      with r have "r = lk_room s"
        using p by (intro room_send_rejected [OF inv _ r [unfolded Inl]]) (simp add: paired_def)
      with assms(1) show ?thesis by (simp add: op r Inl)
    next
      case (Inr u)
      with r have "inbox r b = inbox (lk_room s) b @ [msg] \<and> inbox r a = inbox (lk_room s) a"
        using room_send_paired [OF p] by auto
      with assms(1) k \<open>a \<noteq> b\<close> show ?thesis
        by (simp add: op r Inr link_ok_def)
    qed
  next
    assume "op = LRegister a"
    with assms(1) show ?thesis
      by (simp add: link_ok_def room_register_kept [OF p] room_register_paired [OF p])
  next
    assume "op = LDeregister a"
    with assms(1) show ?thesis
      by (simp add: link_ok_def room_deregister_kept [OF p] room_deregister_inbox [OF inv])
  qed
qed

lemma link_step_foreign:
  assumes "link_ok a b s" "c \<noteq> a" "c \<noteq> b" "op = LSend c msg \<or> op = LRegister c \<or> op = LDeregister c"
  shows "link_step s (now, op) = s"
proof -
  have "paired (lk_room s) a b" using assms(1) by (simp add: link_ok_def)
  from room_foreign [OF this assms(2,3)] show ?thesis
    using assms(4) by auto
qed

lemma link_step_poll:
  assumes "link_ok a b s"
  shows "link_ok a b (link_step s (now, LPoll))"
proof -
  have p: "paired (lk_room s) a b" and "a \<noteq> b" using assms by (auto simp: link_ok_def paired_def)
  obtain r x where r: "room_poll_write (lk_room s) = (r, x)"
    by (cases "room_poll_write (lk_room s)")
  then have "paired r a b" using room_poll_write_kept [OF p] by simp
  with room_poll_write_paired [OF p r] assms \<open>a \<noteq> b\<close> show ?thesis
    by (cases x) (auto simp: r link_ok_def)
qed

lemma link_step_ok: "link_ok a b s \<Longrightarrow> link_ok a b (link_step s (now, op))"
proof (cases op)
  case LPoll
  then show "link_ok a b s \<Longrightarrow> ?thesis" by (simp only: link_step_poll)
next
  fix c msg
  assume ok: "link_ok a b s" and "op = LSend c msg"
  then show ?thesis
    using link_step_own [of a b s op msg now] link_step_own [of b a s op msg now]
      link_step_foreign [OF ok, of c op msg now]
    by (metis link_ok_sym)
next
  fix c
  assume ok: "link_ok a b s" and "op = LRegister c"
  then show ?thesis
    using link_step_own [of a b s op "[]" now] link_step_own [of b a s op "[]" now]
      link_step_foreign [OF ok, of c op "[]" now]
    by (metis link_ok_sym)
next
  fix c
  assume ok: "link_ok a b s" and "op = LDeregister c"
  then show ?thesis
    using link_step_own [of a b s op "[]" now] link_step_own [of b a s op "[]" now]
      link_step_foreign [OF ok, of c op "[]" now]
    by (metis link_ok_sym)
qed

lemma link_run_ok: "link_ok a b s \<Longrightarrow> link_ok a b (fold (\<lambda>op s. link_step s op) ops s)"
  by (induction ops arbitrary: s) (auto simp: link_step_ok)

section \<open>End-to-end relay\<close>

definition link_start :: "room \<Rightarrow> link" where
  "link_start r = \<lparr>lk_room = r, lk_accepted = [], lk_delivered = []\<rparr>"

definition link_run :: "(instant \<times> link_op) list \<Rightarrow> link \<Rightarrow> link" where
  "link_run ops s = fold (\<lambda>op s. link_step s op) ops s"

text \<open>
  C21. Lossless ordered relay: two clients share a V1 room and nothing is pending between
  them. Whatever sequence of sends, registrations, dropped connections and polls follows
  (from either client, or from strangers), the messages accepted from one client are
  exactly those delivered to the other followed by those still held for it, in the order
  they were sent.
\<close>

theorem relay_lossless_in_order:
  assumes "paired r a b" "inbox r a = []" "inbox r b = []"
    and "s = link_run ops (link_start r)"
  shows "sent_by a (lk_accepted s) = received_by b (lk_delivered s) @ inbox (lk_room s) b \<and>
    sent_by b (lk_accepted s) = received_by a (lk_delivered s) @ inbox (lk_room s) a"
proof -
  have "link_ok a b (link_start r)"
    using assms(1-3) by (simp add: link_ok_def link_start_def)
  then have "link_ok a b s"
    unfolding assms(4) link_run_def by (rule link_run_ok)
  then show ?thesis by (simp add: link_ok_def)
qed

text \<open>A room of two joined clients, both offline, and a run on it.\<close>

definition sample_room :: room where
  "sample_room = fst (room_add_client 0 ''b'' False (fst (room_add_client 0 ''a'' False (room_new ''r'' 10))))"

definition sample_ops :: "(instant \<times> link_op) list" where
  "sample_ops = [(1, LSend ''a'' ''offer''), (2, LRegister ''b''), (3, LSend ''a'' ''ice''),
     (4, LSend ''b'' ''answer''), (5, LPoll)]"

theorem relay_lossless_in_order_witness:
  "sent_by ''a'' (lk_accepted (link_run sample_ops (link_start sample_room))) = [''offer'', ''ice''] \<and>
   sent_by ''a'' (lk_accepted (link_run sample_ops (link_start sample_room))) =
     received_by ''b'' (lk_delivered (link_run sample_ops (link_start sample_room))) @
     inbox (lk_room (link_run sample_ops (link_start sample_room))) ''b''"
proof -
  have "paired sample_room ''a'' ''b''"
    by code_simp
  moreover have "inbox sample_room ''a'' = []" "inbox sample_room ''b'' = []"
    by code_simp+
  ultimately have "sent_by ''a'' (lk_accepted (link_run sample_ops (link_start sample_room))) =
     received_by ''b'' (lk_delivered (link_run sample_ops (link_start sample_room))) @
     inbox (lk_room (link_run sample_ops (link_start sample_room))) ''b''"
    using relay_lossless_in_order by blast
  moreover have "sent_by ''a'' (lk_accepted (link_run sample_ops (link_start sample_room))) = [''offer'', ''ice'']"
    by code_simp
  ultimately show ?thesis by simp
qed

end
