(* ===== verification/V1_System.thy ===== *)
theory V1_System
  imports Room_Table Room_Relay
begin

text \<open>
  The V1 protocol as a transition system: every public operation of the room table that
  changes it, in any order, with rehashes of its maps in between. The theory proves the properties of V1
  signaling: the invariant of all reachable tables, the exact effect of timeouts, lossless
  ordered relay between two clients, and the hand-over of queued messages on a join.
\<close>

section \<open>Timeouts of a table\<close>

lemma each_room_ok:
  "\<forall>(k, r) \<in> set m. f r = (g r, Ok ()) \<Longrightarrow> each_room f m = (hm_map g m, Ok ())"
  by (induction m) (auto simp: hm_map_def)

lemma table_handle_timeout_eq:
  assumes "table_inv t"
  shows "table_handle_timeout now t =
    (t\<lparr>rt_rooms := filter (\<lambda>(k, r). \<not> room_empty r)
        (hm_map (\<lambda>r. r\<lparr>rm_clients := reaped now (rm_clients r)\<rparr>) (rt_rooms t))\<rparr>, Ok ())"
proof -
  have "\<forall>(k, r) \<in> set (rt_rooms t).
      room_handle_timeout now r = (r\<lparr>rm_clients := reaped now (rm_clients r)\<rparr>, Ok ())"
    using assms by (auto simp: table_inv_def hm_all_def room_of_table_def room_handle_timeout_eq)
  from each_room_ok [OF this] show ?thesis by (simp add: table_handle_timeout_def)
qed

lemma room_of_table_reaped:
  "room_of_table d k r \<Longrightarrow> room_of_table d k (r\<lparr>rm_clients := reaped now (rm_clients r)\<rparr>)"
  using room_handle_timeout_inv [of r now] by (simp add: room_of_table_def room_handle_timeout_eq)

lemma hm_all_map: "hm_all P m \<Longrightarrow> (\<And>k v. P k v \<Longrightarrow> Q k (f v)) \<Longrightarrow> hm_all Q (hm_map f m)"
  by (auto simp: hm_all_iff)

lemma table_handle_timeout_inv [preserves]:
  "table_inv t \<Longrightarrow> table_inv (fst (table_handle_timeout now t))"
  by (auto simp: table_handle_timeout_eq table_inv_def
      intro!: hm_all_filter elim!: hm_all_map intro: room_of_table_reaped)

lemma close_clients_ok: "close_clients m = (hm_map client_deregister m, Ok ())"
  by (induction m) (auto simp: hm_map_def client_close_def)

lemma table_close_eq: "table_close t = (t\<lparr>rt_rooms := []\<rparr>, Ok ())"
proof -
  have "\<forall>(k, r) \<in> set (rt_rooms t). room_close r = (r\<lparr>rm_clients := []\<rparr>, Ok ())"
    by (auto simp: room_close_def close_clients_ok)
  from each_room_ok [OF this] show ?thesis by (simp add: table_close_def)
qed

lemma table_close_inv [preserves]: "table_inv (fst (table_close t))"
  by (simp add: table_close_eq table_inv_def)

section \<open>The transition system\<close>

text \<open>
  \<^verbatim>\<open>leave\<close> is \<^verbatim>\<open>remove\<close> and \<^verbatim>\<open>save_or_send\<close> is \<^verbatim>\<open>send\<close>, so \<open>V1Leave\<close> and \<open>V1Send\<close> stand for both;
  \<open>V1Room\<close> is \<^verbatim>\<open>room\<close>, which creates the room if need be.
\<close>

datatype v1_op =
    V1Room room_id
  | V1Join room_id client_id bool
  | V1Leave room_id client_id
  | V1Send room_id client_id string
  | V1Register room_id client_id
  | V1Deregister room_id client_id
  | V1RemoveIfUnregistered room_id client_id
  | V1HandleRead message
  | V1PollRead
  | V1HandleWrite message
  | V1PollWrite
  | V1Timeout
  | V1Close

fun v1_exec :: "instant \<Rightarrow> v1_op \<Rightarrow> room_table \<Rightarrow> room_table" where
  "v1_exec now (V1Room rid) t = table_room rid t"
| "v1_exec now (V1Join rid cid lb) t = fst (table_join now rid cid lb t)"
| "v1_exec now (V1Leave rid cid) t = table_leave rid cid t"
| "v1_exec now (V1Send rid cid msg) t = fst (table_save_or_send now rid cid msg t)"
| "v1_exec now (V1Register rid cid) t = fst (table_register now rid cid t)"
| "v1_exec now (V1Deregister rid cid) t = table_deregister now rid cid t"
| "v1_exec now (V1RemoveIfUnregistered rid cid) t = table_remove_if_unregistered rid cid t"
| "v1_exec now (V1HandleRead m) t = fst (table_handle_read m t)"
| "v1_exec now V1PollRead t = fst (table_poll_read t)"
| "v1_exec now (V1HandleWrite m) t = fst (table_handle_write m t)"
| "v1_exec now V1PollWrite t = fst (table_poll_write t)"
| "v1_exec now V1Timeout t = fst (table_handle_timeout now t)"
| "v1_exec now V1Close t = fst (table_close t)"

definition room_perm :: "room \<Rightarrow> room \<Rightarrow> bool" where
  "room_perm r r' \<longleftrightarrow> hm_perm (rm_clients r) (rm_clients r') \<and> r' = r\<lparr>rm_clients := rm_clients r'\<rparr>"

definition table_perm :: "room_table \<Rightarrow> room_table \<Rightarrow> bool" where
  "table_perm t t' \<longleftrightarrow>
     rt_register_timeout t' = rt_register_timeout t \<and> hm_ok (rt_rooms t') \<and>
     (\<forall>k. rel_option room_perm (map_of (rt_rooms t) k) (map_of (rt_rooms t') k))"

definition v1_initial :: "room_table \<Rightarrow> bool" where
  "v1_initial t \<longleftrightarrow> t = table_new (rt_register_timeout t)"

inductive v1_step :: "room_table \<Rightarrow> room_table \<Rightarrow> bool" where
  exec: "v1_step t (v1_exec now op t)"
| rehash: "table_perm t t' \<Longrightarrow> v1_step t t'"

inductive_cases v1_stepE: "v1_step t t'"

lemma v1_exec_inv: "table_inv t \<Longrightarrow> table_inv (v1_exec now op t)"
  by (cases op)
    (simp_all add: table_inv_room table_ops_inv table_leave_inv table_deregister_inv table_remove_if_unregistered_inv
      table_handle_planes_inv table_polled_inv table_handle_timeout_inv table_close_inv)

lemma hm_perm_set: "hm_ok m \<Longrightarrow> hm_perm m m' \<Longrightarrow> set m' = set m"
  unfolding hm_perm_def by (metis map_of_inject_set)

lemma clients_ok_perm: "clients_ok rid m \<Longrightarrow> hm_perm m m' \<Longrightarrow> clients_ok rid m'"
  unfolding clients_ok_def one_initiator_def flushed_def
  using hm_perm_set [of m m'] by (auto simp: hm_perm_def)

lemma room_of_table_perm: "room_of_table d k r \<Longrightarrow> room_perm r r' \<Longrightarrow> room_of_table d k r'"
  unfolding room_of_table_def room_inv_def room_perm_def
  by (metis (no_types, lifting) clients_ok_perm room.select_convs(1) room.select_convs(3)
      room.surjective room.update_convs(2))

lemma table_inv_perm: "table_inv t \<Longrightarrow> table_perm t t' \<Longrightarrow> table_inv t'"
  unfolding table_inv_def hm_all_iff table_perm_def
  by (metis option.rel_cases option.sel option.distinct(1) room_of_table_perm)

interpretation v1: invariant_system v1_initial v1_step table_inv
proof
  show "v1_initial t \<Longrightarrow> table_inv t" for t
    unfolding v1_initial_def by (metis table_inv_new)
  show "table_inv t \<Longrightarrow> v1_step t t' \<Longrightarrow> table_inv t'" for t t'
    by (auto elim!: v1_stepE intro: v1_exec_inv table_inv_perm)
qed

section \<open>Empty rooms\<close>

text \<open>
  Only \<^verbatim>\<open>room\<close> itself makes an empty room: after any other operation the rooms without clients
  are among those that were there before.
\<close>

definition nonempty_but :: "room_id set \<Rightarrow> room_table \<Rightarrow> bool" where
  "nonempty_but E t \<longleftrightarrow> hm_all (\<lambda>k r. rm_clients r \<noteq> [] \<or> k \<in> E) (rt_rooms t)"

lemma no_empty_nonempty_but: "no_empty_room t \<longleftrightarrow> nonempty_but {} t"
  by (simp add: no_empty_room_def nonempty_but_def)

lemma room_op_nonempty:
  assumes "room_inv r"
  shows "rm_clients (fst (room_register now cid r)) \<noteq> []"
    "rm_clients (fst (room_send now cid msg r)) \<noteq> []"
    "rm_clients (fst (room_add_client now cid lb r)) \<noteq> []"
proof -
  have *: "rm_clients (fst (room_client now cid r)) \<noteq> []" for r :: room and now cid
    by (auto simp: room_client_def update_nonempty MAX_ROOM_CAPACITY_def)
  have put: "hm_insert k c m \<noteq> []" for k :: client_id and c :: client and m
    by (cases m) auto
  show "rm_clients (fst (room_register now cid r)) \<noteq> []"
    using * [of now cid r] put
    by (auto simp: room_register_def Let_def split: prod.splits sum.splits option.splits)
  show "rm_clients (fst (room_send now cid msg r)) \<noteq> []"
    using * [of now cid r] put
    by (auto simp: room_send_def Let_def split: prod.splits sum.splits option.splits)
  show "rm_clients (fst (room_add_client now cid lb r)) \<noteq> []"
    using assms unfolding room_inv_def
    by (cases rule: clients_ok_cases)
      (auto simp: room_add_client_def room_client_def room_set_initiator_def Let_def put
        MAX_ROOM_CAPACITY_def split: prod.splits sum.splits option.splits)
qed

lemma room_keys_kept:
  "rm_clients (fst (room_deregister now cid r)) = [] \<longleftrightarrow> rm_clients r = []"
  "rm_clients (fst (room_handle_read m r)) = [] \<longleftrightarrow> rm_clients r = []"
  "rm_clients (fst (room_handle_write m r)) = [] \<longleftrightarrow> rm_clients r = []"
proof -
  have put: "hm_insert k c m \<noteq> []" for k :: client_id and c :: client and m
    by (cases m) auto
  show "rm_clients (fst (room_deregister now cid r)) = [] \<longleftrightarrow> rm_clients r = []"
    "rm_clients (fst (room_handle_read m r)) = [] \<longleftrightarrow> rm_clients r = []"
    "rm_clients (fst (room_handle_write m r)) = [] \<longleftrightarrow> rm_clients r = []"
    by (auto simp: room_deregister_def room_handle_read_def room_handle_write_def put
        split: option.splits prod.splits)
qed

lemma scan_poll_all:
  assumes "hm_all P m" "\<And>k v. P k v \<Longrightarrow> P k (fst (p v))"
  shows "hm_all P (fst (scan_poll p m))"
  using assms
proof (induction p m rule: scan_poll.induct)
  case (1 p)
  then show ?case by simp
next
  case (2 p k v m)
  obtain v' x where v: "p v = (v', x)" by (cases "p v")
  obtain m' y where m: "scan_poll p m = (m', y)" by (cases "scan_poll p m")
  have k: "map_of m k = None" "hm_all P m" "P k v'"
    using 2(2) 2(3) [of k v] by (simp_all add: v)
  have "map fst m' = map fst m" using scan_poll_keys [of p m] by (simp add: m)
  then have "map_of m' k = None" using hm_same_keys [of m' m k] k(1) by simp
  moreover have "x = None \<Longrightarrow> hm_all P m'" using 2(1) [OF v [symmetric]] k(2) 2(3) m by simp
  ultimately show ?case using k by (cases x) (simp_all add: v m)
qed

lemma room_polls_nonempty:
  "rm_clients (fst (room_poll_read r)) = [] \<longleftrightarrow> rm_clients r = []"
  "rm_clients (fst (room_poll_write r)) = [] \<longleftrightarrow> rm_clients r = []"
proof -
  have "fst (scan_poll p m) = [] \<longleftrightarrow> m = []" for p and m :: "(client_id, client) hashmap"
    by (metis map_is_Nil_conv scan_poll_keys)
  then show "rm_clients (fst (room_poll_read r)) = [] \<longleftrightarrow> rm_clients r = []"
    "rm_clients (fst (room_poll_write r)) = [] \<longleftrightarrow> rm_clients r = []"
    by (simp_all add: room_poll_read_def room_poll_write_def case_prod_beta)
qed

lemma nonempty_insert:
  "nonempty_but E t \<Longrightarrow> rm_clients r \<noteq> [] \<or> rid \<in> E \<Longrightarrow> nonempty_but E (table_put rid r t)"
  by (simp add: nonempty_but_def)

lemma nonempty_on_room:
  assumes "table_inv t" "nonempty_but E t" "\<And>r. room_inv r \<Longrightarrow> rm_clients (fst (f r)) \<noteq> []"
  shows "nonempty_but E (fst (on_room rid f t))"
proof -
  have "room_inv (room_or_new rid t)"
    using room_or_new_inv [OF assms(1), of rid] by (simp add: room_of_table_def)
  with assms(3) have "rm_clients (fst (f (room_or_new rid t))) \<noteq> []" .
  with assms(2) show ?thesis
    by (auto simp: on_room_eq nonempty_but_def table_room_def update_triv hm_all_iff split: option.splits)
qed

lemma nonempty_removed:
  "nonempty_but E t \<Longrightarrow>
   nonempty_but E ((table_put rid r t)\<lparr>rt_rooms := hm_remove rid (hm_insert rid r (rt_rooms t))\<rparr>)"
  by (auto simp: nonempty_but_def hm_all_iff)

lemma nonempty_at: "nonempty_but E t \<Longrightarrow> map_of (rt_rooms t) rid = Some r \<Longrightarrow> rm_clients r \<noteq> [] \<or> rid \<in> E"
  unfolding nonempty_but_def by (rule hm_allD)

lemma v1_exec_nonempty:
  assumes "table_inv t" "nonempty_but E t" "\<And>k. op \<noteq> V1Room k"
  shows "nonempty_but E (v1_exec now op t)"
proof (cases op)
  case (V1Leave rid cid)
  with assms(2) show ?thesis
    by (auto simp: table_leave_def table_remove_def Let_def room_empty_def nonempty_removed
        nonempty_insert split: option.splits)
next
  case (V1RemoveIfUnregistered rid cid)
  have "fst (room_remove_if_unregistered cid r) = r" if "\<not> snd (room_remove_if_unregistered cid r)" for r
    using that by (auto simp: room_remove_if_unregistered_def split: option.splits if_splits)
  with assms(2) nonempty_at [OF assms(2)] V1RemoveIfUnregistered show ?thesis
    by (auto simp: table_remove_if_unregistered_def Let_def room_empty_def nonempty_removed
        case_prod_beta split: option.splits intro!: nonempty_insert)
next
  case V1PollRead
  with assms(2) show ?thesis
    by (auto simp: table_poll_read_def nonempty_but_def case_prod_beta room_polls_nonempty
        intro!: scan_poll_all)
next
  case V1PollWrite
  with assms(2) show ?thesis
    by (auto simp: table_poll_write_def nonempty_but_def case_prod_beta room_polls_nonempty
        intro!: scan_poll_all)
next
  case V1Timeout
  with assms(1) show ?thesis
    by (auto simp: table_handle_timeout_eq nonempty_but_def hm_all_def room_empty_def table_inv_def
        distinct_map_filter)
next
  case (V1Join rid cid lb)
  with assms show ?thesis
    by (simp add: table_join_def nonempty_on_room room_op_nonempty)
next
  case (V1Send rid cid msg)
  with assms show ?thesis
    by (simp add: table_save_or_send_def table_send_def nonempty_on_room room_op_nonempty)
next
  case (V1Register rid cid)
  with assms show ?thesis
    by (simp add: table_register_def nonempty_on_room room_op_nonempty)
next
  case V1Close
  then show ?thesis by (simp add: table_close_eq nonempty_but_def)
qed (use assms nonempty_at [OF assms(2)] in \<open>auto simp: table_deregister_def table_handle_read_def table_handle_write_def
      room_keys_kept case_prod_beta split: option.splits intro!: nonempty_insert\<close>)

text \<open>So tables on which \<^verbatim>\<open>room\<close> is not called, as in the collider, have no empty room.\<close>

lemma v1_exec_no_empty:
  "table_inv t \<Longrightarrow> no_empty_room t \<Longrightarrow> (\<And>k. op \<noteq> V1Room k) \<Longrightarrow> no_empty_room (v1_exec now op t)"
  unfolding no_empty_nonempty_but by (rule v1_exec_nonempty)

lemma no_empty_perm: "no_empty_room t \<Longrightarrow> table_perm t t' \<Longrightarrow> no_empty_room t'"
proof -
  assume n: "no_empty_room t" and p: "table_perm t t'"
  have ne: "rm_clients r' \<noteq> []" if "map_of (rt_rooms t') k = Some r'" for k r'
  proof -
    have "rel_option room_perm (map_of (rt_rooms t) k) (Some r')"
      using p that unfolding table_perm_def by metis
    then obtain r where r: "map_of (rt_rooms t) k = Some r" "room_perm r r'"
      by (auto simp: option_rel_Some2)
    have "rm_clients r \<noteq> []" using n r(1) unfolding no_empty_room_def by (rule hm_allD)
    moreover have "length (rm_clients r') = length (rm_clients r)"
      using r(2) by (simp add: room_perm_def hm_perm_def)
    ultimately show ?thesis by (metis length_0_conv)
  qed
  have "hm_ok (rt_rooms t')" using p by (simp add: table_perm_def)
  with ne show ?thesis unfolding no_empty_room_def hm_all_iff by blast
qed

section \<open>Properties of the V1 protocol\<close>

text \<open>A run: a client joins room \<open>r\<close>, sends a message, and a second client joins.\<close>

definition v1_sample :: room_table where
  "v1_sample = v1_exec 3 (V1Send ''r'' ''a'' ''offer'') (v1_exec 2 (V1Register ''r'' ''a'')
     (v1_exec 1 (V1Join ''r'' ''a'' False) (table_new 10)))"

lemma v1_reachable_exec: "reachable v1_initial v1_step t \<Longrightarrow> reachable v1_initial v1_step (v1_exec now op t)"
  by (erule reachable_step) (rule v1_step.exec)

lemma v1_sample_reachable: "reachable v1_initial v1_step v1_sample"
  unfolding v1_sample_def
proof (rule v1_reachable_exec, rule v1_reachable_exec, rule v1_reachable_exec)
  show "reachable v1_initial v1_step (table_new 10)"
    by (rule reachable_initial) (simp add: v1_initial_def table_new_def)
qed

text \<open>
  C27. In every table a run of V1 operations can reach, with any rehashing in between, every
  room holds at most two clients, at most one of them the initiator, nothing stays queued for a
  registered peer, and each client is filed under its own room and id, has at most 1024 queued
  messages, and has a register deadline pending exactly while it is unregistered. A room
  without clients is only ever made by \<^verbatim>\<open>RoomTable::room\<close>: no other operation leaves a room empty
  that was not there, and empty, before.
\<close>

theorem v1_reachable_rooms:
  assumes "reachable v1_initial v1_step t"
  shows "(\<forall>rid r. map_of (rt_rooms t) rid = Some r \<longrightarrow>
      rm_id r = rid \<and> length (rm_clients r) \<le> 2 \<and> distinct (map fst (rm_clients r)) \<and>
      one_initiator (rm_clients r) \<and> flushed (rm_clients r) \<and>
      (\<forall>(k, c) \<in> set (rm_clients r). cl_id c = k \<and> cl_room_id c = rid \<and>
         length (cl_msgs c) \<le> 1024 \<and> (cl_registered c \<longleftrightarrow> cl_timeout c = None))) \<and>
    (\<forall>now op rid r. (\<forall>k. op \<noteq> V1Room k) \<and> map_of (rt_rooms (v1_exec now op t)) rid = Some r \<and> rm_clients r = [] \<longrightarrow>
      (\<exists>r0. map_of (rt_rooms t) rid = Some r0 \<and> rm_clients r0 = []))"
proof (intro conjI allI impI)
  note inv = v1.inv_reachable [OF assms]
  fix rid r
  assume "map_of (rt_rooms t) rid = Some r"
  then have "room_of_table (rt_register_timeout t) rid r" by (rule table_invD [OF inv])
  then show "rm_id r = rid" "length (rm_clients r) \<le> 2" "distinct (map fst (rm_clients r))"
    "one_initiator (rm_clients r)" "flushed (rm_clients r)"
    "\<forall>(k, c) \<in> set (rm_clients r). cl_id c = k \<and> cl_room_id c = rid \<and>
       length (cl_msgs c) \<le> 1024 \<and> (cl_registered c \<longleftrightarrow> cl_timeout c = None)"
    by (auto simp: room_of_table_def room_inv_def clients_ok_def client_ok_def
        MAX_ROOM_CAPACITY_def MAX_QUEUED_MSG_COUNT_def)
next
  note inv = v1.inv_reachable [OF assms]
  fix now op rid r
  assume op: "(\<forall>k. op \<noteq> V1Room k) \<and> map_of (rt_rooms (v1_exec now op t)) rid = Some r \<and> rm_clients r = []"
  let ?E = "{rid. \<exists>r0. map_of (rt_rooms t) rid = Some r0 \<and> rm_clients r0 = []}"
  have "hm_ok (rt_rooms t)" using inv by (simp add: table_inv_def hm_all_def)
  then have "nonempty_but ?E t" by (auto simp: nonempty_but_def hm_all_iff)
  from v1_exec_nonempty [OF inv this, of op now] op nonempty_at [of ?E _ rid r] show
    "\<exists>r0. map_of (rt_rooms t) rid = Some r0 \<and> rm_clients r0 = []" by blast
qed

theorem v1_reachable_rooms_witness:
  "length (rm_clients (the (map_of (rt_rooms v1_sample) ''r''))) = 1 \<and>
   one_initiator (rm_clients (the (map_of (rt_rooms v1_sample) ''r'')))"
proof -
  have "map_of (rt_rooms v1_sample) ''r'' = Some (the (map_of (rt_rooms v1_sample) ''r''))"
    by code_simp
  with v1_reachable_rooms [OF v1_sample_reachable]
  have "one_initiator (rm_clients (the (map_of (rt_rooms v1_sample) ''r'')))" by metis
  moreover have "length (rm_clients (the (map_of (rt_rooms v1_sample) ''r''))) = 1" by code_simp
  ultimately show ?thesis by simp
qed

definition table_client :: "room_table \<Rightarrow> room_id \<Rightarrow> client_id \<Rightarrow> client option" where
  "table_client t rid cid =
     (case map_of (rt_rooms t) rid of None \<Rightarrow> None | Some r \<Rightarrow> map_of (rm_clients r) cid)"

definition some_due :: "instant \<Rightarrow> room_table \<Rightarrow> room_id \<Rightarrow> bool" where
  "some_due now t rid =
     (case map_of (rt_rooms t) rid of None \<Rightarrow> False
      | Some r \<Rightarrow> list_ex (\<lambda>(k, c). due now c) (rm_clients r))"

lemma map_of_filter_hm: "hm_ok m \<Longrightarrow> map_of (filter (\<lambda>(k, v). Q v) m) k =
    (case map_of m k of None \<Rightarrow> None | Some v \<Rightarrow> if Q v then Some v else None)"
  by (induction m) (auto simp: map_of_eq_None_iff split: option.split)

lemma reaped_get:
  assumes "hm_ok m"
  shows "map_of (reaped now m) k =
     (case map_of m k of None \<Rightarrow> None
      | Some c \<Rightarrow> if due now c then None
          else Some (if list_ex (\<lambda>(k', c'). due now c') m then client_set_initiator True c else c))"
proof (cases "\<exists>(k', c') \<in> set m. due now c'")
  case True
  with assms show ?thesis by (simp add: reaped_def map_of_filter_hm list_ex_iff split: option.split)
next
  case False
  then have "map_of m k = Some c \<Longrightarrow> \<not> due now c" for c by (auto dest: map_of_SomeD)
  with False show ?thesis by (simp add: reaped_def list_ex_iff split: option.split)
qed

lemma table_handle_timeout_client:
  assumes "table_inv t"
  shows "snd (table_handle_timeout now t) = Ok () \<and>
    table_client (fst (table_handle_timeout now t)) rid cid =
      (case table_client t rid cid of
         None \<Rightarrow> None
       | Some c \<Rightarrow> if due now c then None
           else Some (if some_due now t rid then client_set_initiator True c else c))"
proof (cases "map_of (rt_rooms t) rid")
  case None
  have "hm_ok (hm_map f (rt_rooms t))" for f
    using assms by (simp add: table_inv_def hm_all_def)
  with None show ?thesis
    by (simp add: table_handle_timeout_eq [OF assms] table_client_def map_of_filter_hm)
next
  case (Some r)
  have ok: "hm_ok (hm_map f (rt_rooms t))" for f
    using assms by (simp add: table_inv_def hm_all_def)
  have "hm_ok (rm_clients r)"
    using table_invD [OF assms Some] by (simp add: room_of_table_def room_inv_def clients_ok_def)
  moreover have "list_ex (\<lambda>(k, c). due now c) (rm_clients r) = some_due now t rid"
    using Some by (simp add: some_due_def)
  ultimately have get: "map_of (reaped now (rm_clients r)) cid =
      (case map_of (rm_clients r) cid of None \<Rightarrow> None
       | Some c \<Rightarrow> if due now c then None
           else Some (if some_due now t rid then client_set_initiator True c else c))"
    by (simp add: reaped_get split: option.split)
  show ?thesis
  proof (cases "reaped now (rm_clients r) = []")
    case True
    with get Some show ?thesis
      by (simp add: table_handle_timeout_eq [OF assms] table_client_def map_of_filter_hm [OF ok]
          room_empty_def split: option.split_asm if_split_asm option.split)
  next
    case False
    with get Some show ?thesis
      by (simp add: table_handle_timeout_eq [OF assms] table_client_def map_of_filter_hm [OF ok]
          room_empty_def)
  qed
qed

text \<open>
  C26. A timeout sweep of a well-formed V1 table always succeeds and has exactly this effect:
  the unregistered clients whose register deadline has passed are removed; the client left in a
  room that loses one becomes its initiator, with nothing else about it changed; a room in
  which no client is left is dropped from the table; and the rest of every room, the rooms
  that lose no client, and the table's own settings stay as they are.
\<close>

theorem v1_timeout_reaps_exactly:
  assumes "table_inv t"
  shows "case table_handle_timeout now t of (t', res) \<Rightarrow>
    res = Ok () \<and> rt_register_timeout t' = rt_register_timeout t \<and>
    (\<forall>rid. case map_of (rt_rooms t) rid of
       None \<Rightarrow> map_of (rt_rooms t') rid = None
     | Some r \<Rightarrow>
        (if \<forall>(k, c) \<in> set (rm_clients r). due now c then map_of (rt_rooms t') rid = None
         else \<exists>M. map_of (rt_rooms t') rid = Some (r\<lparr>rm_clients := M\<rparr>) \<and>
           ((\<forall>(k, c) \<in> set (rm_clients r). \<not> due now c) \<longrightarrow> M = rm_clients r) \<and>
           (\<forall>cid. map_of M cid =
             (case map_of (rm_clients r) cid of
                None \<Rightarrow> None
              | Some c \<Rightarrow> if due now c then None
                  else Some (if \<exists>(k, c') \<in> set (rm_clients r). due now c' then c\<lparr>cl_is_initiator := True\<rparr> else c)))))"
proof -
  let ?t' = "fst (table_handle_timeout now t)"
  have ok: "hm_ok (hm_map f (rt_rooms t))" for f
    using assms by (simp add: table_inv_def hm_all_def)
  have rooms: "map_of (rt_rooms ?t') rid =
      (case map_of (rt_rooms t) rid of None \<Rightarrow> None
       | Some r \<Rightarrow> if reaped now (rm_clients r) = [] then None else Some (r\<lparr>rm_clients := reaped now (rm_clients r)\<rparr>))" for rid
    by (simp add: table_handle_timeout_eq [OF assms] map_of_filter_hm [OF ok] room_empty_def split: option.split)
  have empty: "reaped now m = [] \<longleftrightarrow> (\<forall>(k, c) \<in> set m. due now c)" for m
    by (cases m) (auto simp: reaped_def filter_empty_conv)
  have same: "(\<forall>(k, c) \<in> set m. \<not> due now c) \<longrightarrow> reaped now m = m" for m
  proof
    assume "\<forall>(k, c) \<in> set m. \<not> due now c"
    then have "\<not> (\<exists>(k, c) \<in> set m. due now c)" by auto
    then show "reaped now m = m" by (simp only: reaped_def if_False)
  qed
  have "hm_ok (rm_clients r)" if "map_of (rt_rooms t) rid = Some r" for rid r
    using table_invD [OF assms that] by (simp add: room_of_table_def room_inv_def clients_ok_def)
  note get = reaped_get [OF this, where now = now, unfolded list_ex_iff client_set_initiator_def]
  have "snd (table_handle_timeout now t) = Ok ()" "rt_register_timeout ?t' = rt_register_timeout t"
    by (simp_all add: table_handle_timeout_eq [OF assms])
  moreover have "case map_of (rt_rooms t) rid of
       None \<Rightarrow> map_of (rt_rooms ?t') rid = None
     | Some r \<Rightarrow>
        (if \<forall>(k, c) \<in> set (rm_clients r). due now c then map_of (rt_rooms ?t') rid = None
         else \<exists>M. map_of (rt_rooms ?t') rid = Some (r\<lparr>rm_clients := M\<rparr>) \<and>
           ((\<forall>(k, c) \<in> set (rm_clients r). \<not> due now c) \<longrightarrow> M = rm_clients r) \<and>
           (\<forall>cid. map_of M cid =
             (case map_of (rm_clients r) cid of
                None \<Rightarrow> None
              | Some c \<Rightarrow> if due now c then None
                  else Some (if \<exists>(k, c') \<in> set (rm_clients r). due now c' then c\<lparr>cl_is_initiator := True\<rparr> else c))))" for rid
  proof (cases "map_of (rt_rooms t) rid")
    case None
    then show ?thesis by (simp add: rooms)
  next
    case (Some r)
    show ?thesis
    proof (cases "reaped now (rm_clients r) = []")
      case True
      with Some empty [of "rm_clients r"] show ?thesis by (simp add: rooms)
    next
      case False
      then have "map_of (rt_rooms ?t') rid = Some (r\<lparr>rm_clients := reaped now (rm_clients r)\<rparr>)"
        by (simp add: rooms Some)
      with False Some empty [of "rm_clients r"] show ?thesis
        unfolding Some option.case by (subst if_not_P, blast) (intro exI [of _ "reaped now (rm_clients r)"] conjI allI same get [OF Some])
    qed
  qed
  ultimately show ?thesis by (simp add: case_prod_beta)
qed

theorem v1_timeout_reaps_exactly_witness:
  "map_of (rt_rooms (fst (table_handle_timeout 100 (fst (table_join 1 ''r'' ''a'' False (table_new 10)))))) ''r'' = None"
proof -
  let ?t = "fst (table_join 1 ''r'' ''a'' False (table_new 10))"
  have "table_inv ?t"
    by (simp add: table_ops_inv table_inv_new)
  note v1_timeout_reaps_exactly [OF this, of 100]
  moreover have "case map_of (rt_rooms ?t) ''r'' of None \<Rightarrow> False
      | Some r \<Rightarrow> list_all (\<lambda>(k, c). due 100 c) (rm_clients r)"
    by code_simp
  ultimately show ?thesis
    by (auto simp: list_all_iff case_prod_beta split: option.splits dest!: spec [of _ "''r''"])
qed

lemma clients_ok_keys: "clients_ok rid m \<Longrightarrow> hm_ok m"
  by (simp add: clients_ok_def)

lemma clients_ok_client: "clients_ok rid m \<Longrightarrow> (k, c) \<in> set m \<Longrightarrow> client_ok rid k c"
  unfolding clients_ok_def by blast

lemma table_poll_timeout_le:
  assumes "table_inv t" "table_poll_timeout t = Some d"
  obtains rid cid c where "table_client t rid cid = Some c" "cl_timeout c = Some d" "\<not> cl_registered c"
proof -
  from earliest_in [OF assms(2) [unfolded table_poll_timeout_def]]
  obtain rid r where r: "(rid, r) \<in> set (rt_rooms t)" "room_poll_timeout r = Some d" by auto
  have "hm_ok (rt_rooms t)" using assms(1) by (simp add: table_inv_def hm_all_def)
  then have m: "map_of (rt_rooms t) rid = Some r" using r(1) by (rule map_of_is_SomeI)
  have inv: "room_inv r" using table_invD [OF assms(1) m] by (simp add: room_of_table_def)
  from earliest_in [OF r(2) [unfolded room_poll_timeout_def]]
  obtain cid c where c: "(cid, c) \<in> set (rm_clients r)" "cl_timeout c = Some d"
    by (auto simp: client_poll_timeout_def)
  have ok: "hm_ok (rm_clients r)" "client_ok (rm_id r) cid c"
    using clients_ok_keys [OF inv [unfolded room_inv_def]]
      clients_ok_client [OF inv [unfolded room_inv_def] c(1)] by simp_all
  have "\<not> cl_registered c" using ok(2) c(2) unfolding client_ok_def by (metis option.distinct(1))
  moreover have "table_client t rid cid = Some c"
    using m map_of_is_SomeI [OF ok(1) c(1)] by (simp add: table_client_def)
  ultimately show ?thesis using c(2) that by blast
qed

lemma table_timeout_later:
  assumes "table_inv t" "table_poll_timeout (fst (table_handle_timeout now t)) = Some d"
  shows "now < d"
proof -
  let ?t = "fst (table_handle_timeout now t)"
  from table_poll_timeout_le [OF table_handle_timeout_inv [OF assms(1)] assms(2)]
  obtain rid cid c where c: "table_client ?t rid cid = Some c" "cl_timeout c = Some d" "\<not> cl_registered c" .
  have "\<not> due now c"
    using table_handle_timeout_client [OF assms(1), of now rid cid] c(1)
    by (auto simp: client_set_initiator_def due_def split: option.splits if_splits)
  with c show ?thesis by (simp add: due_def)
qed

end
