(* ===== verification/V1_Rooms.thy ===== *)
theory V1_Rooms
  imports V1_System
begin

text \<open>
  Joining and leaving V1 rooms: the complete outcome of \<^verbatim>\<open>join\<close> and \<^verbatim>\<open>leave\<close> on a well-formed
  table, and the draining of its write plane in order.
\<close>

section \<open>Joining\<close>

text \<open>Everything the clients of a room have queued, in the iteration order of the map.\<close>

definition room_queued :: "room \<Rightarrow> string list" where
  "room_queued r = concat (map (\<lambda>(k, c). cl_msgs c) (rm_clients r))"

text \<open>A client as a join makes it: unregistered, its register deadline running.\<close>

definition joined_client :: "instant \<Rightarrow> client_id \<Rightarrow> bool \<Rightarrow> room \<Rightarrow> client" where
  "joined_client now cid initiator r =
     \<lparr>cl_id = cid, cl_room_id = rm_id r, cl_registered = False, cl_msgs = [], cl_reads = [], cl_writes = [],
      cl_events = [], cl_timeout = Some (now + rm_register_timeout r), cl_is_initiator = initiator\<rparr>"

text \<open>
  The clients of a room after an admission. A loopback join also makes the loopback client, if
  there is room for it, and takes the initiator role from it.
\<close>

definition after_join :: "instant \<Rightarrow> client_id \<Rightarrow> bool \<Rightarrow> room \<Rightarrow> client_id \<Rightarrow> client option" where
  "after_join now cid lb r k =
     (if k = cid then
        Some (joined_client now cid (rm_clients r = [] \<and> \<not> (lb \<and> cid = LOOPBACK_CLIENT_ID)) r)
      else if lb \<and> k = LOOPBACK_CLIENT_ID then
        (case map_of (rm_clients r) k of
           Some c \<Rightarrow> Some (c\<lparr>cl_msgs := [], cl_is_initiator := False\<rparr>)
         | None \<Rightarrow> if rm_clients r = [] then Some (joined_client now k False r) else None)
      else map_option (cl_msgs_update (\<lambda>_. [])) (map_of (rm_clients r) k))"

lemma room_add_client_empty:
  assumes "rm_clients r = []"
  shows "snd (room_add_client now cid lb r) = Ok (True, [])"
    "map_of (rm_clients (fst (room_add_client now cid lb r))) k = after_join now cid lb r k"
  using assms
  by (auto simp: room_add_client_def room_client_def room_set_initiator_def MAX_ROOM_CAPACITY_def
      client_set_initiator_def Let_def joined_client_def client_new_def after_join_def)

lemma room_add_client_second:
  assumes "rm_clients r = [(k0, c0)]" "k0 \<noteq> cid"
  shows "snd (room_add_client now cid lb r) = Ok (False, cl_msgs c0)"
    "map_of (rm_clients (fst (room_add_client now cid lb r))) k = after_join now cid lb r k"
  using assms
  by (auto simp: room_add_client_def room_client_def room_set_initiator_def MAX_ROOM_CAPACITY_def
      client_drain_msgs_def client_set_initiator_def hm_map_def Let_def joined_client_def client_new_def
      after_join_def)

lemma room_add_client_ok:
  assumes "\<not> hm_contains (rm_clients r) cid" "length (rm_clients r) < 2"
  shows "snd (room_add_client now cid lb r) = Ok (rm_clients r = [], room_queued r) \<and>
    map_of (rm_clients (fst (room_add_client now cid lb r))) k = after_join now cid lb r k"
proof (cases "rm_clients r")
  case Nil
  then show ?thesis by (simp add: room_add_client_empty room_queued_def)
next
  case (Cons p ps)
  with assms obtain k0 c0 where "rm_clients r = [(k0, c0)]" "k0 \<noteq> cid" by (cases p) (auto split: if_splits)
  from room_add_client_second [OF this] show ?thesis by (simp add: room_queued_def \<open>rm_clients r = [(k0, c0)]\<close>)
qed

lemma room_add_client_refused:
  "hm_contains (rm_clients r) cid \<Longrightarrow> room_add_client now cid lb r = (r, Err ''DUPLICATE_CLIENT'')"
  "\<not> hm_contains (rm_clients r) cid \<Longrightarrow> 2 \<le> length (rm_clients r) \<Longrightarrow>
     room_add_client now cid lb r = (r, Err ''FULL'')"
  by (simp_all add: room_add_client_def MAX_ROOM_CAPACITY_def)


lemma on_room_get:
  "map_of (rt_rooms (fst (on_room rid f t))) rid' =
     (if rid' = rid then Some (fst (f (room_or_new rid t))) else map_of (rt_rooms t) rid')"
  by (auto simp: on_room_eq table_room_def split: option.split)

lemma on_room_same:
  "map_of (rt_rooms t) rid = Some r \<Longrightarrow> fst (f r) = r \<Longrightarrow> fst (on_room rid f t) = t"
  by (simp add: on_room_eq room_or_new_def table_room_def table_put_def update_triv)

lemma table_client_room:
  "table_client t rid cid = map_of (rm_clients (room_or_new rid t)) cid"
  "table_occupancy rid t = length (rm_clients (room_or_new rid t))"
  by (auto simp: table_client_def table_occupancy_def room_occupancy_def room_or_new_def room_new_def
      split: option.split)

text \<open>
  C36. The answer of a join depends on nothing but the clients of the room: a client that is
  already there is refused as DUPLICATE_CLIENT and a third one as FULL, both without any
  change to the table; otherwise the client is admitted, told that it is the initiator exactly
  when the room was empty, and handed every message the client already there had queued. After
  it the room holds the new client, unregistered with its register deadline running and
  initiator as it was told, the earlier client with an empty queue and nothing else changed, and
  no other; only a loopback join differs in the client LOOPBACK_CLIENT_ID, which it makes if
  there is room and which is never left the initiator, even where that is the joining client
  itself. No other room changes.
\<close>

theorem table_join_outcome:
  assumes "table_inv t"
  shows "case table_join now rid cid lb t of (t', res) \<Rightarrow>
    if table_client t rid cid \<noteq> None then res = Err ''DUPLICATE_CLIENT'' \<and> t' = t
    else if 2 \<le> table_occupancy rid t then res = Err ''FULL'' \<and> t' = t
    else res = Ok (table_occupancy rid t = 0, room_queued (room_or_new rid t)) \<and>
      (\<forall>k. table_client t' rid k = after_join now cid lb (room_or_new rid t) k) \<and>
      (\<forall>rid'. rid' = rid \<or> map_of (rt_rooms t') rid' = map_of (rt_rooms t) rid')"
proof -
  let ?r = "room_or_new rid t"
  obtain t' res where j: "table_join now rid cid lb t = (t', res)" by force
  have inv: "room_inv ?r" using room_or_new_inv [OF assms(1)] by (simp add: room_of_table_def)
  have t': "t' = fst (on_room rid (room_add_client now cid lb) t)"
    and res: "res = snd (room_add_client now cid lb ?r)"
    using j by (auto simp: table_join_def on_room_eq)
  have get: "table_client t' rid k = map_of (rm_clients (fst (room_add_client now cid lb ?r))) k" for k
    by (simp add: table_client_def t' on_room_get)
  have at: "table_client t rid k = map_of (rm_clients ?r) k" for k
    by (rule table_client_room)
  have frame: "map_of (rt_rooms t') rid' = map_of (rt_rooms t) rid'" if "rid' \<noteq> rid" for rid'
    using that by (simp add: t' on_room_get)
  have unchanged: "t' = t" if "fst (room_add_client now cid lb ?r) = ?r" "rm_clients ?r \<noteq> []"
    using that by (auto simp: t' room_or_new_def room_new_def intro: on_room_same split: option.splits)
  consider (dup) "hm_contains (rm_clients ?r) cid"
    | (full) "\<not> hm_contains (rm_clients ?r) cid" "2 \<le> length (rm_clients ?r)"
    | (ok) "\<not> hm_contains (rm_clients ?r) cid" "length (rm_clients ?r) < 2"
    by linarith
  then show ?thesis
  proof cases
    case dup
    then have "rm_clients ?r \<noteq> []" by auto
    with dup show ?thesis
      using unchanged res by (auto simp: j table_client_room room_add_client_refused(1))
  next
    case full
    then have "rm_clients ?r \<noteq> []" by auto
    with full show ?thesis
      using unchanged res by (auto simp: j table_client_room room_add_client_refused(2))
  next
    case ok
    have frame': "rid' = rid \<or> map_of (rt_rooms t') rid' = map_of (rt_rooms t) rid'" for rid'
      using frame by blast
    have "table_client t rid cid = None" "\<not> 2 \<le> table_occupancy rid t"
      "table_occupancy rid t = 0 \<longleftrightarrow> rm_clients ?r = []"
      using ok by (simp_all add: at table_client_room(2))
    with room_add_client_ok [OF ok, of now lb] frame' show ?thesis
      using res get by (simp add: j)
  qed
qed

text \<open>Two joins fill a room and a third is refused; the messages queued in between are handed over.\<close>

theorem table_join_outcome_witness:
  "snd (table_join 5 ''r'' ''b'' False v1_sample) = Ok (False, [''offer''])"
proof -
  have inv: "table_inv v1_sample" by (rule v1.inv_reachable [OF v1_sample_reachable])
  have "table_client v1_sample ''r'' ''b'' = None" "table_occupancy ''r'' v1_sample = 1"
    "room_queued (room_or_new ''r'' v1_sample) = [''offer'']"
    by code_simp+
  with table_join_outcome [OF inv, where cid = "''b''" and now = 5 and rid = "''r''" and lb = False] show ?thesis
    by (auto split: prod.splits)
qed

section \<open>Leaving\<close>

lemma table_leave_rooms:
  assumes "map_of (rt_rooms t) rid = Some r"
  shows "map_of (rt_rooms (table_leave rid cid t)) rid' =
    (if rid' = rid then (if room_empty (room_remove cid r) then None else Some (room_remove cid r))
     else map_of (rt_rooms t) rid')"
  using assms by (auto simp: table_leave_def table_remove_def Let_def)

lemma room_remove_get:
  "map_of (rm_clients (room_remove cid r)) k =
     (if map_of (rm_clients r) cid = None then map_of (rm_clients r) k
      else if k = cid then None else map_option (client_set_initiator True) (map_of (rm_clients r) k))"
  by (simp add: room_remove_def split: option.split)

text \<open>
  C37. On a well-formed table in which every room has a member (only \<open>room\<close> adds one without),
  after a leave the client is gone, the client it shared the room with, if any, has
  become the initiator, a room that lost its last client is gone from the table, and all
  other rooms are as they were; leaving a room one is not in changes nothing.
\<close>

theorem table_leave_outcome:
  assumes "table_inv t" "no_empty_room t"
  shows "if table_client t rid cid = None then table_leave rid cid t = t
    else table_client (table_leave rid cid t) rid cid = None \<and>
      (\<forall>k. k = cid \<or> table_client (table_leave rid cid t) rid k =
         map_option (client_set_initiator True) (table_client t rid k)) \<and>
      (hm_contains (rt_rooms (table_leave rid cid t)) rid \<longleftrightarrow> table_occupancy rid t = 2) \<and>
      (\<forall>rid'. rid' = rid \<or> map_of (rt_rooms (table_leave rid cid t)) rid' = map_of (rt_rooms t) rid')"
proof (cases "map_of (rt_rooms t) rid")
  case None
  then show ?thesis by (simp add: table_client_def table_leave_def table_remove_def)
next
  case (Some r)
  then have r: "room_inv r" "rm_clients r \<noteq> []"
    using assms table_invD [OF assms(1) Some]
    by (auto simp: room_of_table_def no_empty_room_def dest: hm_allD)
  show ?thesis
  proof (cases "map_of (rm_clients r) cid")
    case None
    with Some r show ?thesis
      by (simp add: table_client_def table_leave_def table_remove_def room_remove_def room_empty_def
          Let_def table_put_def update_triv)
  next
    case in_room: (Some c)
    have occ: "room_empty (room_remove cid r) \<longleftrightarrow> length (rm_clients r) \<noteq> 2"
      using r(1) in_room unfolding room_inv_def
      by (cases rule: clients_ok_cases)
        (auto simp: room_remove_def room_empty_def hm_map_def split: if_splits)
    have gone: "map_of (rm_clients (room_remove cid r)) k = None" if "room_empty (room_remove cid r)" for k
      using that by (simp add: room_empty_def)
    have "table_client (table_leave rid cid t) rid k = map_of (rm_clients (room_remove cid r)) k" for k
      using gone by (simp add: table_client_def table_leave_rooms [OF Some])
    with in_room Some occ show ?thesis
      by (simp add: room_remove_get table_leave_rooms [OF Some] table_client_def table_occupancy_def
          room_occupancy_def)
  qed
qed

theorem table_leave_outcome_witness:
  "table_client (table_leave ''r'' ''a'' v1_sample) ''r'' ''a'' = None"
proof -
  have "table_inv v1_sample" by (rule v1.inv_reachable [OF v1_sample_reachable])
  moreover have "no_empty_room v1_sample" by (simp only: no_empty_room_def hm_all_def) code_simp
  ultimately have "table_inv v1_sample \<and> no_empty_room v1_sample" by simp
  with table_leave_outcome [of v1_sample "''r''" "''a''"]
  have "table_client v1_sample ''r'' ''a'' \<noteq> None \<Longrightarrow> ?thesis" by auto
  moreover have "table_client v1_sample ''r'' ''a'' \<noteq> None" by code_simp
  ultimately show ?thesis by blast
qed

section \<open>Draining the write plane\<close>

text \<open>
  C38. Polling the V1 table for writes as often as it has frames waiting yields every frame
  exactly once: the frames for one client come out in the order they were queued, and
  afterwards the table has nothing left to write.
\<close>

theorem table_drain_complete:
  assumes "table_inv t"
  shows "filter (\<lambda>m. msg_addr m = a) (snd (drain table_poll_write (table_writes_size t) t)) = table_writes_at t a \<and>
    snd (table_poll_write (fst (drain table_poll_write (table_writes_size t) t))) = None"
  by (simp add: table_writes.drain_in_order table_writes.drain_stops assms)

theorem table_drain_complete_witness:
  "let t = v1_exec 6 (V1Register ''r'' ''b'') v1_sample
   in filter (\<lambda>m. msg_addr m = (''r'', ''b'')) (snd (drain table_poll_write 1 t)) =
        [\<lparr>msg_roomid = ''r'', msg_clientid = ''b'', msg_msg = ''offer''\<rparr>] \<and>
      snd (table_poll_write (fst (drain table_poll_write 1 t))) = None"
proof -
  let ?t = "v1_exec 6 (V1Register ''r'' ''b'') v1_sample"
  have "table_inv ?t" by (rule v1_exec_inv [OF v1.inv_reachable [OF v1_sample_reachable]])
  note this [THEN table_drain_complete, of "(''r'', ''b'')"]
  moreover have "table_writes_size ?t = 1" by code_simp
  moreover have "table_writes_at ?t (''r'', ''b'') =
      [\<lparr>msg_roomid = ''r'', msg_clientid = ''b'', msg_msg = ''offer''\<rparr>]" by code_simp
  ultimately show ?thesis by simp
qed

end
