(* ===== verification/Sfu.thy ===== *)
theory Sfu
  imports Prelude
begin

text \<open>
  The messages of the SFU control plane (\<^verbatim>\<open>src/sfu.rs\<close>). A room is identified by the
  sixteen bytes of its UUID (\<^verbatim>\<open>Uuid\<close> is a transparent wrapper of \<^verbatim>\<open>[u8; 16]\<close>, ordered
  byte by byte), a client by a \<^verbatim>\<open>u64\<close>.
\<close>

type_synonym uuid = "u8 list"
type_synonym member_id = u64
type_synonym connection_id = u64
type_synonym request_id = u64
type_synonym instance_id = string

record capacity =
  max_rooms :: u64
  max_clients :: u64

datatype sfu_state = Ready | Draining

record health =
  he_state :: sfu_state
  he_capacity :: capacity
  he_current_rooms :: u64
  he_current_clients :: u64

record join_member =
  jm_room_id :: uuid
  jm_client_id :: member_id
  jm_lifecycle_id :: u64
  jm_assignment_epoch :: u64

record member_projection =
  mp_client_id :: member_id
  mp_lifecycle_id :: u64

record sync_room =
  sy_room_id :: uuid
  sy_assignment_epoch :: u64
  sy_members :: "member_projection list"

record room_synced =
  rs_room_id :: uuid
  rs_assignment_epoch :: u64

datatype leave_reason = User | Disconnected | RoomClosed | WorkerFailure

record leave_member =
  lm_room_id :: uuid
  lm_client_id :: member_id
  lm_lifecycle_id :: u64
  lm_assignment_epoch :: u64
  lm_reason :: leave_reason

record sfu_signal =
  sg_room_id :: uuid
  sg_client_id :: member_id
  sg_lifecycle_id :: u64
  sg_assignment_epoch :: u64
  sg_message_json :: string
  sg_sdp_request_id :: "u64 option"

datatype command_kind =
    SyncRoom sync_room
  | Join join_member
  | Leave leave_member
  | Signal sfu_signal

record sfu_command =
  cm_request_id :: request_id
  cm_command :: command_kind

datatype command_ok =
    Acknowledged
  | RoomSynced room_synced
  | MemberJoined join_member
  | MemberLeft leave_member

record sfu_error =
  er_reason :: string
  er_retryable :: bool

record command_result =
  cr_request_id :: request_id
  cr_result :: "sfu_error + command_ok"

datatype event_kind =
    EventSignal sfu_signal
  | EventHealth health
  | EventFailure (ev_error: sfu_error) (ev_room_id: "uuid option") (ev_client_id: "u64 option")
      (ev_lifecycle_id: "u64 option") (ev_sdp_request_id: "u64 option")

record sfu_event =
  ev_request_id :: request_id
  ev_event :: event_kind

datatype sfu_input =
    InputRegister connection_id instance_id request_id capacity
  | InputCommandResult connection_id instance_id command_result instant
  | InputEvent connection_id instance_id sfu_event
  | InputDisconnected connection_id instance_id instant

datatype sfu_output =
    OutputRegistered connection_id request_id u64 bool
  | OutputRegistrationError connection_id request_id sfu_error
  | OutputCommand connection_id sfu_command
  | OutputEventAck connection_id request_id
  | OutputClose connection_id

end
