(* ===== verification/V2_State.thy ===== *)
theory V2_State
  imports Sfu
begin

text \<open>
  The state of the V2 authority (\<^verbatim>\<open>src/v2.rs\<close>): members, rooms, workers, the three maps of
  outstanding worker commands and the action queue, with the small operations every handler
  uses. A member's messages, a room's fields and the table's fields are named as in the
  source, with a prefix per record. \<^verbatim>\<open>usize\<close> is 64 bits wide.
\<close>

section \<open>Constants\<close>

definition MAX_P2P_MEMBERS :: nat where "MAX_P2P_MEMBERS = 2"
definition MAX_QUEUED_MESSAGES :: nat where "MAX_QUEUED_MESSAGES = 1024"
definition HEALTH_INTERVAL_MS :: u64 where "HEALTH_INTERVAL_MS = 30000"
definition EVENT_DEDUP_CAPACITY :: nat where "EVENT_DEDUP_CAPACITY = 4096"
definition DOWNGRADE_DWELL :: duration where "DOWNGRADE_DWELL = 2 * 1000"

section \<open>Results and actions\<close>

datatype room_mode = P2p | Upgrading | Sfu | Failed

record admission =
  ad_mode :: room_mode
  ad_signal_epoch :: u64
  ad_admission_token :: string
  ad_is_initiator :: "bool option"

record promotion =
  pr_room_id :: uuid
  pr_client_id :: member_id
  pr_signal_epoch :: u64

datatype admission_result = AdmissionComplete admission | AdmissionPending

datatype removal_result = RemovalComplete "promotion option" | RemovalPending

record registration =
  rg_mode :: room_mode
  rg_signal_epoch :: u64
  rg_is_initiator :: "bool option"
  rg_queued_messages :: "string list"

record delivery =
  de_room_id :: uuid
  de_client_id :: member_id
  de_message :: string

datatype send_result = SendP2p "delivery option" | SendSfu | SendDropped

datatype action =
    ActionSfu sfu_output
  | AdmissionCompleted u64 "string + admission"
  | RemovalCompleted u64 uuid member_id "string + unit"
  | Upgraded uuid u64 "member_id list"
  | Downgraded uuid u64 member_id "member_id list"
  | Deliver delivery
  | RoomFailed uuid "member_id list" string

section \<open>Rooms, workers and the table\<close>

record member =
  mb_token :: string
  mb_is_initiator :: bool
  mb_lifecycle_id :: u64
  mb_registered :: bool
  mb_reconnect_deadline :: "instant option"
  mb_queued_messages :: "string list"

record upgrade =
  up_authority_request_id :: u64
  up_joining_client_id :: member_id
  up_ordered_clients :: "member_id list"
  up_joined_clients :: "member_id list"
  up_next_client :: nat

record pending_join =
  pj_authority_request_id :: u64
  pj_client_id :: member_id

record pending_leave =
  pl_authority_request_id :: "u64 option"
  pl_client_id :: member_id

record v2_room =
  vr_members :: "(member_id, member) hashmap"
  vr_mode :: room_mode
  vr_signal_epoch :: u64
  vr_assignment_epoch :: u64
  vr_assigned_instance :: "instance_id option"
  vr_upgrade :: "upgrade option"
  vr_pending_join :: "pending_join option"
  vr_pending_leave :: "pending_leave option"
  vr_downgrade_deadline :: "instant option"

text \<open>The hash sets of a worker are lists without duplicates, in any order.\<close>

record worker =
  wk_connection_id :: "connection_id option"
  wk_capacity :: capacity
  wk_health :: "health option"
  wk_assigned_rooms :: "uuid list"
  wk_assigned_clients :: "64 word"
  wk_seen_events :: "u64 list"
  wk_seen_event_order :: "u64 list"
  wk_disconnect_deadline :: "instant option"

datatype pending_command =
    PendingSyncRoom instance_id uuid u64 "sfu_command list"
  | PendingUpgradeJoin instance_id uuid member_id u64 u64
  | PendingSfuJoin instance_id uuid member_id u64 u64
  | PendingSfuLeave instance_id uuid member_id u64 u64
  | PendingSignal
  | PendingCleanup

record v2_table =
  vt_rooms :: "(uuid, v2_room) hashmap"
  vt_workers :: "(instance_id, worker) hashmap"
  vt_lifecycle_ids :: "(uuid \<times> member_id, u64) hashmap"
  vt_pending_commands :: "(request_id, pending_command) hashmap"
  vt_unacknowledged_commands :: "(request_id, sfu_command) hashmap"
  vt_command_workers :: "(request_id, instance_id) hashmap"
  vt_next_sfu_request_id :: request_id
  vt_reconnect_grace :: duration
  vt_downgrade_dwell :: duration
  vt_actions :: "action list"

definition v2_new :: "duration \<Rightarrow> v2_table" where
  "v2_new reconnect_grace =
     \<lparr>vt_rooms = [], vt_workers = [], vt_lifecycle_ids = [], vt_pending_commands = [],
      vt_unacknowledged_commands = [], vt_command_workers = [], vt_next_sfu_request_id = 1,
      vt_reconnect_grace = reconnect_grace, vt_downgrade_dwell = DOWNGRADE_DWELL, vt_actions = []\<rparr>"

definition set_downgrade_dwell :: "duration \<Rightarrow> v2_table \<Rightarrow> v2_table" where
  "set_downgrade_dwell dwell t = t\<lparr>vt_downgrade_dwell := dwell\<rparr>"

section \<open>Small operations\<close>

definition new_member :: "instant \<Rightarrow> duration \<Rightarrow> string \<Rightarrow> bool \<Rightarrow> u64 \<Rightarrow> member" where
  "new_member now reconnect_grace token is_initiator lifecycle_id =
     \<lparr>mb_token = token, mb_is_initiator = is_initiator, mb_lifecycle_id = lifecycle_id,
      mb_registered = False, mb_reconnect_deadline = Some (now + reconnect_grace),
      mb_queued_messages = []\<rparr>"

definition push_queued :: "string \<Rightarrow> member \<Rightarrow> member \<times> unit result" where
  "push_queued message m =
     (if length (mb_queued_messages m) \<ge> MAX_QUEUED_MESSAGES then (m, Err ''RESOURCE_EXHAUSTED'')
      else (m\<lparr>mb_queued_messages := mb_queued_messages m @ [message]\<rparr>, Ok ()))"

definition command_room_id :: "sfu_command \<Rightarrow> uuid option" where
  "command_room_id c =
     (case cm_command c of
        SyncRoom s \<Rightarrow> Some (sy_room_id s)
      | Join j \<Rightarrow> Some (jm_room_id j)
      | Leave l \<Rightarrow> Some (lm_room_id l)
      | Signal s \<Rightarrow> Some (sg_room_id s))"

text \<open>The survivor is the only entry of the map; the deadline of its queue is not touched.\<close>

definition promote_survivor :: "uuid \<Rightarrow> v2_room \<Rightarrow> v2_room \<times> promotion option" where
  "promote_survivor rid r =
     (if length (vr_members r) \<noteq> 1 \<or> vr_mode r \<noteq> P2p then (r, None)
      else (case vr_members r of
              [] \<Rightarrow> (r, None)
            | (cid, m) # _ \<Rightarrow>
               (let m' = m\<lparr>mb_is_initiator := True, mb_queued_messages := []\<rparr> in
                (r\<lparr>vr_members := hm_insert cid m' (vr_members r)\<rparr>,
                 if mb_registered m'
                 then Some \<lparr>pr_room_id = rid, pr_client_id = cid, pr_signal_epoch = vr_signal_epoch r\<rparr>
                 else None))))"

text \<open>\<^verbatim>\<open>left.iter().zip(right).fold(0u8, |d, (l, r)| d | (l ^ r)) == 0\<close>\<close>

definition constant_time_eq :: "u8 list \<Rightarrow> u8 list \<Rightarrow> bool" where
  "constant_time_eq left right =
     (if length left \<noteq> length right then False
      else foldl (\<lambda>difference (l, r). or difference (xor l r)) 0 (zip left right) = 0)"

text \<open>\<^verbatim>\<open>str::as_bytes\<close>: a string is its UTF-8 bytes.\<close>

definition as_bytes :: "string \<Rightarrow> u8 list" where
  "as_bytes s = map (\<lambda>c. word_of_nat (of_char c)) s"

definition next_lifecycle :: "uuid \<Rightarrow> member_id \<Rightarrow> v2_table \<Rightarrow> v2_table \<times> u64" where
  "next_lifecycle rid cid t =
     (let value = (case map_of (vt_lifecycle_ids t) (rid, cid) of None \<Rightarrow> 0 | Some v \<Rightarrow> v);
          value' = max (sat_add value 1) 1
      in (t\<lparr>vt_lifecycle_ids := hm_insert (rid, cid) value' (vt_lifecycle_ids t)\<rparr>, value'))"

definition next_command_id :: "v2_table \<Rightarrow> v2_table \<times> request_id" where
  "next_command_id t =
     (t\<lparr>vt_next_sfu_request_id := max (sat_add (vt_next_sfu_request_id t) 1) 1\<rparr>,
      vt_next_sfu_request_id t)"

definition push_action :: "action \<Rightarrow> v2_table \<Rightarrow> v2_table" where
  "push_action a t = t\<lparr>vt_actions := vt_actions t @ [a]\<rparr>"

definition queue_command ::
    "instance_id \<Rightarrow> connection_id \<Rightarrow> sfu_command \<Rightarrow> pending_command \<Rightarrow> v2_table \<Rightarrow> v2_table" where
  "queue_command inst conn command pending t =
     push_action (ActionSfu (OutputCommand conn command))
       (t\<lparr>vt_pending_commands := hm_insert (cm_request_id command) pending (vt_pending_commands t),
          vt_command_workers := hm_insert (cm_request_id command) inst (vt_command_workers t),
          vt_unacknowledged_commands :=
            hm_insert (cm_request_id command) command (vt_unacknowledged_commands t)\<rparr>)"

text \<open>A fresh request id and the command queued under it, as every caller does.\<close>

definition issue_command ::
    "instance_id \<Rightarrow> connection_id \<Rightarrow> command_kind \<Rightarrow> pending_command \<Rightarrow> v2_table \<Rightarrow> v2_table" where
  "issue_command inst conn kind pending t =
     (case next_command_id t of (t', request_id) \<Rightarrow>
        queue_command inst conn \<lparr>cm_request_id = request_id, cm_command = kind\<rparr> pending t')"

definition put_room :: "uuid \<Rightarrow> v2_room \<Rightarrow> v2_table \<Rightarrow> v2_table" where
  "put_room rid r t = t\<lparr>vt_rooms := hm_insert rid r (vt_rooms t)\<rparr>"

definition drop_room :: "uuid \<Rightarrow> v2_table \<Rightarrow> v2_table" where
  "drop_room rid t = t\<lparr>vt_rooms := hm_remove rid (vt_rooms t)\<rparr>"

definition put_worker :: "instance_id \<Rightarrow> worker \<Rightarrow> v2_table \<Rightarrow> v2_table" where
  "put_worker inst w t = t\<lparr>vt_workers := hm_insert inst w (vt_workers t)\<rparr>"

definition put_member :: "member_id \<Rightarrow> member \<Rightarrow> v2_room \<Rightarrow> v2_room" where
  "put_member cid m r = r\<lparr>vr_members := hm_insert cid m (vr_members r)\<rparr>"

definition remove_member :: "member_id \<Rightarrow> v2_room \<Rightarrow> v2_room" where
  "remove_member cid r = r\<lparr>vr_members := hm_remove cid (vr_members r)\<rparr>"

text \<open>\<^verbatim>\<open>self.workers.get(&id).and_then(|worker| worker.connection_id)\<close>\<close>

definition worker_connection :: "instance_id \<Rightarrow> v2_table \<Rightarrow> connection_id option" where
  "worker_connection inst t =
     (case map_of (vt_workers t) inst of None \<Rightarrow> None | Some w \<Rightarrow> wk_connection_id w)"

text \<open>\<^verbatim>\<open>if let Some(worker) = self.workers.get_mut(id) { f(worker) }\<close>\<close>

definition on_worker :: "instance_id \<Rightarrow> (worker \<Rightarrow> worker) \<Rightarrow> v2_table \<Rightarrow> v2_table" where
  "on_worker inst f t =
     (case map_of (vt_workers t) inst of None \<Rightarrow> t | Some w \<Rightarrow> put_worker inst (f w) t)"

section \<open>Observations\<close>

definition v2_occupancy :: "uuid \<Rightarrow> v2_table \<Rightarrow> nat \<times> room_mode" where
  "v2_occupancy rid t =
     (case map_of (vt_rooms t) rid of None \<Rightarrow> (0, P2p) | Some r \<Rightarrow> (length (vr_members r), vr_mode r))"

definition v2_room_count :: "v2_table \<Rightarrow> nat" where
  "v2_room_count t = length (vt_rooms t)"

definition v2_member_count :: "v2_table \<Rightarrow> nat" where
  "v2_member_count t = sum_list (map (\<lambda>(k, r). length (vr_members r)) (vt_rooms t))"

definition v2_registered_count :: "v2_table \<Rightarrow> nat" where
  "v2_registered_count t =
     length (filter mb_registered (concat (map (\<lambda>(k, r). map snd (vr_members r)) (vt_rooms t))))"

definition connected_sfu_count :: "v2_table \<Rightarrow> nat" where
  "connected_sfu_count t = length (filter (\<lambda>(k, w). wk_connection_id w \<noteq> None) (vt_workers t))"

definition ready_sfu_count :: "v2_table \<Rightarrow> nat" where
  "ready_sfu_count t =
     length (filter (\<lambda>(k, w). wk_connection_id w \<noteq> None \<and>
       (case wk_health w of None \<Rightarrow> False | Some h \<Rightarrow> he_state h = Ready)) (vt_workers t))"

definition v2_poll_action :: "v2_table \<Rightarrow> v2_table \<times> action option" where
  "v2_poll_action t =
     (case vt_actions t of [] \<Rightarrow> (t, None) | a # as \<Rightarrow> (t\<lparr>vt_actions := as\<rparr>, Some a))"

definition v2_clear :: "v2_table \<Rightarrow> v2_table" where
  "v2_clear t = t\<lparr>vt_rooms := [], vt_workers := [], vt_pending_commands := [],
     vt_unacknowledged_commands := [], vt_command_workers := [], vt_actions := []\<rparr>"

section \<open>Comparing admission tokens\<close>

lemma foldl_or_zero:
  "foldl (\<lambda>d (l, r). or d (xor l r)) acc ps = 0 \<longleftrightarrow> acc = 0 \<and> (\<forall>(l, r) \<in> set ps. l = r)"
  for acc :: "'a::len word"
proof (induction ps arbitrary: acc)
  case Nil
  then show ?case by simp
next
  case (Cons p ps)
  obtain l r where p: "p = (l, r)" by (cases p)
  have "or acc (xor l r) = 0 \<longleftrightarrow> acc = 0 \<and> l = r"
    by (auto simp: or_eq_0_iff) (metis xor.left_commute xor_self_eq xor.right_neutral)
  with Cons show ?case by (auto simp: p)
qed

lemma constant_time_eq_iff: "constant_time_eq left right \<longleftrightarrow> left = right"
proof (cases "length left = length right")
  case True
  then have "(\<forall>(l, r) \<in> set (zip left right). l = r) \<longleftrightarrow> left = right"
    by (induction left right rule: list_induct2) auto
  with True show ?thesis by (simp add: constant_time_eq_def foldl_or_zero)
next
  case False
  then show ?thesis by (auto simp: constant_time_eq_def)
qed

lemma as_bytes_inj: "as_bytes a = as_bytes b \<longleftrightarrow> a = b"
proof -
  have "unat (word_of_nat (of_char c) :: u8) = of_char c" for c
    using nat_of_char_less_256 [of c] by (simp add: unsigned_of_nat take_bit_nat_eq_self)
  then have "inj (\<lambda>c. word_of_nat (of_char c) :: u8)"
    by (metis injI of_char_eq_iff)
  then show ?thesis by (simp add: as_bytes_def inj_map_eq_map)
qed

text \<open>
  C39. An admission token is accepted exactly when it is the member's token: the constant-time
  comparison, which accumulates the differences of all byte pairs, neither rejects an equal
  token nor accepts a different one.
\<close>

theorem token_check_exact: "constant_time_eq (as_bytes a) (as_bytes b) \<longleftrightarrow> a = b"
  by (simp add: constant_time_eq_iff as_bytes_inj)

end
