(* ===== verification/V2_Admission.thy ===== *)
theory V2_Admission
  imports V2_State
begin

text \<open>
  The browser side of the V2 authority (\<^verbatim>\<open>src/v2.rs\<close>): admission, registration, sending,
  dropped connections and removal, with the start of a P2P-to-SFU upgrade. Every operation
  takes the table and returns the new one with its result; an early return with an error
  keeps the changes made before it, as in the source.
\<close>

section \<open>Choosing a worker\<close>

definition worker_available :: "nat \<Rightarrow> worker \<Rightarrow> bool" where
  "worker_available additional_clients w =
     (case wk_health w of
        None \<Rightarrow> False
      | Some health \<Rightarrow>
          wk_connection_id w \<noteq> None \<and> he_state health = Ready \<and>
          length (wk_assigned_rooms w) < unat (max_rooms (wk_capacity w)) \<and>
          sat_add (wk_assigned_clients w) (of_nat additional_clients) \<le> max_clients (wk_capacity w))"

definition worker_load :: "instance_id \<times> worker \<Rightarrow> 64 word \<times> nat \<times> instance_id" where
  "worker_load = (\<lambda>(inst, w). (wk_assigned_clients w, length (wk_assigned_rooms w), inst))"

definition select_worker :: "nat \<Rightarrow> v2_table \<Rightarrow> instance_id option" where
  "select_worker additional_clients t =
     (case map worker_load (filter (\<lambda>(k, w). worker_available additional_clients w) (vt_workers t)) of
        [] \<Rightarrow> None
      | load # loads \<Rightarrow> Some (snd (snd (fold min loads load))))"

section \<open>Upgrades\<close>

definition issue_next_upgrade_join :: "uuid \<Rightarrow> v2_table \<Rightarrow> v2_table \<times> unit result" where
  "issue_next_upgrade_join rid t =
     (case map_of (vt_rooms t) rid of
        None \<Rightarrow> (t, Err ''ROOM_NOT_FOUND'')
      | Some room \<Rightarrow>
         (case vr_upgrade room of
            None \<Rightarrow> (t, Err ''ROOM_TRANSITION'')
          | Some upgrade \<Rightarrow>
             (if \<not> up_next_client upgrade < length (up_ordered_clients upgrade) then (t, Panicked)
              else
                (let cid = up_ordered_clients upgrade ! up_next_client upgrade in
                 case map_of (vr_members room) cid of
                   None \<Rightarrow> (t, Err ''CLIENT_NOT_FOUND'')
                 | Some m \<Rightarrow>
                    (case vr_assigned_instance room of
                       None \<Rightarrow> (t, Err ''WORKER_UNAVAILABLE'')
                     | Some inst \<Rightarrow>
                        (case worker_connection inst t of
                           None \<Rightarrow> (t, Err ''WORKER_UNAVAILABLE'')
                         | Some conn \<Rightarrow>
                            (issue_command inst conn
                               (Join \<lparr>jm_room_id = rid, jm_client_id = cid,
                                  jm_lifecycle_id = mb_lifecycle_id m,
                                  jm_assignment_epoch = vr_assignment_epoch room\<rparr>)
                               (PendingUpgradeJoin inst rid cid (mb_lifecycle_id m)
                                  (vr_assignment_epoch room)) t, Ok ())))))))"

text \<open>The loop that gives every member already there a fresh lifecycle id.\<close>

fun refresh_lifecycles :: "uuid \<Rightarrow> member_id list \<Rightarrow> v2_table \<Rightarrow> v2_table \<times> unit result" where
  "refresh_lifecycles rid [] t = (t, Ok ())"
| "refresh_lifecycles rid (cid # cids) t =
     (case next_lifecycle rid cid t of (t1, lifecycle) \<Rightarrow>
       (case map_of (vt_rooms t1) rid of
          None \<Rightarrow> (t1, Panicked)
        | Some room \<Rightarrow>
           (case map_of (vr_members room) cid of
              None \<Rightarrow> (t1, Panicked)
            | Some m \<Rightarrow>
                refresh_lifecycles rid cids
                  (put_room rid (put_member cid (m\<lparr>mb_lifecycle_id := lifecycle\<rparr>) room) t1))))"

definition upgrade_order :: "member_id \<Rightarrow> v2_room \<Rightarrow> member_id list" where
  "upgrade_order joining room =
     filter (\<lambda>c. c \<noteq> joining) (sort (hm_keys (vr_members room))) @ [joining]"

definition begin_upgrade ::
    "u64 \<Rightarrow> instant \<Rightarrow> uuid \<Rightarrow> member_id \<Rightarrow> string \<Rightarrow> instance_id \<Rightarrow> v2_room \<Rightarrow> v2_table \<Rightarrow>
     v2_table \<times> admission_result result" where
  "begin_upgrade areq now rid cid token inst room t =
     (case next_lifecycle rid cid t of (t1, lifecycle) \<Rightarrow>
       (let room1 = (put_member cid (new_member now (vt_reconnect_grace t) token False lifecycle) room)
              \<lparr>vr_mode := Upgrading, vr_assignment_epoch := sat_add (vr_assignment_epoch room) 1,
               vr_assigned_instance := Some inst\<rparr>;
            ordered = upgrade_order cid room1
        in case refresh_lifecycles rid (filter (\<lambda>c. c \<noteq> cid) ordered) (put_room rid room1 t1) of
             (t2, Inl e) \<Rightarrow> (t2, Inl e)
           | (t2, Inr _) \<Rightarrow>
              (case (map_of (vt_rooms t2) rid, map_of (vt_workers t2) inst) of
                 (Some room2, Some w) \<Rightarrow>
                   (let t3 = put_worker inst
                               (w\<lparr>wk_assigned_rooms := List.insert rid (wk_assigned_rooms w),
                                  wk_assigned_clients := sat_add (wk_assigned_clients w) 3\<rparr>)
                              (put_room rid (room2\<lparr>vr_upgrade := Some
                                 \<lparr>up_authority_request_id = areq, up_joining_client_id = cid,
                                  up_ordered_clients = ordered, up_joined_clients = [],
                                  up_next_client = 0\<rparr>\<rparr>) t2)
                    in case issue_next_upgrade_join rid t3 of
                         (t4, Inl e) \<Rightarrow> (t4, Inl e)
                       | (t4, Inr _) \<Rightarrow> (t4, Ok AdmissionPending))
               | _ \<Rightarrow> (t2, Panicked))))"

section \<open>Admission\<close>

definition admit_to_sfu ::
    "u64 \<Rightarrow> instant \<Rightarrow> uuid \<Rightarrow> member_id \<Rightarrow> string \<Rightarrow> v2_room \<Rightarrow> v2_table \<Rightarrow>
     v2_table \<times> admission_result result" where
  "admit_to_sfu areq now rid cid token room t =
     (case vr_assigned_instance room of
        None \<Rightarrow> (t, Err ''WORKER_UNAVAILABLE'')
      | Some inst \<Rightarrow>
         (case worker_connection inst t of
            None \<Rightarrow> (t, Err ''WORKER_UNAVAILABLE'')
          | Some conn \<Rightarrow>
             (case next_lifecycle rid cid t of (t1, lifecycle) \<Rightarrow>
               (let room1 = (put_member cid (new_member now (vt_reconnect_grace t) token False lifecycle) room)
                      \<lparr>vr_pending_join := Some \<lparr>pj_authority_request_id = areq, pj_client_id = cid\<rparr>,
                       vr_downgrade_deadline := None\<rparr>
                in (issue_command inst conn
                      (Join \<lparr>jm_room_id = rid, jm_client_id = cid, jm_lifecycle_id = lifecycle,
                         jm_assignment_epoch = vr_assignment_epoch room\<rparr>)
                      (PendingSfuJoin inst rid cid lifecycle (vr_assignment_epoch room))
                      (put_room rid room1 t1),
                    Ok AdmissionPending)))))"

definition new_v2_room :: "(member_id, member) hashmap \<Rightarrow> v2_room" where
  "new_v2_room members =
     \<lparr>vr_members = members, vr_mode = P2p, vr_signal_epoch = 0, vr_assignment_epoch = 0,
      vr_assigned_instance = None, vr_upgrade = None, vr_pending_join = None,
      vr_pending_leave = None, vr_downgrade_deadline = None\<rparr>"

definition admit ::
    "u64 \<Rightarrow> instant \<Rightarrow> uuid \<Rightarrow> member_id \<Rightarrow> string \<Rightarrow> v2_table \<Rightarrow>
     v2_table \<times> admission_result result" where
  "admit areq now rid cid token t =
     (case map_of (vt_rooms t) rid of
        None \<Rightarrow>
          (case next_lifecycle rid cid t of (t1, lifecycle) \<Rightarrow>
             (put_room rid
                (new_v2_room [(cid, new_member now (vt_reconnect_grace t) token True lifecycle)]) t1,
              Ok (AdmissionComplete \<lparr>ad_mode = P2p, ad_signal_epoch = 0,
                    ad_admission_token = token, ad_is_initiator = Some True\<rparr>)))
      | Some room \<Rightarrow>
         (if hm_contains (vr_members room) cid then (t, Err ''DUPLICATE_CLIENT'')
          else
            (case vr_mode room of
               Upgrading \<Rightarrow> (t, Err ''ROOM_TRANSITION'')
             | Failed \<Rightarrow> (t, Err ''WORKER_UNAVAILABLE'')
             | Sfu \<Rightarrow>
                (if vr_pending_join room \<noteq> None \<or> vr_pending_leave room \<noteq> None
                 then (t, Err ''ROOM_TRANSITION'')
                 else admit_to_sfu areq now rid cid token room t)
             | P2p \<Rightarrow>
                (if length (vr_members room) < MAX_P2P_MEMBERS then
                   (case next_lifecycle rid cid t of (t1, lifecycle) \<Rightarrow>
                      (put_room rid
                         (put_member cid (new_member now (vt_reconnect_grace t) token False lifecycle) room) t1,
                       Ok (AdmissionComplete \<lparr>ad_mode = P2p, ad_signal_epoch = vr_signal_epoch room,
                             ad_admission_token = token, ad_is_initiator = Some False\<rparr>)))
                 else
                   (case select_worker 3 t of
                      None \<Rightarrow> (t, Err ''NO_SFU_AVAILABLE'')
                    | Some inst \<Rightarrow> begin_upgrade areq now rid cid token inst room t)))))"

section \<open>Registration\<close>

text \<open>The messages the other members queued, drained in the iteration order of the map.\<close>

definition others_queued :: "member_id \<Rightarrow> v2_room \<Rightarrow> string list" where
  "others_queued cid room =
     concat (map (\<lambda>(k, m). mb_queued_messages m) (filter (\<lambda>(k, m). k \<noteq> cid) (vr_members room)))"

definition drain_others :: "member_id \<Rightarrow> v2_room \<Rightarrow> v2_room" where
  "drain_others cid room =
     room\<lparr>vr_members := map (\<lambda>(k, m). (k, if k \<noteq> cid then m\<lparr>mb_queued_messages := []\<rparr> else m))
            (vr_members room)\<rparr>"

definition v2_register ::
    "uuid \<Rightarrow> member_id \<Rightarrow> string \<Rightarrow> v2_table \<Rightarrow> v2_table \<times> registration result" where
  "v2_register rid cid token t =
     (case map_of (vt_rooms t) rid of
        None \<Rightarrow> (t, Err ''UNAUTHORIZED'')
      | Some room \<Rightarrow>
         (if vr_mode room = Upgrading then (t, Err ''ROOM_TRANSITION'')
          else
            (case map_of (vr_members room) cid of
               None \<Rightarrow> (t, Err ''UNAUTHORIZED'')
             | Some m \<Rightarrow>
                (if \<not> constant_time_eq (as_bytes (mb_token m)) (as_bytes token)
                 then (t, Err ''UNAUTHORIZED'')
                 else if mb_registered m then (t, Err ''Duplicated registration'')
                 else
                   (let room1 = put_member cid (m\<lparr>mb_registered := True, mb_reconnect_deadline := None\<rparr>) room;
                        queued = (if vr_mode room1 = P2p then others_queued cid room1 else []);
                        room2 = (if vr_mode room1 = P2p then drain_others cid room1 else room1)
                    in (put_room rid room2 t,
                        Ok \<lparr>rg_mode = vr_mode room, rg_signal_epoch = vr_signal_epoch room,
                            rg_is_initiator = (if vr_mode room = P2p then Some (mb_is_initiator m) else None),
                            rg_queued_messages = queued\<rparr>))))))"

section \<open>Dropped connections and leaves\<close>

definition issue_sfu_leave ::
    "uuid \<Rightarrow> member_id \<Rightarrow> leave_reason \<Rightarrow> v2_table \<Rightarrow> v2_table \<times> bool" where
  "issue_sfu_leave rid cid reason t =
     (case map_of (vt_rooms t) rid of
        None \<Rightarrow> (t, False)
      | Some room \<Rightarrow>
         (if vr_mode room \<noteq> Sfu \<or> vr_pending_leave room \<noteq> None then (t, False)
          else
            (case map_of (vr_members room) cid of
               None \<Rightarrow> (t, False)
             | Some m \<Rightarrow>
                (case vr_assigned_instance room of
                   None \<Rightarrow> (t, False)
                 | Some inst \<Rightarrow>
                    (case worker_connection inst t of
                       None \<Rightarrow> (t, False)
                     | Some conn \<Rightarrow>
                        (issue_command inst conn
                           (Leave \<lparr>lm_room_id = rid, lm_client_id = cid,
                              lm_lifecycle_id = mb_lifecycle_id m,
                              lm_assignment_epoch = vr_assignment_epoch room, lm_reason = reason\<rparr>)
                           (PendingSfuLeave inst rid cid (mb_lifecycle_id m) (vr_assignment_epoch room))
                           (put_room rid (room\<lparr>vr_pending_leave :=
                              Some \<lparr>pl_authority_request_id = None, pl_client_id = cid\<rparr>\<rparr>) t),
                         True))))))"

text \<open>\<^verbatim>\<open>member.reconnect_deadline = Some(now + grace)\<close>, if the member is still there.\<close>

definition arm_reconnect :: "instant \<Rightarrow> uuid \<Rightarrow> member_id \<Rightarrow> v2_table \<Rightarrow> v2_table" where
  "arm_reconnect now rid cid t =
     (case map_of (vt_rooms t) rid of
        None \<Rightarrow> t
      | Some room \<Rightarrow>
         (case map_of (vr_members room) cid of
            None \<Rightarrow> t
          | Some m \<Rightarrow>
              put_room rid
                (put_member cid (m\<lparr>mb_reconnect_deadline := Some (now + vt_reconnect_grace t)\<rparr>) room) t))"

definition v2_deregister :: "instant \<Rightarrow> uuid \<Rightarrow> member_id \<Rightarrow> v2_table \<Rightarrow> v2_table" where
  "v2_deregister now rid cid t =
     (case map_of (vt_rooms t) rid of
        None \<Rightarrow> t
      | Some room \<Rightarrow>
         (case map_of (vr_members room) cid of
            None \<Rightarrow> t
          | Some m \<Rightarrow>
             (if \<not> mb_registered m then t
              else
                (let t1 = put_room rid (put_member cid (m\<lparr>mb_registered := False\<rparr>) room) t in
                 if vr_mode room = Sfu then
                   (case issue_sfu_leave rid cid Disconnected t1 of
                      (t2, True) \<Rightarrow> t2
                    | (t2, False) \<Rightarrow> arm_reconnect now rid cid t2)
                 else arm_reconnect now rid cid t1))))"

section \<open>Sending\<close>

definition queue_for_peer ::
    "uuid \<Rightarrow> member_id \<Rightarrow> string \<Rightarrow> v2_room \<Rightarrow> v2_table \<Rightarrow> v2_table \<times> send_result result" where
  "queue_for_peer rid cid message room t =
     (case map_of (vr_members room) cid of
        None \<Rightarrow> (t, Panicked)
      | Some source \<Rightarrow>
         (case push_queued message source of
            (source', Inl e) \<Rightarrow> (put_room rid (put_member cid source' room) t, Inl e)
          | (source', Inr _) \<Rightarrow> (put_room rid (put_member cid source' room) t, Ok (SendP2p None))))"

definition v2_send ::
    "uuid \<Rightarrow> member_id \<Rightarrow> u64 \<Rightarrow> string \<Rightarrow> v2_table \<Rightarrow> v2_table \<times> send_result result" where
  "v2_send rid cid signal_epoch message t =
     (case map_of (vt_rooms t) rid of
        None \<Rightarrow> (t, Err ''CLIENT_NOT_FOUND'')
      | Some room \<Rightarrow>
         (if vr_signal_epoch room \<noteq> signal_epoch \<or> vr_mode room = Upgrading then (t, Ok SendDropped)
          else
            (case map_of (vr_members room) cid of
               None \<Rightarrow> (t, Err ''CLIENT_NOT_FOUND'')
             | Some m \<Rightarrow>
                (if vr_mode room = Sfu then
                   (case vr_assigned_instance room of
                      None \<Rightarrow> (t, Err ''WORKER_UNAVAILABLE'')
                    | Some inst \<Rightarrow>
                       (case worker_connection inst t of
                          None \<Rightarrow> (t, Err ''WORKER_UNAVAILABLE'')
                        | Some conn \<Rightarrow>
                           (issue_command inst conn
                              (Signal \<lparr>sg_room_id = rid, sg_client_id = cid,
                                 sg_lifecycle_id = mb_lifecycle_id m,
                                 sg_assignment_epoch = vr_assignment_epoch room,
                                 sg_message_json = message, sg_sdp_request_id = None\<rparr>)
                              PendingSignal t, Ok SendSfu)))
                 else
                   (case other_key cid (vr_members room) of
                      None \<Rightarrow> queue_for_peer rid cid message room t
                    | Some peer_id \<Rightarrow>
                       (if (case map_of (vr_members room) peer_id of
                              None \<Rightarrow> False | Some peer \<Rightarrow> mb_registered peer)
                        then (t, Ok (SendP2p (Some \<lparr>de_room_id = rid, de_client_id = peer_id,
                                               de_message = message\<rparr>)))
                        else queue_for_peer rid cid message room t))))))"

section \<open>Removal\<close>

definition v2_remove ::
    "u64 \<Rightarrow> uuid \<Rightarrow> member_id \<Rightarrow> string \<Rightarrow> v2_table \<Rightarrow> v2_table \<times> removal_result result" where
  "v2_remove areq rid cid token t =
     (case map_of (vt_rooms t) rid of
        None \<Rightarrow> (t, Err ''ROOM_NOT_FOUND'')
      | Some room \<Rightarrow>
         (case map_of (vr_members room) cid of
            None \<Rightarrow> (t, Err ''CLIENT_NOT_FOUND'')
          | Some m \<Rightarrow>
             (if \<not> constant_time_eq (as_bytes (mb_token m)) (as_bytes token) then (t, Err ''UNAUTHORIZED'')
              else if vr_mode room = Upgrading \<or> vr_pending_join room \<noteq> None \<or> vr_pending_leave room \<noteq> None
              then (t, Err ''ROOM_TRANSITION'')
              else if vr_mode room = Sfu then
                (case vr_assigned_instance room of
                   None \<Rightarrow> (t, Err ''WORKER_UNAVAILABLE'')
                 | Some inst \<Rightarrow>
                    (case worker_connection inst t of
                       None \<Rightarrow> (t, Err ''WORKER_UNAVAILABLE'')
                     | Some conn \<Rightarrow>
                        (issue_command inst conn
                           (Leave \<lparr>lm_room_id = rid, lm_client_id = cid,
                              lm_lifecycle_id = mb_lifecycle_id m,
                              lm_assignment_epoch = vr_assignment_epoch room, lm_reason = User\<rparr>)
                           (PendingSfuLeave inst rid cid (mb_lifecycle_id m) (vr_assignment_epoch room))
                           (put_room rid (room\<lparr>vr_pending_leave :=
                              Some \<lparr>pl_authority_request_id = Some areq, pl_client_id = cid\<rparr>\<rparr>) t),
                         Ok RemovalPending)))
              else if vr_mode room = Failed then
                (let room1 = remove_member cid room; t1 = put_room rid room1 t in
                 (if vr_members room1 = [] then drop_room rid t1 else t1, Ok (RemovalComplete None)))
              else
                (case promote_survivor rid (remove_member cid room) of
                   (room2, promotion) \<Rightarrow>
                     (let t1 = put_room rid room2 t in
                      (if vr_members room2 = [] then drop_room rid t1 else t1,
                       Ok (RemovalComplete promotion)))))))"

end
