(* ===== verification/V2_Worker.thy ===== *)
theory V2_Worker
  imports V2_Admission
begin

text \<open>
  The worker side of the V2 authority (\<^verbatim>\<open>src/v2.rs\<close>): worker registration and
  synchronisation, worker events, results of commands, and the commit or abort of the
  transitions between P2P and SFU.
\<close>

section \<open>Committing and aborting transitions\<close>

definition fail_room :: "uuid \<Rightarrow> string \<Rightarrow> v2_table \<Rightarrow> v2_table" where
  "fail_room rid reason t =
     (case map_of (vt_rooms t) rid of
        None \<Rightarrow> t
      | Some room \<Rightarrow>
          push_action (RoomFailed rid (hm_keys (vr_members room)) reason)
            (put_room rid (room\<lparr>vr_mode := Failed\<rparr>) t))"

definition commit_upgrade :: "uuid \<Rightarrow> v2_table \<Rightarrow> v2_table \<times> unit result" where
  "commit_upgrade rid t =
     (case map_of (vt_rooms t) rid of
        None \<Rightarrow> (t, Err ''ROOM_NOT_FOUND'')
      | Some room \<Rightarrow>
         (case vr_upgrade room of
            None \<Rightarrow> (t, Err ''ROOM_TRANSITION'')
          | Some upgrade \<Rightarrow>
             (let room1 = room\<lparr>vr_upgrade := None, vr_mode := Sfu,
                    vr_signal_epoch := sat_add (vr_signal_epoch room) 1,
                    vr_members := hm_map (\<lambda>m. m\<lparr>mb_queued_messages := [], mb_is_initiator := False\<rparr>)
                      (vr_members room)\<rparr>;
                  t1 = put_room rid room1 t
              in case map_of (vr_members room1) (up_joining_client_id upgrade) of
                   None \<Rightarrow> (t1, Err ''CLIENT_NOT_FOUND'')
                 | Some joining \<Rightarrow>
                    (push_action (AdmissionCompleted (up_authority_request_id upgrade)
                        (Inr \<lparr>ad_mode = Sfu, ad_signal_epoch = vr_signal_epoch room1,
                           ad_admission_token = mb_token joining, ad_is_initiator = None\<rparr>))
                      (push_action (Upgraded rid (vr_signal_epoch room1)
                          (filter (\<lambda>c. c \<noteq> up_joining_client_id upgrade) (hm_keys (vr_members room1)))) t1),
                     Ok ()))))"

text \<open>The cleanup leaves of an abort, for the members that had already joined the worker.\<close>

fun cleanup_joined :: "instance_id \<Rightarrow> connection_id \<Rightarrow> uuid \<Rightarrow> u64 \<Rightarrow> member_id list \<Rightarrow> v2_table \<Rightarrow>
    v2_table \<times> unit result" where
  "cleanup_joined inst conn rid epoch [] t = (t, Ok ())"
| "cleanup_joined inst conn rid epoch (cid # cids) t =
     (case (case map_of (vt_rooms t) rid of None \<Rightarrow> None | Some r \<Rightarrow> map_of (vr_members r) cid) of
        None \<Rightarrow> (t, Err ''CLIENT_NOT_FOUND'')
      | Some m \<Rightarrow>
          cleanup_joined inst conn rid epoch cids
            (issue_command inst conn
               (Leave \<lparr>lm_room_id = rid, lm_client_id = cid, lm_lifecycle_id = mb_lifecycle_id m,
                  lm_assignment_epoch = epoch, lm_reason = RoomClosed\<rparr>) PendingCleanup t))"

definition release_worker :: "uuid \<Rightarrow> 64 word \<Rightarrow> worker \<Rightarrow> worker" where
  "release_worker rid n w =
     w\<lparr>wk_assigned_rooms := removeAll rid (wk_assigned_rooms w),
       wk_assigned_clients := sat_sub (wk_assigned_clients w) n\<rparr>"

definition abort_upgrade :: "uuid \<Rightarrow> string \<Rightarrow> v2_table \<Rightarrow> v2_table \<times> unit result" where
  "abort_upgrade rid reason t =
     (case map_of (vt_rooms t) rid of
        None \<Rightarrow> (t, Err ''ROOM_NOT_FOUND'')
      | Some room \<Rightarrow>
         (case vr_upgrade room of
            None \<Rightarrow> (t, Err ''ROOM_TRANSITION'')
          | Some upgrade \<Rightarrow>
             (let room1 = (remove_member (up_joining_client_id upgrade) room)
                            \<lparr>vr_upgrade := None, vr_mode := P2p\<rparr>
              in case vr_assigned_instance room1 of
                   None \<Rightarrow> (put_room rid room1 t, Err ''WORKER_UNAVAILABLE'')
                 | Some inst \<Rightarrow>
                    (let conn = worker_connection inst t;
                         t1 = on_worker inst (release_worker rid 3)
                                (put_room rid (room1\<lparr>vr_assigned_instance := None\<rparr>) t)
                     in case (case conn of
                                None \<Rightarrow> (t1, Ok ())
                              | Some c \<Rightarrow> cleanup_joined inst c rid (vr_assignment_epoch room)
                                            (up_joined_clients upgrade) t1) of
                          (t2, Inl e) \<Rightarrow> (t2, Inl e)
                        | (t2, Inr _) \<Rightarrow>
                           (push_action (AdmissionCompleted (up_authority_request_id upgrade)
                              (Inl (if reason = [] then ''WORKER_UNAVAILABLE'' else reason))) t2,
                            Ok ())))))"

definition is_downgrade_eligible :: "uuid \<Rightarrow> v2_table \<Rightarrow> bool" where
  "is_downgrade_eligible rid t =
     (case map_of (vt_rooms t) rid of
        None \<Rightarrow> False
      | Some room \<Rightarrow>
          vr_mode room = Sfu \<and> vr_members room \<noteq> [] \<and> length (vr_members room) \<le> MAX_P2P_MEMBERS \<and>
          vr_upgrade room = None \<and> vr_pending_join room = None \<and> vr_pending_leave room = None)"

definition arm_downgrade :: "uuid \<Rightarrow> instant \<Rightarrow> v2_table \<Rightarrow> v2_table" where
  "arm_downgrade rid now t =
     (case map_of (vt_rooms t) rid of
        None \<Rightarrow> t
      | Some room \<Rightarrow>
          if is_downgrade_eligible rid t then
            (if vr_downgrade_deadline room = None
             then put_room rid (room\<lparr>vr_downgrade_deadline := Some (now + vt_downgrade_dwell t)\<rparr>) t
             else t)
          else put_room rid (room\<lparr>vr_downgrade_deadline := None\<rparr>) t)"

text \<open>The leaves of a downgrade, one per member, in the iteration order of the members.\<close>

fun leave_all :: "instance_id \<Rightarrow> connection_id \<Rightarrow> uuid \<Rightarrow> u64 \<Rightarrow> (member_id \<times> u64) list \<Rightarrow> v2_table \<Rightarrow>
    v2_table" where
  "leave_all inst conn rid epoch [] t = t"
| "leave_all inst conn rid epoch ((cid, lifecycle) # leaving) t =
     leave_all inst conn rid epoch leaving
       (issue_command inst conn
          (Leave \<lparr>lm_room_id = rid, lm_client_id = cid, lm_lifecycle_id = lifecycle,
             lm_assignment_epoch = epoch, lm_reason = RoomClosed\<rparr>) PendingCleanup t)"

definition commit_downgrade :: "uuid \<Rightarrow> v2_table \<Rightarrow> v2_table \<times> unit result" where
  "commit_downgrade rid t =
     (case map_of (vt_rooms t) rid of
        None \<Rightarrow> (t, Err ''ROOM_NOT_FOUND'')
      | Some room \<Rightarrow>
         (let room1 = room\<lparr>vr_mode := P2p, vr_signal_epoch := sat_add (vr_signal_epoch room) 1,
                vr_downgrade_deadline := None, vr_assigned_instance := None\<rparr>;
              clients = sort (hm_keys (vr_members room))
          in case clients of
               [] \<Rightarrow> (put_room rid room1 t, Err ''CLIENT_NOT_FOUND'')
             | initiator # _ \<Rightarrow>
                (let leaving = map (\<lambda>(c, m). (c, mb_lifecycle_id m)) (vr_members room);
                     room2 = room1\<lparr>vr_members := map (\<lambda>(c, m).
                       (c, m\<lparr>mb_is_initiator := (c = initiator), mb_queued_messages := []\<rparr>)) (vr_members room)\<rparr>;
                     t1 = put_room rid room2 t;
                     t2 = (case vr_assigned_instance room of
                             None \<Rightarrow> t1
                           | Some inst \<Rightarrow>
                              (let t' = on_worker inst (release_worker rid (of_nat (length leaving))) t1 in
                               case worker_connection inst t1 of
                                 None \<Rightarrow> t'
                               | Some conn \<Rightarrow>
                                   leave_all inst conn rid (vr_assignment_epoch room) leaving t'))
                 in (push_action (Downgraded rid (vr_signal_epoch room1) initiator clients) t2, Ok ()))))"

section \<open>Worker registration\<close>

definition new_worker :: "capacity \<Rightarrow> worker" where
  "new_worker cap =
     \<lparr>wk_connection_id = None, wk_capacity = cap, wk_health = None, wk_assigned_rooms = [],
      wk_assigned_clients = 0, wk_seen_events = [], wk_seen_event_order = [],
      wk_disconnect_deadline = None\<rparr>"

definition forget_command :: "request_id \<Rightarrow> v2_table \<Rightarrow> v2_table" where
  "forget_command req t =
     t\<lparr>vt_pending_commands := hm_remove req (vt_pending_commands t),
       vt_unacknowledged_commands := hm_remove req (vt_unacknowledged_commands t),
       vt_command_workers := hm_remove req (vt_command_workers t)\<rparr>"

definition is_sync_for :: "instance_id \<Rightarrow> pending_command \<Rightarrow> bool" where
  "is_sync_for inst p = (case p of PendingSyncRoom i _ _ _ \<Rightarrow> i = inst | _ \<Rightarrow> False)"

definition is_sync :: "pending_command option \<Rightarrow> bool" where
  "is_sync p = (case p of Some (PendingSyncRoom _ _ _ _) \<Rightarrow> True | _ \<Rightarrow> False)"

text \<open>The commands a worker has not acknowledged for a room, synchronisations excepted.\<close>

definition replay_for :: "instance_id \<Rightarrow> uuid \<Rightarrow> v2_table \<Rightarrow> sfu_command list" where
  "replay_for inst rid t =
     filter (\<lambda>c. command_room_id c = Some rid)
       (List.map_filter (\<lambda>(req, w). map_of (vt_unacknowledged_commands t) req)
          (filter (\<lambda>(req, w). \<not> is_sync (map_of (vt_pending_commands t) req))
            (filter (\<lambda>(req, w). w = inst) (vt_command_workers t))))"

fun sync_rooms :: "instance_id \<Rightarrow> connection_id \<Rightarrow> uuid list \<Rightarrow> v2_table \<Rightarrow> v2_table" where
  "sync_rooms inst conn [] t = t"
| "sync_rooms inst conn (rid # rids) t =
     (case map_of (vt_rooms t) rid of
        None \<Rightarrow> sync_rooms inst conn rids t
      | Some room \<Rightarrow>
          sync_rooms inst conn rids
            (issue_command inst conn
               (SyncRoom \<lparr>sy_room_id = rid, sy_assignment_epoch = vr_assignment_epoch room,
                  sy_members = map (\<lambda>(c, m). \<lparr>mp_client_id = c, mp_lifecycle_id = mb_lifecycle_id m\<rparr>)
                    (vr_members room)\<rparr>)
               (PendingSyncRoom inst rid (vr_assignment_epoch room) (replay_for inst rid t)) t))"

definition register_worker ::
    "connection_id \<Rightarrow> instance_id \<Rightarrow> request_id \<Rightarrow> capacity \<Rightarrow> v2_table \<Rightarrow> v2_table \<times> unit result" where
  "register_worker conn inst req cap t =
     (if inst = [] \<or> req = 0 \<or> max_rooms cap = 0 \<or> max_clients cap = 0 then
        (push_action (ActionSfu (OutputRegistrationError conn req
           \<lparr>er_reason = ''INVALID_REQUEST'', er_retryable = False\<rparr>)) t, Ok ())
      else
        (let resumed = hm_contains (vt_workers t) inst;
             old_connection = worker_connection inst t;
             w = (case map_of (vt_workers t) inst of None \<Rightarrow> new_worker cap | Some w \<Rightarrow> w);
             w' = w\<lparr>wk_connection_id := Some conn, wk_capacity := cap, wk_health := None,
                    wk_disconnect_deadline := None\<rparr>;
             t1 = put_worker inst w' t;
             t2 = (case old_connection of
                     Some old \<Rightarrow> if old \<noteq> conn then push_action (ActionSfu (OutputClose old)) t1 else t1
                   | None \<Rightarrow> t1);
             t3 = push_action (ActionSfu (OutputRegistered conn req HEALTH_INTERVAL_MS resumed)) t2;
             superseded = map fst (filter (\<lambda>(r, p). is_sync_for inst p) (vt_pending_commands t3));
             t4 = fold forget_command superseded t3
         in (sync_rooms inst conn (sort (wk_assigned_rooms w')) t4, Ok ())))"

section \<open>Worker events\<close>

definition remember_event :: "u64 \<Rightarrow> worker \<Rightarrow> worker" where
  "remember_event req w =
     (let order = wk_seen_event_order w @ [req];
          seen = List.insert req (wk_seen_events w)
      in if length order > EVENT_DEDUP_CAPACITY
         then (case order of
                 [] \<Rightarrow> w\<lparr>wk_seen_events := seen, wk_seen_event_order := order\<rparr>
               | oldest # rest \<Rightarrow>
                   w\<lparr>wk_seen_events := removeAll oldest seen, wk_seen_event_order := rest\<rparr>)
         else w\<lparr>wk_seen_events := seen, wk_seen_event_order := order\<rparr>)"

definition worker_signal :: "instance_id \<Rightarrow> sfu_signal \<Rightarrow> v2_table \<Rightarrow> v2_table \<times> unit result" where
  "worker_signal inst s t =
     (case map_of (vt_rooms t) (sg_room_id s) of
        None \<Rightarrow> (t, Err ''ROOM_NOT_FOUND'')
      | Some room \<Rightarrow>
         (case map_of (vr_members room) (sg_client_id s) of
            None \<Rightarrow> (t, Err ''CLIENT_NOT_FOUND'')
          | Some m \<Rightarrow>
             (if vr_mode room \<noteq> Sfu \<or> vr_assigned_instance room \<noteq> Some inst \<or>
                 vr_assignment_epoch room \<noteq> sg_assignment_epoch s \<or> mb_lifecycle_id m \<noteq> sg_lifecycle_id s
              then (t, Err ''STALE_ASSIGNMENT'')
              else (push_action (Deliver \<lparr>de_room_id = sg_room_id s, de_client_id = sg_client_id s,
                                   de_message = sg_message_json s\<rparr>) t, Ok ()))))"

definition handle_worker_event ::
    "connection_id \<Rightarrow> instance_id \<Rightarrow> sfu_event \<Rightarrow> v2_table \<Rightarrow> v2_table \<times> unit result" where
  "handle_worker_event conn inst event t =
     (let req = ev_request_id event; ack = ActionSfu (OutputEventAck conn req) in
      case map_of (vt_workers t) inst of
        None \<Rightarrow> (t, Err ''UNKNOWN_SFU'')
      | Some w \<Rightarrow>
         (if wk_connection_id w \<noteq> Some conn \<or> req = 0 then (t, Err ''STALE_SFU_SESSION'')
          else if req \<in> set (wk_seen_events w) then (push_action ack t, Ok ())
          else
            (let w1 = remember_event req w; t1 = put_worker inst w1 t in
             case (case ev_event event of
                     EventHealth h \<Rightarrow>
                       (put_worker inst (w1\<lparr>wk_capacity := he_capacity h, wk_health := Some h\<rparr>) t1, Ok ())
                   | EventSignal s \<Rightarrow> worker_signal inst s t1
                   | EventFailure e rid _ _ _ \<Rightarrow>
                       ((case rid of None \<Rightarrow> t1 | Some r \<Rightarrow> fail_room r (er_reason e) t1), Ok ())) of
               (t2, Inl e) \<Rightarrow> (t2, Inl e)
             | (t2, Inr _) \<Rightarrow> (push_action ack t2, Ok ()))))"

section \<open>Results of commands\<close>

text \<open>\<^verbatim>\<open>result.err().map_or_else(|| "INVALID_COMMAND_RESULT", |error| error.reason)\<close>\<close>

definition failure_reason :: "sfu_error + command_ok \<Rightarrow> string" where
  "failure_reason r = (case r of Inl e \<Rightarrow> er_reason e | Inr _ \<Rightarrow> ''INVALID_COMMAND_RESULT'')"

definition sync_acknowledged :: "uuid \<Rightarrow> u64 \<Rightarrow> sfu_error + command_ok \<Rightarrow> bool" where
  "sync_acknowledged rid epoch r =
     (case r of Inr (RoomSynced s) \<Rightarrow> rs_room_id s = rid \<and> rs_assignment_epoch s = epoch | _ \<Rightarrow> False)"

definition join_acknowledged ::
    "uuid \<Rightarrow> member_id \<Rightarrow> u64 \<Rightarrow> u64 \<Rightarrow> sfu_error + command_ok \<Rightarrow> bool" where
  "join_acknowledged rid cid lifecycle epoch r =
     (case r of
        Inr (MemberJoined j) \<Rightarrow> jm_room_id j = rid \<and> jm_client_id j = cid \<and>
          jm_lifecycle_id j = lifecycle \<and> jm_assignment_epoch j = epoch
      | _ \<Rightarrow> False)"

definition leave_acknowledged ::
    "uuid \<Rightarrow> member_id \<Rightarrow> u64 \<Rightarrow> u64 \<Rightarrow> sfu_error + command_ok \<Rightarrow> bool" where
  "leave_acknowledged rid cid lifecycle epoch r =
     (case r of
        Inr (MemberLeft l) \<Rightarrow> lm_room_id l = rid \<and> lm_client_id l = cid \<and>
          lm_lifecycle_id l = lifecycle \<and> lm_assignment_epoch l = epoch
      | _ \<Rightarrow> False)"

definition upgrade_join_result ::
    "uuid \<Rightarrow> member_id \<Rightarrow> bool \<Rightarrow> string \<Rightarrow> v2_table \<Rightarrow> v2_table \<times> unit result" where
  "upgrade_join_result rid cid valid reason t =
     (if \<not> valid then abort_upgrade rid reason t
      else
        (case map_of (vt_rooms t) rid of
           None \<Rightarrow> (t, Err ''ROOM_NOT_FOUND'')
         | Some room \<Rightarrow>
            (case vr_upgrade room of
               None \<Rightarrow> (t, Err ''ROOM_TRANSITION'')
             | Some upgrade \<Rightarrow>
                (let upgrade' = upgrade\<lparr>up_joined_clients := up_joined_clients upgrade @ [cid],
                       up_next_client := up_next_client upgrade + 1\<rparr>;
                     t1 = put_room rid (room\<lparr>vr_upgrade := Some upgrade'\<rparr>) t
                 in if up_next_client upgrade' = length (up_ordered_clients upgrade')
                    then commit_upgrade rid t1 else issue_next_upgrade_join rid t1))))"

definition sfu_join_result ::
    "instance_id \<Rightarrow> uuid \<Rightarrow> member_id \<Rightarrow> bool \<Rightarrow> string \<Rightarrow> v2_table \<Rightarrow> v2_table \<times> unit result" where
  "sfu_join_result inst rid cid valid reason t =
     (case map_of (vt_rooms t) rid of
        None \<Rightarrow> (t, Err ''ROOM_NOT_FOUND'')
      | Some room \<Rightarrow>
         (case vr_pending_join room of
            None \<Rightarrow> (t, Err ''ROOM_TRANSITION'')
          | Some pj \<Rightarrow>
             (let room1 = room\<lparr>vr_pending_join := None\<rparr>; t1 = put_room rid room1 t in
              if valid then
                (let t2 = on_worker inst (\<lambda>w. w\<lparr>wk_assigned_clients := sat_add (wk_assigned_clients w) 1\<rparr>) t1 in
                 case map_of (vr_members room1) cid of
                   None \<Rightarrow> (t2, Err ''CLIENT_NOT_FOUND'')
                 | Some m \<Rightarrow>
                    (push_action (AdmissionCompleted (pj_authority_request_id pj)
                       (Inr \<lparr>ad_mode = Sfu, ad_signal_epoch = vr_signal_epoch room1,
                          ad_admission_token = mb_token m, ad_is_initiator = None\<rparr>)) t2, Ok ()))
              else
                (push_action (AdmissionCompleted (pj_authority_request_id pj) (Inl reason))
                   (put_room rid (remove_member (pj_client_id pj) room1) t1), Ok ()))))"

definition sfu_leave_result ::
    "instant \<Rightarrow> instance_id \<Rightarrow> uuid \<Rightarrow> member_id \<Rightarrow> bool \<Rightarrow> string \<Rightarrow> v2_table \<Rightarrow> v2_table \<times> unit result" where
  "sfu_leave_result now inst rid cid valid reason t =
     (case map_of (vt_rooms t) rid of
        None \<Rightarrow> (t, Err ''ROOM_NOT_FOUND'')
      | Some room \<Rightarrow>
         (case vr_pending_leave room of
            None \<Rightarrow> (t, Err ''ROOM_TRANSITION'')
          | Some pl \<Rightarrow>
             (let room1 = room\<lparr>vr_pending_leave := None\<rparr>;
                  complete = (\<lambda>res. case pl_authority_request_id pl of
                    None \<Rightarrow> id | Some areq \<Rightarrow> push_action (RemovalCompleted areq rid cid res))
              in
              if valid then
                (let room2 = remove_member cid room1;
                     t1 = put_room rid room2 t;
                     t2 = on_worker inst (\<lambda>w.
                       let w' = w\<lparr>wk_assigned_clients := sat_sub (wk_assigned_clients w) 1\<rparr> in
                       if vr_members room2 = []
                       then w'\<lparr>wk_assigned_rooms := removeAll rid (wk_assigned_rooms w')\<rparr> else w') t1;
                     t3 = complete (Inr ()) t2
                 in (if vr_members room2 = [] then drop_room rid t3 else arm_downgrade rid now t3, Ok ()))
              else (complete (Inl reason) (put_room rid room1 t), Ok ()))))"

definition handle_command_result ::
    "connection_id \<Rightarrow> instance_id \<Rightarrow> command_result \<Rightarrow> instant \<Rightarrow> v2_table \<Rightarrow> v2_table \<times> unit result" where
  "handle_command_result conn inst result now t =
     (case map_of (vt_workers t) inst of
        None \<Rightarrow> (t, Err ''UNKNOWN_SFU'')
      | Some w \<Rightarrow>
         (if wk_connection_id w \<noteq> Some conn then (t, Err ''STALE_SFU_SESSION'')
          else
            (case map_of (vt_pending_commands t) (cr_request_id result) of
               None \<Rightarrow> (t, Ok ())
             | Some pending \<Rightarrow>
                (let t1 = forget_command (cr_request_id result) t;
                     res = cr_result result;
                     reason = failure_reason res
                 in case pending of
                      PendingSyncRoom expected rid epoch replay \<Rightarrow>
                        (if expected \<noteq> inst \<or> \<not> sync_acknowledged rid epoch res
                         then (fail_room rid ''WORKER_UNAVAILABLE'' t1, Ok ())
                         else (fold (\<lambda>c. push_action (ActionSfu (OutputCommand conn c))) replay t1, Ok ()))
                    | PendingUpgradeJoin expected rid cid lifecycle epoch \<Rightarrow>
                        upgrade_join_result rid cid
                          (expected = inst \<and> join_acknowledged rid cid lifecycle epoch res) reason t1
                    | PendingSfuJoin expected rid cid lifecycle epoch \<Rightarrow>
                        sfu_join_result inst rid cid
                          (expected = inst \<and> join_acknowledged rid cid lifecycle epoch res) reason t1
                    | PendingSfuLeave expected rid cid lifecycle epoch \<Rightarrow>
                        sfu_leave_result now inst rid cid
                          (expected = inst \<and> leave_acknowledged rid cid lifecycle epoch res) reason t1
                    | PendingSignal \<Rightarrow> (t1, Ok ())
                    | PendingCleanup \<Rightarrow> (t1, Ok ())))))"

definition worker_disconnected ::
    "connection_id \<Rightarrow> instance_id \<Rightarrow> instant \<Rightarrow> v2_table \<Rightarrow> v2_table" where
  "worker_disconnected conn inst now t =
     (case map_of (vt_workers t) inst of
        None \<Rightarrow> t
      | Some w \<Rightarrow>
          if wk_connection_id w = Some conn
          then put_worker inst (w\<lparr>wk_connection_id := None, wk_health := None,
                 wk_disconnect_deadline := Some (now + vt_reconnect_grace t)\<rparr>) t
          else t)"

definition handle_sfu_input :: "sfu_input \<Rightarrow> v2_table \<Rightarrow> v2_table \<times> unit result" where
  "handle_sfu_input input t =
     (case input of
        InputRegister conn inst req cap \<Rightarrow> register_worker conn inst req cap t
      | InputCommandResult conn inst result now \<Rightarrow> handle_command_result conn inst result now t
      | InputEvent conn inst event \<Rightarrow> handle_worker_event conn inst event t
      | InputDisconnected conn inst now \<Rightarrow> (worker_disconnected conn inst now t, Ok ()))"

end
