(* ===== verification/V2_Timeout.thy ===== *)
theory V2_Timeout
  imports V2_Worker
begin

text \<open>
  The timeouts of the V2 authority (\<^verbatim>\<open>src/v2.rs\<close>): expiry of disconnected workers, the sweep
  over the rooms (due downgrades, retried SFU leaves, expired P2P members) and the next
  deadline.
\<close>

section \<open>Expiry of a worker\<close>

definition expire_assigned_room :: "uuid \<Rightarrow> v2_table \<Rightarrow> v2_table" where
  "expire_assigned_room rid t =
     (case map_of (vt_rooms t) rid of
        None \<Rightarrow> t
      | Some room \<Rightarrow>
         (if vr_mode room = Upgrading then fst (abort_upgrade rid ''WORKER_UNAVAILABLE'' t)
          else
            (let (room1, t1) = (case vr_pending_join room of
                   None \<Rightarrow> (room, t)
                 | Some pj \<Rightarrow>
                     (remove_member (pj_client_id pj) (room\<lparr>vr_pending_join := None\<rparr>),
                      push_action (AdmissionCompleted (pj_authority_request_id pj)
                        (Inl ''WORKER_UNAVAILABLE'')) t));
                 (room2, t2) = (case vr_pending_leave room1 of
                   None \<Rightarrow> (room1, t1)
                 | Some pl \<Rightarrow>
                     (room1\<lparr>vr_pending_leave := None\<rparr>,
                      case pl_authority_request_id pl of
                        None \<Rightarrow> t1
                      | Some areq \<Rightarrow> push_action (RemovalCompleted areq rid (pl_client_id pl)
                                       (Inl ''WORKER_UNAVAILABLE'')) t1))
             in push_action (RoomFailed rid (hm_keys (vr_members room2)) ''WORKER_UNAVAILABLE'')
                  (put_room rid (room2\<lparr>vr_mode := Failed\<rparr>) t2))))"

definition expire_worker :: "instance_id \<Rightarrow> v2_table \<Rightarrow> v2_table" where
  "expire_worker inst t =
     (let assigned = (case map_of (vt_workers t) inst of None \<Rightarrow> [] | Some w \<Rightarrow> wk_assigned_rooms w);
          t1 = fold expire_assigned_room assigned t;
          requests = map fst (filter (\<lambda>(req, w). w = inst) (vt_command_workers t1));
          t2 = fold forget_command requests t1
      in on_worker inst (\<lambda>w. w\<lparr>wk_disconnect_deadline := None, wk_assigned_rooms := [],
           wk_assigned_clients := 0\<rparr>) t2)"

section \<open>The sweep\<close>

definition passed :: "instant \<Rightarrow> instant option \<Rightarrow> bool" where
  "passed now deadline = (case deadline of None \<Rightarrow> False | Some d \<Rightarrow> d \<le> now)"

text \<open>The part of the loop body for a P2P room: expired members go, a survivor is promoted.\<close>

definition sweep_p2p :: "instant \<Rightarrow> uuid \<Rightarrow> v2_room \<Rightarrow> v2_table \<Rightarrow> v2_table \<times> promotion option" where
  "sweep_p2p now rid room t =
     (let expired = map fst (filter (\<lambda>(c, m). passed now (mb_reconnect_deadline m)) (vr_members room));
          room1 = fold remove_member expired room;
          (room2, promotion) = (if expired \<noteq> [] then promote_survivor rid room1 else (room1, None));
          t1 = put_room rid room2 t
      in (if vr_members room2 = [] then drop_room rid t1 else t1, promotion))"

definition sweep_room :: "instant \<Rightarrow> uuid \<Rightarrow> v2_table \<Rightarrow> v2_table \<times> promotion option" where
  "sweep_room now rid t =
     (case map_of (vt_rooms t) rid of
        None \<Rightarrow> (t, None)
      | Some room \<Rightarrow>
         (if passed now (vr_downgrade_deadline room) then
            (if is_downgrade_eligible rid t then fst (commit_downgrade rid t)
             else put_room rid (room\<lparr>vr_downgrade_deadline := None\<rparr>) t, None)
          else
            (case (if vr_mode room = Sfu \<and> vr_pending_leave room = None
                   then List.find (\<lambda>(c, m). passed now (mb_reconnect_deadline m)) (vr_members room)
                   else None) of
               Some (cid, m) \<Rightarrow>
                 (case issue_sfu_leave rid cid Disconnected t of
                    (t1, True) \<Rightarrow> (t1, None)
                  | (t1, False) \<Rightarrow> (arm_reconnect now rid cid t1, None))
             | None \<Rightarrow> if vr_mode room \<noteq> P2p then (t, None) else sweep_p2p now rid room t)))"

fun sweep_rooms :: "instant \<Rightarrow> uuid list \<Rightarrow> v2_table \<Rightarrow> v2_table \<times> promotion list" where
  "sweep_rooms now [] t = (t, [])"
| "sweep_rooms now (rid # rids) t =
     (case sweep_room now rid t of (t1, promotion) \<Rightarrow>
       (case sweep_rooms now rids t1 of (t2, promotions) \<Rightarrow>
          (t2, (case promotion of None \<Rightarrow> promotions | Some p \<Rightarrow> p # promotions))))"

definition v2_handle_timeout :: "instant \<Rightarrow> v2_table \<Rightarrow> v2_table \<times> promotion list" where
  "v2_handle_timeout now t =
     (let expired = map fst (filter (\<lambda>(k, w). passed now (wk_disconnect_deadline w)) (vt_workers t));
          t1 = fold expire_worker expired t
      in sweep_rooms now (hm_keys (vt_rooms t1)) t1)"

definition v2_poll_timeout :: "v2_table \<Rightarrow> instant option" where
  "v2_poll_timeout t =
     (let browser_timeout = earliest (concat (map (\<lambda>(k, r). map (\<lambda>(c, m). mb_reconnect_deadline m) (vr_members r))
            (filter (\<lambda>(k, r). vr_mode r = P2p \<or> (vr_mode r = Sfu \<and> vr_pending_leave r = None)) (vt_rooms t))));
          worker_timeout = earliest (map (\<lambda>(k, w). wk_disconnect_deadline w) (vt_workers t));
          downgrade_timeout = earliest (map (\<lambda>(k, r). vr_downgrade_deadline r) (vt_rooms t))
      in earliest [browser_timeout, worker_timeout, downgrade_timeout])"

end
