(* ===== verification/V2_Inv.thy ===== *)
theory V2_Inv
  imports V2_Timeout
begin

text \<open>
  The invariant of the V2 authority: what every room, every worker and the three maps of
  outstanding commands satisfy between operations, and the lemmas that carry its
  preservation through the small operations of the handlers.
\<close>

section \<open>Rooms\<close>

definition member_ok :: "room_mode \<Rightarrow> member \<Rightarrow> bool" where
  "member_ok mode m \<longleftrightarrow>
     length (mb_queued_messages m) \<le> MAX_QUEUED_MESSAGES \<and>
     (mode = Sfu \<longrightarrow> mb_queued_messages m = [] \<and> \<not> mb_is_initiator m)"

definition mode_ok :: "v2_room \<Rightarrow> bool" where
  "mode_ok r =
     (case vr_mode r of
        P2p \<Rightarrow> length (vr_members r) \<le> MAX_P2P_MEMBERS \<and> vr_upgrade r = None \<and>
          vr_pending_join r = None \<and> vr_pending_leave r = None \<and> vr_assigned_instance r = None \<and>
          vr_downgrade_deadline r = None
      | Upgrading \<Rightarrow> vr_upgrade r \<noteq> None
      | Sfu \<Rightarrow> vr_upgrade r = None \<and> vr_assigned_instance r \<noteq> None
      | Failed \<Rightarrow> True)"

definition upgrade_ok :: "upgrade \<Rightarrow> v2_room \<Rightarrow> bool" where
  "upgrade_ok u r \<longleftrightarrow>
     vr_assigned_instance r \<noteq> None \<and> vr_pending_join r = None \<and> vr_pending_leave r = None \<and>
     vr_downgrade_deadline r = None \<and>
     length (hm_remove (up_joining_client_id u) (vr_members r)) \<le> MAX_P2P_MEMBERS \<and>
     length (up_ordered_clients u) = 3 \<and> distinct (up_ordered_clients u) \<and>
     last (up_ordered_clients u) = up_joining_client_id u \<and>
     up_next_client u < 3 \<and> length (up_joined_clients u) = up_next_client u \<and>
     (vr_mode r = Upgrading \<longrightarrow> set (up_ordered_clients u) = fst ` set (vr_members r))"

definition v2_room_ok :: "v2_room \<Rightarrow> bool" where
  "v2_room_ok r \<longleftrightarrow>
     hm_all (\<lambda>c m. member_ok (vr_mode r) m) (vr_members r) \<and> mode_ok r \<and>
     (case vr_upgrade r of None \<Rightarrow> True | Some u \<Rightarrow> upgrade_ok u r)"

text \<open>A lifecycle id in use was handed out: it is at least 1 and not above the counter.\<close>

definition lives :: "(uuid \<times> member_id, u64) hashmap \<Rightarrow> uuid \<Rightarrow> member_id \<Rightarrow> u64 \<Rightarrow> bool" where
  "lives L rid cid l \<longleftrightarrow>
     1 \<le> l \<and> (case map_of L (rid, cid) of None \<Rightarrow> False | Some v \<Rightarrow> l \<le> v)"

definition room_good :: "(uuid \<times> member_id, u64) hashmap \<Rightarrow> uuid \<Rightarrow> v2_room \<Rightarrow> bool" where
  "room_good L rid r \<longleftrightarrow>
     v2_room_ok r \<and> hm_all (\<lambda>c m. lives L rid c (mb_lifecycle_id m)) (vr_members r)"

text \<open>Lifecycle counters only grow.\<close>

definition life_le :: "('k, u64) hashmap \<Rightarrow> ('k, u64) hashmap \<Rightarrow> bool" where
  "life_le L L' \<longleftrightarrow> (\<forall>k v. map_of L k = Some v \<longrightarrow> (\<exists>v'. map_of L' k = Some v' \<and> v \<le> v'))"

lemma life_le_refl [simp]: "life_le L L"
  by (simp add: life_le_def)

lemma life_le_trans [trans]: "life_le L M \<Longrightarrow> life_le M N \<Longrightarrow> life_le L N"
  unfolding life_le_def by (meson order_trans)

lemma lives_mono: "lives L rid cid l \<Longrightarrow> life_le L L' \<Longrightarrow> lives L' rid cid l"
  unfolding lives_def life_le_def by (fastforce split: option.splits intro: order_trans)

lemma hm_all_mono: "hm_all P m \<Longrightarrow> (\<And>k v. P k v \<Longrightarrow> Q k v) \<Longrightarrow> hm_all Q m"
  by (auto simp: hm_all_def)

lemma room_good_mono: "room_good L rid r \<Longrightarrow> life_le L L' \<Longrightarrow> room_good L' rid r"
  unfolding room_good_def by (auto elim!: hm_all_mono intro: lives_mono)

section \<open>Workers and commands\<close>

definition worker_ok :: "worker \<Rightarrow> bool" where
  "worker_ok w \<longleftrightarrow>
     distinct (wk_assigned_rooms w) \<and>
     distinct (wk_seen_events w) \<and> distinct (wk_seen_event_order w) \<and>
     set (wk_seen_events w) = set (wk_seen_event_order w) \<and>
     length (wk_seen_event_order w) \<le> EVENT_DEDUP_CAPACITY \<and>
     (wk_connection_id w \<noteq> None \<longrightarrow> wk_disconnect_deadline w = None) \<and>
     (wk_health w \<noteq> None \<longrightarrow> wk_connection_id w \<noteq> None)"

text \<open>
  The three maps of outstanding commands have the same keys, each command is filed under its
  own request id, and no id at or above the counter is in use, unless the counter has
  saturated at its maximum.
\<close>

definition cmds_ok :: "v2_table \<Rightarrow> bool" where
  "cmds_ok t \<longleftrightarrow>
     hm_ok (vt_pending_commands t) \<and> hm_ok (vt_command_workers t) \<and>
     hm_all (\<lambda>k c. cm_request_id c = k) (vt_unacknowledged_commands t) \<and>
     (\<forall>k. hm_contains (vt_unacknowledged_commands t) k \<longleftrightarrow> hm_contains (vt_pending_commands t) k) \<and>
     (\<forall>k. hm_contains (vt_command_workers t) k \<longleftrightarrow> hm_contains (vt_pending_commands t) k) \<and>
     (\<forall>k. hm_contains (vt_pending_commands t) k \<longrightarrow>
        k < vt_next_sfu_request_id t \<or> vt_next_sfu_request_id t = - 1) \<and>
     vt_next_sfu_request_id t \<noteq> 0"

definition v2_inv :: "v2_table \<Rightarrow> bool" where
  "v2_inv t \<longleftrightarrow>
     hm_all (room_good (vt_lifecycle_ids t)) (vt_rooms t) \<and>
     hm_all (\<lambda>k w. worker_ok w) (vt_workers t) \<and> hm_ok (vt_lifecycle_ids t) \<and> cmds_ok t"

lemma v2_invD:
  "v2_inv t \<Longrightarrow> map_of (vt_rooms t) rid = Some r \<Longrightarrow> room_good (vt_lifecycle_ids t) rid r"
  "v2_inv t \<Longrightarrow> map_of (vt_workers t) inst = Some w \<Longrightarrow> worker_ok w"
  by (auto simp: v2_inv_def dest: hm_allD)

section \<open>The small operations\<close>

lemma push_action_sel [simp]:
  "vt_rooms (push_action a t) = vt_rooms t" "vt_workers (push_action a t) = vt_workers t"
  "vt_lifecycle_ids (push_action a t) = vt_lifecycle_ids t"
  "vt_pending_commands (push_action a t) = vt_pending_commands t"
  "vt_unacknowledged_commands (push_action a t) = vt_unacknowledged_commands t"
  "vt_command_workers (push_action a t) = vt_command_workers t"
  "vt_next_sfu_request_id (push_action a t) = vt_next_sfu_request_id t"
  "vt_reconnect_grace (push_action a t) = vt_reconnect_grace t"
  "vt_downgrade_dwell (push_action a t) = vt_downgrade_dwell t"
  "vt_actions (push_action a t) = vt_actions t @ [a]"
  by (simp_all add: push_action_def)

lemma put_room_sel [simp]:
  "vt_rooms (put_room rid r t) = hm_insert rid r (vt_rooms t)"
  "vt_workers (put_room rid r t) = vt_workers t"
  "vt_lifecycle_ids (put_room rid r t) = vt_lifecycle_ids t"
  "vt_pending_commands (put_room rid r t) = vt_pending_commands t"
  "vt_unacknowledged_commands (put_room rid r t) = vt_unacknowledged_commands t"
  "vt_command_workers (put_room rid r t) = vt_command_workers t"
  "vt_next_sfu_request_id (put_room rid r t) = vt_next_sfu_request_id t"
  "vt_reconnect_grace (put_room rid r t) = vt_reconnect_grace t"
  "vt_downgrade_dwell (put_room rid r t) = vt_downgrade_dwell t"
  "vt_actions (put_room rid r t) = vt_actions t"
  by (simp_all add: put_room_def)

lemma drop_room_sel [simp]:
  "vt_rooms (drop_room rid t) = hm_remove rid (vt_rooms t)"
  "vt_workers (drop_room rid t) = vt_workers t"
  "vt_lifecycle_ids (drop_room rid t) = vt_lifecycle_ids t"
  "vt_pending_commands (drop_room rid t) = vt_pending_commands t"
  "vt_unacknowledged_commands (drop_room rid t) = vt_unacknowledged_commands t"
  "vt_command_workers (drop_room rid t) = vt_command_workers t"
  "vt_next_sfu_request_id (drop_room rid t) = vt_next_sfu_request_id t"
  "vt_reconnect_grace (drop_room rid t) = vt_reconnect_grace t"
  "vt_downgrade_dwell (drop_room rid t) = vt_downgrade_dwell t"
  "vt_actions (drop_room rid t) = vt_actions t"
  by (simp_all add: drop_room_def)

lemma put_worker_sel [simp]:
  "vt_rooms (put_worker inst w t) = vt_rooms t"
  "vt_workers (put_worker inst w t) = hm_insert inst w (vt_workers t)"
  "vt_lifecycle_ids (put_worker inst w t) = vt_lifecycle_ids t"
  "vt_pending_commands (put_worker inst w t) = vt_pending_commands t"
  "vt_unacknowledged_commands (put_worker inst w t) = vt_unacknowledged_commands t"
  "vt_command_workers (put_worker inst w t) = vt_command_workers t"
  "vt_next_sfu_request_id (put_worker inst w t) = vt_next_sfu_request_id t"
  "vt_reconnect_grace (put_worker inst w t) = vt_reconnect_grace t"
  "vt_downgrade_dwell (put_worker inst w t) = vt_downgrade_dwell t"
  "vt_actions (put_worker inst w t) = vt_actions t"
  by (simp_all add: put_worker_def)

lemma on_worker_sel [simp]:
  "vt_rooms (on_worker inst f t) = vt_rooms t"
  "vt_lifecycle_ids (on_worker inst f t) = vt_lifecycle_ids t"
  "vt_pending_commands (on_worker inst f t) = vt_pending_commands t"
  "vt_unacknowledged_commands (on_worker inst f t) = vt_unacknowledged_commands t"
  "vt_command_workers (on_worker inst f t) = vt_command_workers t"
  "vt_next_sfu_request_id (on_worker inst f t) = vt_next_sfu_request_id t"
  "vt_reconnect_grace (on_worker inst f t) = vt_reconnect_grace t"
  "vt_downgrade_dwell (on_worker inst f t) = vt_downgrade_dwell t"
  "vt_actions (on_worker inst f t) = vt_actions t"
  by (simp_all add: on_worker_def split: option.split)

lemma issue_command_sel [simp]:
  "vt_rooms (issue_command inst conn kind p t) = vt_rooms t"
  "vt_workers (issue_command inst conn kind p t) = vt_workers t"
  "vt_lifecycle_ids (issue_command inst conn kind p t) = vt_lifecycle_ids t"
  "vt_pending_commands (issue_command inst conn kind p t) =
     hm_insert (vt_next_sfu_request_id t) p (vt_pending_commands t)"
  "vt_unacknowledged_commands (issue_command inst conn kind p t) =
     hm_insert (vt_next_sfu_request_id t)
       \<lparr>cm_request_id = vt_next_sfu_request_id t, cm_command = kind\<rparr> (vt_unacknowledged_commands t)"
  "vt_command_workers (issue_command inst conn kind p t) =
     hm_insert (vt_next_sfu_request_id t) inst (vt_command_workers t)"
  "vt_next_sfu_request_id (issue_command inst conn kind p t) = max (sat_add (vt_next_sfu_request_id t) 1) 1"
  "vt_reconnect_grace (issue_command inst conn kind p t) = vt_reconnect_grace t"
  "vt_downgrade_dwell (issue_command inst conn kind p t) = vt_downgrade_dwell t"
  "vt_actions (issue_command inst conn kind p t) = vt_actions t @
     [ActionSfu (OutputCommand conn \<lparr>cm_request_id = vt_next_sfu_request_id t, cm_command = kind\<rparr>)]"
  by (simp_all add: issue_command_def next_command_id_def queue_command_def)

lemma forget_command_sel [simp]:
  "vt_rooms (forget_command req t) = vt_rooms t" "vt_workers (forget_command req t) = vt_workers t"
  "vt_lifecycle_ids (forget_command req t) = vt_lifecycle_ids t"
  "vt_pending_commands (forget_command req t) = hm_remove req (vt_pending_commands t)"
  "vt_unacknowledged_commands (forget_command req t) = hm_remove req (vt_unacknowledged_commands t)"
  "vt_command_workers (forget_command req t) = hm_remove req (vt_command_workers t)"
  "vt_next_sfu_request_id (forget_command req t) = vt_next_sfu_request_id t"
  "vt_reconnect_grace (forget_command req t) = vt_reconnect_grace t"
  "vt_downgrade_dwell (forget_command req t) = vt_downgrade_dwell t"
  "vt_actions (forget_command req t) = vt_actions t"
  by (simp_all add: forget_command_def)

lemma member_ops_sel [simp]:
  "vr_members (put_member cid m r) = hm_insert cid m (vr_members r)"
  "vr_members (remove_member cid r) = hm_remove cid (vr_members r)"
  "vr_mode (put_member cid m r) = vr_mode r" "vr_mode (remove_member cid r) = vr_mode r"
  "vr_signal_epoch (put_member cid m r) = vr_signal_epoch r"
  "vr_signal_epoch (remove_member cid r) = vr_signal_epoch r"
  "vr_assignment_epoch (put_member cid m r) = vr_assignment_epoch r"
  "vr_assignment_epoch (remove_member cid r) = vr_assignment_epoch r"
  "vr_assigned_instance (put_member cid m r) = vr_assigned_instance r"
  "vr_assigned_instance (remove_member cid r) = vr_assigned_instance r"
  "vr_upgrade (put_member cid m r) = vr_upgrade r" "vr_upgrade (remove_member cid r) = vr_upgrade r"
  "vr_pending_join (put_member cid m r) = vr_pending_join r"
  "vr_pending_join (remove_member cid r) = vr_pending_join r"
  "vr_pending_leave (put_member cid m r) = vr_pending_leave r"
  "vr_pending_leave (remove_member cid r) = vr_pending_leave r"
  "vr_downgrade_deadline (put_member cid m r) = vr_downgrade_deadline r"
  "vr_downgrade_deadline (remove_member cid r) = vr_downgrade_deadline r"
  by (simp_all add: put_member_def remove_member_def)

lemma cmds_ok_frame [simp]:
  "cmds_ok (push_action a t) = cmds_ok t" "cmds_ok (put_room rid r t) = cmds_ok t"
  "cmds_ok (drop_room rid t) = cmds_ok t" "cmds_ok (put_worker inst w t) = cmds_ok t"
  "cmds_ok (on_worker inst f t) = cmds_ok t"
  by (simp_all add: cmds_ok_def)

lemma sat_add_max [simp]: "sat_add (- 1) b = (- 1 :: 'a::len word)"
  using sat_add_ge [of "- 1" b] by (simp add: order_antisym_conv)

lemma next_id_bound: "n \<noteq> 0 \<Longrightarrow> n < max (sat_add n 1) 1 \<or> max (sat_add n 1) 1 = - 1" for n :: "64 word"
proof (cases "n = - 1")
  case True
  then show ?thesis by (simp only: sat_add_max) simp
next
  case False
  then show ?thesis using sat_add_one_gt [of n] by (simp add: less_max_iff_disj)
qed

lemma next_id_ge: "n \<le> max (sat_add n 1) 1" for n :: "64 word"
  using sat_add_ge [of n 1] by (simp add: le_max_iff_disj)

lemma cmds_ok_issue [simp]: "cmds_ok t \<Longrightarrow> cmds_ok (issue_command inst conn kind p t)"
proof -
  assume t: "cmds_ok t"
  let ?n = "vt_next_sfu_request_id t" and ?n' = "max (sat_add (vt_next_sfu_request_id t) 1) 1"
  have n: "?n \<noteq> 0" using t by (simp add: cmds_ok_def)
  have old: "k < ?n' \<or> ?n' = - 1" if "hm_contains (vt_pending_commands t) k" for k
  proof -
    from t that have "k < ?n \<or> ?n = - 1" by (simp add: cmds_ok_def)
    then show ?thesis
    proof
      assume "k < ?n"
      with next_id_ge [of ?n] show ?thesis by (meson order_less_le_trans)
    next
      assume "?n = - 1"
      then show ?thesis by (simp only: sat_add_max) simp
    qed
  qed
  have "(0 :: 64 word) < 1" by simp
  also have "1 \<le> ?n'" by simp
  finally have "?n' \<noteq> 0" by auto
  with t old next_id_bound [OF n] show ?thesis
    unfolding cmds_ok_def by (auto simp del: max_def)
qed

lemma cmds_ok_forget [simp]: "cmds_ok t \<Longrightarrow> cmds_ok (forget_command req t)"
  by (auto simp: cmds_ok_def)

lemma cmds_ok_forgets [simp]: "cmds_ok t \<Longrightarrow> cmds_ok (fold forget_command reqs t)"
  by (induction reqs arbitrary: t) simp_all

lemma v2_inv_push_action [simp]: "v2_inv (push_action a t) = v2_inv t"
  by (simp add: v2_inv_def)

lemma v2_inv_put_room [intro]:
  "v2_inv t \<Longrightarrow> room_good (vt_lifecycle_ids t) rid r \<Longrightarrow> v2_inv (put_room rid r t)"
  by (simp add: v2_inv_def hm_all_insert)

lemma v2_inv_drop_room [simp, intro]: "v2_inv t \<Longrightarrow> v2_inv (drop_room rid t)"
  by (simp add: v2_inv_def hm_all_remove)

lemma v2_inv_put_worker [intro]: "v2_inv t \<Longrightarrow> worker_ok w \<Longrightarrow> v2_inv (put_worker inst w t)"
  by (simp add: v2_inv_def hm_all_insert)

lemma v2_inv_on_worker [intro]:
  "v2_inv t \<Longrightarrow> (\<And>w. worker_ok w \<Longrightarrow> worker_ok (f w)) \<Longrightarrow> v2_inv (on_worker inst f t)"
  by (auto simp: on_worker_def dest: v2_invD(2) split: option.split)

lemma v2_inv_issue_command [simp, intro]: "v2_inv t \<Longrightarrow> v2_inv (issue_command inst conn kind p t)"
  by (simp add: v2_inv_def)

lemma v2_inv_forget_command [simp, intro]: "v2_inv t \<Longrightarrow> v2_inv (forget_command req t)"
  by (simp add: v2_inv_def)

lemma v2_inv_forget_commands [simp, intro]: "v2_inv t \<Longrightarrow> v2_inv (fold forget_command reqs t)"
  by (induction reqs arbitrary: t) auto

lemma next_lifecycle_sel [simp]:
  "next_lifecycle rid cid t = (t1, l) \<Longrightarrow>
     t1 = t\<lparr>vt_lifecycle_ids := hm_insert (rid, cid) l (vt_lifecycle_ids t)\<rparr> \<and> 1 \<le> l \<and>
     (\<forall>v. map_of (vt_lifecycle_ids t) (rid, cid) = Some v \<longrightarrow> v \<le> l)"
  using sat_add_ge [of "the (map_of (vt_lifecycle_ids t) (rid, cid))" 1]
  by (auto simp: next_lifecycle_def Let_def le_max_iff_disj split: option.splits)

declare next_lifecycle_sel [simp del]

lemma next_lifecycle_le:
  "next_lifecycle rid cid t = (t1, l) \<Longrightarrow>
     life_le (vt_lifecycle_ids t) (vt_lifecycle_ids t1) \<and> lives (vt_lifecycle_ids t1) rid cid l"
  by (drule next_lifecycle_sel) (auto simp: life_le_def lives_def)

lemma v2_inv_next_lifecycle:
  assumes "v2_inv t" "next_lifecycle rid cid t = (t1, l)"
  shows "v2_inv t1 \<and> life_le (vt_lifecycle_ids t) (vt_lifecycle_ids t1) \<and> lives (vt_lifecycle_ids t1) rid cid l"
  using next_lifecycle_sel [OF assms(2)] next_lifecycle_le [OF assms(2)] assms(1)
  by (auto simp: v2_inv_def cmds_ok_def intro: hm_all_mono room_good_mono)

section \<open>Updates of a room\<close>

lemma keys_insert_present: "hm_contains m k \<Longrightarrow> map fst (hm_insert k v m) = map fst m"
  by (induction m) auto

lemma length_remove_keys: "hm_ok m \<Longrightarrow> length (hm_remove k m) = length (filter (\<lambda>x. x \<noteq> k) (map fst m))"
  by (induction m) auto

lemma upgrade_ok_keys:
  assumes "upgrade_ok u r" "map fst (vr_members r') = map fst (vr_members r)"
    "vr_assigned_instance r' = vr_assigned_instance r" "vr_pending_join r' = vr_pending_join r"
    "vr_pending_leave r' = vr_pending_leave r" "vr_downgrade_deadline r' = vr_downgrade_deadline r"
    "vr_mode r' = vr_mode r"
  shows "upgrade_ok u r'"
proof -
  have "fst ` set (vr_members r') = fst ` set (vr_members r)"
    using assms(2) by (metis list.set_map)
  moreover have "length (hm_remove k (vr_members r')) = length (hm_remove k (vr_members r))" for k
    using assms(2) by (metis AList.delete_eq filter_map length_map comp_def case_prod_beta' delete_keys)
  ultimately show ?thesis using assms unfolding upgrade_ok_def by simp
qed

lemma v2_room_ok_same_keys:
  assumes "v2_room_ok r" "map fst M = map fst (vr_members r)" "hm_all (\<lambda>c m. member_ok (vr_mode r) m) M"
  shows "v2_room_ok (r\<lparr>vr_members := M\<rparr>)"
proof -
  have "length M = length (vr_members r)" using assms(2) by (metis length_map)
  with assms upgrade_ok_keys [of _ r "r\<lparr>vr_members := M\<rparr>"] show ?thesis
    by (auto simp: v2_room_ok_def mode_ok_def split: option.splits room_mode.splits)
qed

lemma room_good_put_member:
  assumes "room_good L rid r" "hm_contains (vr_members r) cid" "member_ok (vr_mode r) m"
    "lives L rid cid (mb_lifecycle_id m)"
  shows "room_good L rid (put_member cid m r)"
  using assms v2_room_ok_same_keys [of r "hm_insert cid m (vr_members r)"] keys_insert_present [OF assms(2), of m]
  by (simp add: room_good_def put_member_def v2_room_ok_def hm_all_insert)

text \<open>Changing the members' fields in place, keys and lifecycles kept.\<close>

lemma room_good_map_members:
  assumes "room_good L rid r"
    "\<And>c m. member_ok (vr_mode r) m \<Longrightarrow> member_ok (vr_mode r) (f c m) \<and> mb_lifecycle_id (f c m) = mb_lifecycle_id m"
  shows "room_good L rid (r\<lparr>vr_members := map (\<lambda>(c, m). (c, f c m)) (vr_members r)\<rparr>)"
proof -
  have k: "map fst (map (\<lambda>(c, m). (c, f c m)) (vr_members r)) = map fst (vr_members r)" by auto
  have "hm_all (\<lambda>c m. member_ok (vr_mode r) m \<and> lives L rid c (mb_lifecycle_id m)) (vr_members r)"
    using assms(1) by (auto simp: room_good_def v2_room_ok_def hm_all_def)
  then have "hm_all (\<lambda>c m. member_ok (vr_mode r) m \<and> lives L rid c (mb_lifecycle_id m))
      (map (\<lambda>(c, m). (c, f c m)) (vr_members r))"
    unfolding hm_all_def k using assms(2) by fastforce
  then have "hm_all (\<lambda>c m. member_ok (vr_mode r) m) (map (\<lambda>(c, m). (c, f c m)) (vr_members r))"
    "hm_all (\<lambda>c m. lives L rid c (mb_lifecycle_id m)) (map (\<lambda>(c, m). (c, f c m)) (vr_members r))"
    by (auto elim: hm_all_mono)
  with v2_room_ok_same_keys [OF _ k] assms(1) show ?thesis by (simp add: room_good_def)
qed

lemma room_good_remove_member:
  assumes "room_good L rid r" "vr_mode r \<noteq> Upgrading"
  shows "room_good L rid (remove_member cid r)"
proof -
  have "length (hm_remove c (hm_remove cid m)) \<le> length (hm_remove c m)"
    for c and m :: "(member_id, member) hashmap"
    by (subst delete_twist) (rule length_delete_le)
  then have "upgrade_ok u r \<Longrightarrow> upgrade_ok u (remove_member cid r)" for u
    using assms(2) unfolding upgrade_ok_def by (auto intro: order_trans)
  moreover have "length (hm_remove cid (vr_members r)) \<le> length (vr_members r)"
    by (rule length_delete_le)
  ultimately show ?thesis
    using assms by (auto simp: room_good_def v2_room_ok_def mode_ok_def hm_all_remove
        split: option.splits room_mode.splits)
qed

lemma room_good_failed: "room_good L rid r \<Longrightarrow> room_good L rid (r\<lparr>vr_mode := Failed\<rparr>)"
  by (auto simp: room_good_def v2_room_ok_def mode_ok_def upgrade_ok_def member_ok_def
      elim!: hm_all_mono split: option.splits)

lemma room_good_clear:
  assumes "room_good L rid r"
  shows "room_good L rid (r\<lparr>vr_pending_join := None\<rparr>)" "room_good L rid (r\<lparr>vr_pending_leave := None\<rparr>)"
    "room_good L rid (r\<lparr>vr_downgrade_deadline := None\<rparr>)"
  using assms
  by (auto simp: room_good_def v2_room_ok_def mode_ok_def upgrade_ok_def split: option.splits room_mode.splits)

lemma room_good_sfu_pending:
  assumes "room_good L rid r" "vr_mode r = Sfu"
  shows "room_good L rid (r\<lparr>vr_pending_leave := x\<rparr>)" "room_good L rid (r\<lparr>vr_downgrade_deadline := d\<rparr>)"
    "room_good L rid (r\<lparr>vr_pending_join := y, vr_downgrade_deadline := d\<rparr>)"
  using assms by (auto simp: room_good_def v2_room_ok_def mode_ok_def split: option.splits)

lemma room_good_add_member:
  assumes "room_good L rid r" "lives L rid cid (mb_lifecycle_id m)" "member_ok (vr_mode r) m"
    "vr_mode r = Sfu \<or> vr_mode r = P2p \<and> length (vr_members r) < MAX_P2P_MEMBERS"
  shows "room_good L rid (put_member cid m r)"
  using assms
  by (auto simp: room_good_def v2_room_ok_def mode_ok_def length_hm_insert hm_all_insert split: option.splits)

lemma member_ok_new [simp]:
  "member_ok mode (new_member now grace token i l) \<longleftrightarrow> (mode = Sfu \<longrightarrow> \<not> i)"
  by (simp add: member_ok_def new_member_def)

lemma new_member_sel [simp]:
  "mb_token (new_member now grace token i l) = token"
  "mb_is_initiator (new_member now grace token i l) = i"
  "mb_lifecycle_id (new_member now grace token i l) = l"
  "mb_registered (new_member now grace token i l) = False"
  "mb_reconnect_deadline (new_member now grace token i l) = Some (now + grace)"
  "mb_queued_messages (new_member now grace token i l) = []"
  by (simp_all add: new_member_def)

lemma room_good_new:
  "lives L rid cid l \<Longrightarrow> room_good L rid (new_v2_room [(cid, new_member now grace token True l)])"
  by (simp add: room_good_def v2_room_ok_def mode_ok_def new_v2_room_def MAX_P2P_MEMBERS_def)

lemma member_ok_updates [simp]:
  "member_ok mode m \<Longrightarrow> member_ok mode (m\<lparr>mb_registered := b\<rparr>)"
  "member_ok mode m \<Longrightarrow> member_ok mode (m\<lparr>mb_reconnect_deadline := d\<rparr>)"
  "member_ok mode m \<Longrightarrow> member_ok mode (m\<lparr>mb_registered := b, mb_reconnect_deadline := d\<rparr>)"
  "member_ok mode m \<Longrightarrow> member_ok mode (m\<lparr>mb_queued_messages := []\<rparr>)"
  "mode \<noteq> Sfu \<Longrightarrow> member_ok mode (m\<lparr>mb_is_initiator := b, mb_queued_messages := []\<rparr>)"
  by (simp_all add: member_ok_def)

lemma room_good_member:
  "room_good L rid r \<Longrightarrow> map_of (vr_members r) cid = Some m \<Longrightarrow>
     member_ok (vr_mode r) m \<and> lives L rid cid (mb_lifecycle_id m)"
  by (auto simp: room_good_def v2_room_ok_def dest: hm_allD)

lemma room_good_promote:
  "room_good L rid r \<Longrightarrow> room_good L rid (fst (promote_survivor rid' r))"
proof -
  assume r: "room_good L rid r"
  show ?thesis
  proof (cases "length (vr_members r) \<noteq> 1 \<or> vr_mode r \<noteq> P2p")
    case True
    with r show ?thesis by (auto simp: promote_survivor_def)
  next
    case False
    then obtain cid m where m: "vr_members r = [(cid, m)]" "vr_mode r = P2p"
      by (cases "vr_members r") auto
    then have "map_of (vr_members r) cid = Some m" by simp
    from room_good_member [OF r this]
    have "room_good L rid (put_member cid (m\<lparr>mb_is_initiator := True, mb_queued_messages := []\<rparr>) r)"
      using m by (intro room_good_put_member [OF r]) simp_all
    with m show ?thesis by (simp add: promote_survivor_def put_member_def)
  qed
qed

end
