(* ===== verification/V2_Browser_Inv.thy ===== *)
theory V2_Browser_Inv
  imports V2_Inv
begin

text \<open>
  The browser operations of the V2 authority keep its invariant and never panic: one lemma
  per operation, over the lemmas of the small operations.
\<close>

section \<open>Upgrades\<close>

lemma v2_inv_upgradeD:
  assumes "v2_inv t" "map_of (vt_rooms t) rid = Some r" "vr_upgrade r = Some u"
  shows "upgrade_ok u r"
  using v2_invD(1) [OF assms(1,2)] assms(3) by (simp add: room_good_def v2_room_ok_def)

lemma issue_next_upgrade_join_frame:
  "issue_next_upgrade_join rid t = (t', res) \<Longrightarrow>
     t' = t \<or> (\<exists>inst conn kind p. t' = issue_command inst conn kind p t)"
  by (auto simp: issue_next_upgrade_join_def Let_def split: option.splits if_splits)

lemma issue_next_upgrade_join_inv [preserves]:
  assumes "v2_inv t"
  shows "v2_inv (fst (issue_next_upgrade_join rid t)) \<and> snd (issue_next_upgrade_join rid t) \<noteq> Panicked"
proof -
  obtain t' res where i: "issue_next_upgrade_join rid t = (t', res)" by force
  have "res \<noteq> Panicked"
    using i v2_inv_upgradeD [OF assms]
    by (auto simp: issue_next_upgrade_join_def Let_def upgrade_ok_def split: option.splits if_splits)
  moreover have "v2_inv t'"
    using issue_next_upgrade_join_frame [OF i] assms by auto
  ultimately show ?thesis by (simp add: i)
qed

text \<open>
  While an upgrade is being set up, the room is already upgrading and its upgrade record is
  still to come. The table is staged when filling in the record gives a table that
  satisfies the invariant; refreshing the lifecycle ids keeps it staged.
\<close>

definition staged :: "uuid \<Rightarrow> upgrade \<Rightarrow> member_id list \<Rightarrow> v2_table \<Rightarrow> bool" where
  "staged rid u cids t \<longleftrightarrow>
     (case map_of (vt_rooms t) rid of
        None \<Rightarrow> False
      | Some r \<Rightarrow> (\<forall>c \<in> set cids. hm_contains (vr_members r) c) \<and>
          v2_inv (put_room rid (r\<lparr>vr_upgrade := Some u\<rparr>) t))"

lemma put_room_twice [simp]: "put_room rid r' (put_room rid r t) = put_room rid r' t"
  by (simp add: put_room_def update_last)

lemma next_lifecycle_put_room:
  "next_lifecycle rid cid t = (t1, l) \<Longrightarrow>
     next_lifecycle rid cid (put_room rid' r t) = (put_room rid' r t1, l) \<and> vt_rooms t1 = vt_rooms t \<and>
     vt_workers t1 = vt_workers t"
  by (auto simp: next_lifecycle_def put_room_def Let_def)

lemma staged_member:
  assumes "staged rid u cids t" "map_of (vt_rooms t) rid = Some r" "map_of (vr_members r) cid = Some m"
    "lives (vt_lifecycle_ids t) rid cid l" "set cids' \<subseteq> set cids"
  shows "staged rid u cids' (put_room rid (put_member cid (m\<lparr>mb_lifecycle_id := l\<rparr>) r) t)"
proof -
  let ?r = "r\<lparr>vr_upgrade := Some u\<rparr>"
  have inv: "v2_inv (put_room rid ?r t)" "\<forall>c \<in> set cids. hm_contains (vr_members r) c"
    using assms(1,2) by (auto simp: staged_def)
  have good: "room_good (vt_lifecycle_ids t) rid ?r"
    using v2_invD(1) [OF inv(1), of rid ?r] by simp
  have mode: "member_ok (vr_mode r) m"
    using room_good_member [OF good, of cid m] assms(3) by simp
  then have "member_ok (vr_mode r) (m\<lparr>mb_lifecycle_id := l\<rparr>)" by (simp add: member_ok_def)
  with assms(3,4) have "room_good (vt_lifecycle_ids t) rid (put_member cid (m\<lparr>mb_lifecycle_id := l\<rparr>) ?r)"
    by (intro room_good_put_member [OF good]) simp_all
  then have "v2_inv (put_room rid (put_member cid (m\<lparr>mb_lifecycle_id := l\<rparr>) ?r) t)"
    using v2_inv_put_room [OF inv(1), of rid "put_member cid (m\<lparr>mb_lifecycle_id := l\<rparr>) ?r"] by simp
  moreover have "put_member cid (m\<lparr>mb_lifecycle_id := l\<rparr>) ?r =
      (put_member cid (m\<lparr>mb_lifecycle_id := l\<rparr>) r)\<lparr>vr_upgrade := Some u\<rparr>"
    by (simp add: put_member_def)
  ultimately show ?thesis using inv(2) assms(5) by (auto simp: staged_def)
qed

lemma refresh_lifecycles_staged:
  "staged rid u cids t \<Longrightarrow> refresh_lifecycles rid cids t = (t', res) \<Longrightarrow>
     staged rid u [] t' \<and> res = Ok () \<and> vt_workers t' = vt_workers t"
proof (induction cids arbitrary: t)
  case Nil
  then show ?case by (auto simp: staged_def split: option.splits)
next
  case (Cons c cids)
  obtain t1 l where l: "next_lifecycle rid c t = (t1, l)" by force
  obtain r where r: "map_of (vt_rooms t) rid = Some r" and inv: "v2_inv (put_room rid (r\<lparr>vr_upgrade := Some u\<rparr>) t)"
    and mem: "\<forall>c \<in> set (c # cids). hm_contains (vr_members r) c"
    using Cons.prems(1) by (auto simp: staged_def split: option.splits)
  obtain m where m: "map_of (vr_members r) c = Some m" using mem by auto
  note l' = next_lifecycle_put_room [OF l, of rid "r\<lparr>vr_upgrade := Some u\<rparr>"]
  have inv1: "v2_inv (put_room rid (r\<lparr>vr_upgrade := Some u\<rparr>) t1)" "lives (vt_lifecycle_ids t1) rid c l"
    using v2_inv_next_lifecycle [OF inv, of rid c] l' by auto
  then have "staged rid u (c # cids) t1" using r l' mem by (auto simp: staged_def)
  from staged_member [OF this _ m inv1(2), of cids] r l'
  have "staged rid u cids (put_room rid (put_member c (m\<lparr>mb_lifecycle_id := l\<rparr>) r) t1)" by auto
  moreover have "refresh_lifecycles rid cids (put_room rid (put_member c (m\<lparr>mb_lifecycle_id := l\<rparr>) r) t1) = (t', res)"
    using Cons.prems(2) l r m l' by simp
  ultimately show ?case using Cons.IH l' by fastforce
qed

lemma worker_ok_assign [simp]:
  "worker_ok w \<Longrightarrow> worker_ok (w\<lparr>wk_assigned_rooms := List.insert rid (wk_assigned_rooms w), wk_assigned_clients := n\<rparr>)"
  "worker_ok w \<Longrightarrow> worker_ok (w\<lparr>wk_assigned_clients := n\<rparr>)"
  "worker_ok w \<Longrightarrow> worker_ok (release_worker rid k w)"
  by (simp_all add: worker_ok_def release_worker_def distinct_removeAll)

lemma upgrade_order_set:
  "hm_ok (vr_members r) \<Longrightarrow> hm_contains (vr_members r) cid \<Longrightarrow>
     set (upgrade_order cid r) = fst ` set (vr_members r) \<and> distinct (upgrade_order cid r) \<and>
     last (upgrade_order cid r) = cid \<and> length (upgrade_order cid r) = length (vr_members r)"
proof -
  assume ok: "hm_ok (vr_members r)" "hm_contains (vr_members r) cid"
  then have d: "distinct (upgrade_order cid r)" by (simp add: upgrade_order_def)
  have "cid \<in> fst ` set (vr_members r)" using ok(2) by (simp only: hm_keys_iff not_False_eq_True)
  then have s: "set (upgrade_order cid r) = fst ` set (vr_members r)" by (auto simp: upgrade_order_def)
  have "length (upgrade_order cid r) = card (fst ` set (vr_members r))"
    using distinct_card [OF d] by (simp only: s)
  also have "\<dots> = length (vr_members r)" using distinct_card [OF ok(1)] by simp
  finally show ?thesis using d s by (simp add: upgrade_order_def)
qed

lemma begin_upgrade_inv [preserves]:
  assumes t: "v2_inv t" and r: "map_of (vt_rooms t) rid = Some room" "vr_mode room = P2p"
    and full: "length (vr_members room) = 2" and new: "map_of (vr_members room) cid = None"
    and w: "hm_contains (vt_workers t) inst"
  shows "v2_inv (fst (begin_upgrade areq now rid cid token inst room t)) \<and>
    snd (begin_upgrade areq now rid cid token inst room t) \<noteq> Panicked"
proof -
  obtain t1 l where l: "next_lifecycle rid cid t = (t1, l)" by force
  note l1 = v2_inv_next_lifecycle [OF t l] next_lifecycle_put_room [OF l, of undefined undefined]
  define room1 where "room1 = (put_member cid (new_member now (vt_reconnect_grace t) token False l) room)
      \<lparr>vr_mode := Upgrading, vr_assignment_epoch := sat_add (vr_assignment_epoch room) 1,
       vr_assigned_instance := Some inst\<rparr>"
  define ordered where "ordered = upgrade_order cid room1"
  define u where "u = \<lparr>up_authority_request_id = areq, up_joining_client_id = cid,
      up_ordered_clients = ordered, up_joined_clients = [], up_next_client = 0\<rparr>"
  have good: "room_good (vt_lifecycle_ids t1) rid room"
    using l1 v2_invD(1) [of t1 rid room] r by simp
  have ord: "set ordered = fst ` set (vr_members room1)" "distinct ordered" "last ordered = cid"
    "length ordered = 3"
    using upgrade_order_set [of room1 cid] good full new
    by (auto simp: ordered_def room1_def room_good_def v2_room_ok_def hm_all_def length_hm_insert)
  have "room_good (vt_lifecycle_ids t1) rid (room1\<lparr>vr_upgrade := Some u\<rparr>)"
    using good ord l1 r(2) full new
    by (auto simp: room_good_def v2_room_ok_def mode_ok_def upgrade_ok_def room1_def u_def
        MAX_P2P_MEMBERS_def delete_update_same length_hm_insert member_ok_def hm_all_insert
        elim: hm_all_mono)
  then have "staged rid u (filter (\<lambda>c. c \<noteq> cid) ordered) (put_room rid room1 t1)"
    using l1 ord(1) by (auto simp: staged_def hm_keys_iff [symmetric] simp del: not_None_eq not_Some_eq)
  from refresh_lifecycles_staged [OF this prod.collapse [symmetric]]
  obtain t2 where t2: "refresh_lifecycles rid (filter (\<lambda>c. c \<noteq> cid) ordered) (put_room rid room1 t1) = (t2, Ok ())"
    "staged rid u [] t2" "vt_workers t2 = vt_workers t"
    using l1 by (metis prod.collapse put_room_sel(2))
  obtain r2 where r2: "map_of (vt_rooms t2) rid = Some r2" "v2_inv (put_room rid (r2\<lparr>vr_upgrade := Some u\<rparr>) t2)"
    using t2(2) by (auto simp: staged_def split: option.splits)
  obtain wk where wk: "map_of (vt_workers t2) inst = Some wk" using w t2(3) by auto
  let ?t3 = "put_worker inst (wk\<lparr>wk_assigned_rooms := List.insert rid (wk_assigned_rooms wk),
      wk_assigned_clients := sat_add (wk_assigned_clients wk) 3\<rparr>) (put_room rid (r2\<lparr>vr_upgrade := Some u\<rparr>) t2)"
  have "worker_ok wk" using v2_invD(2) [OF t] wk t2(3) by simp
  then have "v2_inv ?t3" using r2(2) by auto
  from issue_next_upgrade_join_inv [OF this, of rid]
  have *: "v2_inv (fst (issue_next_upgrade_join rid ?t3))" "snd (issue_next_upgrade_join rid ?t3) \<noteq> Panicked"
    by simp_all
  have "begin_upgrade areq now rid cid token inst room t =
      (case issue_next_upgrade_join rid ?t3 of
         (t4, Inl e) \<Rightarrow> (t4, Inl e) | (t4, Inr _) \<Rightarrow> (t4, Ok AdmissionPending))"
    by (simp add: begin_upgrade_def l room1_def [symmetric] ordered_def [symmetric] u_def [symmetric]
        t2(1) r2(1) wk Let_def)
  with * show ?thesis by (auto split: prod.splits sum.splits)
qed

lemma select_worker_known: "select_worker n t = Some inst \<Longrightarrow> hm_contains (vt_workers t) inst"
proof -
  let ?ws = "filter (\<lambda>(k, w). worker_available n w) (vt_workers t)"
  assume s: "select_worker n t = Some inst"
  then obtain load loads where m: "map worker_load ?ws = load # loads"
    by (auto simp: select_worker_def split: list.splits)
  have "fold min loads load = Min (set (map worker_load ?ws))"
    by (simp only: m Min.set_eq_fold [symmetric])
  also have "\<dots> \<in> set (map worker_load ?ws)" by (rule Min_in) (simp_all only: m, simp_all)
  finally obtain k w where "(k, w) \<in> set (vt_workers t)" "fold min loads load = worker_load (k, w)"
    by auto
  with s m show ?thesis
    by (auto simp: select_worker_def worker_load_def weak_map_of_SomeI)
qed

lemma admit_to_sfu_inv [preserves]:
  assumes t: "v2_inv t" and r: "map_of (vt_rooms t) rid = Some room" "vr_mode room = Sfu"
  shows "v2_inv (fst (admit_to_sfu areq now rid cid token room t)) \<and>
    snd (admit_to_sfu areq now rid cid token room t) \<noteq> Panicked"
proof -
  obtain t1 l where l: "next_lifecycle rid cid t = (t1, l)" by force
  note l1 = v2_inv_next_lifecycle [OF t l] next_lifecycle_put_room [OF l, of undefined undefined]
  have "room_good (vt_lifecycle_ids t1) rid room" using l1 v2_invD(1) [of t1 rid room] r by simp
  then have "room_good (vt_lifecycle_ids t1) rid
      (put_member cid (new_member now (vt_reconnect_grace t) token False l) room)"
    using l1 r(2) by (intro room_good_add_member) simp_all
  from room_good_sfu_pending(3) [OF this] r(2) l1 t show ?thesis
    by (auto simp: admit_to_sfu_def l Let_def split: option.split)
qed

lemma admit_inv [preserves]:
  assumes t: "v2_inv t"
  shows "v2_inv (fst (admit areq now rid cid token t)) \<and> snd (admit areq now rid cid token t) \<noteq> Panicked"
proof -
  obtain t1 l where l: "next_lifecycle rid cid t = (t1, l)" by force
  note l1 = v2_inv_next_lifecycle [OF t l] next_lifecycle_put_room [OF l, of undefined undefined]
  show ?thesis
  proof (cases "map_of (vt_rooms t) rid")
    case None
    with l1 show ?thesis by (auto simp: admit_def l room_good_new)
  next
    case (Some room)
    have good: "room_good (vt_lifecycle_ids t1) rid room" using l1 v2_invD(1) [of t1 rid room] Some by simp
    have add: "room_good (vt_lifecycle_ids t1) rid
        (put_member cid (new_member now (vt_reconnect_grace t) token False l) room)"
      if "vr_mode room = P2p" "length (vr_members room) < MAX_P2P_MEMBERS"
      using that l1 by (intro room_good_add_member [OF good]) simp_all
    have full: "length (vr_members room) = 2" if "vr_mode room = P2p" "\<not> length (vr_members room) < MAX_P2P_MEMBERS"
      using good that by (simp add: room_good_def v2_room_ok_def mode_ok_def MAX_P2P_MEMBERS_def)
    show ?thesis
      using t l1 add full admit_to_sfu_inv [OF t Some] begin_upgrade_inv [OF t Some] select_worker_known
      by (auto simp: admit_def Some l split: room_mode.split option.split prod.split)
  qed
qed

section \<open>Registration, leaves and sending\<close>

lemma others_drained_good:
  "room_good L rid r \<Longrightarrow> room_good L rid (drain_others cid r)"
  using room_good_map_members [of L rid r "\<lambda>k m. if k \<noteq> cid then m\<lparr>mb_queued_messages := []\<rparr> else m"]
  by (simp add: drain_others_def)

lemma v2_register_inv [preserves]:
  assumes t: "v2_inv t"
  shows "v2_inv (fst (v2_register rid cid token t)) \<and> snd (v2_register rid cid token t) \<noteq> Panicked"
proof -
  have "room_good (vt_lifecycle_ids t) rid
      (put_member cid (m\<lparr>mb_registered := True, mb_reconnect_deadline := None\<rparr>) r)"
    if "map_of (vt_rooms t) rid = Some r" "map_of (vr_members r) cid = Some m" for r m
    using v2_invD(1) [OF t that(1)] room_good_member [OF v2_invD(1) [OF t that(1)] that(2)] that(2)
    by (intro room_good_put_member) simp_all
  with t show ?thesis
    by (auto simp: v2_register_def Let_def others_drained_good split: option.split)
qed

lemma issue_sfu_leave_inv [preserves]:
  assumes t: "v2_inv t"
  shows "v2_inv (fst (issue_sfu_leave rid cid reason t))"
proof (cases "map_of (vt_rooms t) rid")
  case None
  with t show ?thesis by (simp add: issue_sfu_leave_def)
next
  case (Some room)
  with t v2_inv_put_room [OF t room_good_sfu_pending(1) [OF v2_invD(1) [OF t Some]]] show ?thesis
    by (auto simp: issue_sfu_leave_def split: option.split)
qed

lemma arm_reconnect_inv [preserves]:
  assumes t: "v2_inv t"
  shows "v2_inv (arm_reconnect now rid cid t)"
proof -
  have "room_good (vt_lifecycle_ids t) rid (put_member cid (m\<lparr>mb_reconnect_deadline := d\<rparr>) r)"
    if "map_of (vt_rooms t) rid = Some r" "map_of (vr_members r) cid = Some m" for r m d
    using v2_invD(1) [OF t that(1)] room_good_member [OF v2_invD(1) [OF t that(1)] that(2)] that(2)
    by (intro room_good_put_member) simp_all
  with t show ?thesis by (auto simp: arm_reconnect_def split: option.split)
qed

lemma v2_deregister_inv [preserves]:
  assumes t: "v2_inv t"
  shows "v2_inv (v2_deregister now rid cid t)"
proof -
  have put: "v2_inv (put_room rid (put_member cid (m\<lparr>mb_registered := False\<rparr>) r) t)"
    if "map_of (vt_rooms t) rid = Some r" "map_of (vr_members r) cid = Some m" for r m
    using t v2_invD(1) [OF t that(1)] room_good_member [OF v2_invD(1) [OF t that(1)] that(2)] that(2)
    by (intro v2_inv_put_room room_good_put_member) simp_all
  have leave: "issue_sfu_leave rid cid reason t' = (t'', b) \<Longrightarrow> v2_inv t' \<Longrightarrow> v2_inv t''" for reason t' t'' b
    using issue_sfu_leave_inv [of t' rid cid reason] by simp
  show ?thesis
    using t put leave arm_reconnect_inv
    by (auto simp: v2_deregister_def Let_def split: option.split prod.split bool.split)
qed

lemma queue_for_peer_inv:
  assumes t: "v2_inv t" and r: "map_of (vt_rooms t) rid = Some room" "vr_mode room \<noteq> Sfu"
    and m: "map_of (vr_members room) cid = Some m"
  shows "v2_inv (fst (queue_for_peer rid cid msg room t)) \<and> snd (queue_for_peer rid cid msg room t) \<noteq> Panicked"
proof -
  note good = v2_invD(1) [OF t r(1)]
  note mem = room_good_member [OF good m]
  obtain m' res where p: "push_queued msg m = (m', res)" by force
  have "member_ok (vr_mode room) m' \<and> mb_lifecycle_id m' = mb_lifecycle_id m \<and> res \<noteq> Panicked"
    using p mem r(2) by (auto simp: push_queued_def member_ok_def split: if_splits)
  with mem m t show ?thesis
    using room_good_put_member [OF good, of cid m']
    by (auto simp: queue_for_peer_def m p split: sum.split)
qed

lemma v2_send_inv [preserves]:
  assumes t: "v2_inv t"
  shows "v2_inv (fst (v2_send rid cid epoch msg t)) \<and> snd (v2_send rid cid epoch msg t) \<noteq> Panicked"
  using t queue_for_peer_inv [OF t]
  by (auto simp: v2_send_def split: option.split)

lemma v2_remove_inv [preserves]:
  assumes t: "v2_inv t"
  shows "v2_inv (fst (v2_remove areq rid cid token t)) \<and> snd (v2_remove areq rid cid token t) \<noteq> Panicked"
proof (cases "map_of (vt_rooms t) rid")
  case None
  with t show ?thesis by (simp add: v2_remove_def)
next
  case (Some room)
  note good = v2_invD(1) [OF t Some]
  have rem: "v2_inv (put_room rid (remove_member cid room) t)" if "vr_mode room \<noteq> Upgrading"
    using room_good_remove_member [OF good that] t by auto
  have prom: "v2_inv (put_room rid r2 t)"
    if "vr_mode room \<noteq> Upgrading" "promote_survivor rid (remove_member cid room) = (r2, p)" for r2 p
    using room_good_promote [OF room_good_remove_member [OF good that(1)], of rid cid] t that(2) by auto
  show ?thesis
    using t rem prom v2_inv_put_room [OF t room_good_sfu_pending(1) [OF good]]
    by (auto simp: v2_remove_def Some Let_def split: option.split prod.split)
qed

end
