(* ===== verification/V2_Worker_Inv.thy ===== *)
theory V2_Worker_Inv
  imports V2_Browser_Inv
begin

text \<open>
  The worker operations and the timeouts of the V2 authority keep its invariant and never
  panic.
\<close>

section \<open>Transitions\<close>

lemma fail_room_inv [preserves]: "v2_inv t \<Longrightarrow> v2_inv (fail_room rid reason t)"
  using room_good_failed [OF v2_invD(1) [of t]]
  by (auto simp: fail_room_def split: option.split)

lemma room_good_commit:
  assumes "room_good L rid r" "vr_upgrade r = Some u"
  shows "room_good L rid (r\<lparr>vr_upgrade := None, vr_mode := Sfu, vr_signal_epoch := e,
    vr_members := hm_map (\<lambda>m. m\<lparr>mb_queued_messages := [], mb_is_initiator := False\<rparr>) (vr_members r)\<rparr>)"
proof -
  let ?M = "hm_map (\<lambda>m. m\<lparr>mb_queued_messages := [], mb_is_initiator := False\<rparr>) (vr_members r)"
  have "hm_all (\<lambda>c m. member_ok Sfu m) ?M \<and> hm_all (\<lambda>c m. lives L rid c (mb_lifecycle_id m)) ?M"
    using assms(1) by (auto simp: room_good_def member_ok_def hm_all_iff)
  moreover have "upgrade_ok u r" using assms by (simp add: room_good_def v2_room_ok_def)
  ultimately show ?thesis
    by (simp add: room_good_def v2_room_ok_def mode_ok_def upgrade_ok_def)
qed

lemma commit_upgrade_inv [preserves]:
  assumes t: "v2_inv t"
  shows "v2_inv (fst (commit_upgrade rid t)) \<and> snd (commit_upgrade rid t) \<noteq> Panicked"
proof (cases "map_of (vt_rooms t) rid")
  case None
  with t show ?thesis by (simp add: commit_upgrade_def)
next
  case (Some r)
  show ?thesis
  proof (cases "vr_upgrade r")
    case None
    with t Some show ?thesis by (simp add: commit_upgrade_def)
  next
    case u: (Some u)
    from v2_inv_put_room [OF t room_good_commit [OF v2_invD(1) [OF t Some] u]] show ?thesis
      by (auto simp: commit_upgrade_def Some u Let_def split: option.split)
  qed
qed

lemma cleanup_joined_inv [preserves]:
  "v2_inv t \<Longrightarrow> v2_inv (fst (cleanup_joined inst conn rid epoch cids t)) \<and>
     snd (cleanup_joined inst conn rid epoch cids t) \<noteq> Panicked"
  by (induction cids arbitrary: t) (auto split: option.split)

lemma room_good_aborted:
  assumes "room_good L rid r" "vr_upgrade r = Some u"
  shows "room_good L rid (r\<lparr>vr_members := hm_remove (up_joining_client_id u) (vr_members r),
    vr_upgrade := None, vr_mode := P2p, vr_assigned_instance := None\<rparr>)"
proof -
  have "upgrade_ok u r" using assms by (simp add: room_good_def v2_room_ok_def)
  with assms(1) show ?thesis
    by (auto simp: room_good_def v2_room_ok_def mode_ok_def upgrade_ok_def member_ok_def hm_all_iff)
qed

lemma abort_upgrade_inv [preserves]:
  assumes t: "v2_inv t"
  shows "v2_inv (fst (abort_upgrade rid reason t)) \<and> snd (abort_upgrade rid reason t) \<noteq> Panicked"
proof (cases "map_of (vt_rooms t) rid")
  case None
  with t show ?thesis by (simp add: abort_upgrade_def)
next
  case (Some r)
  show ?thesis
  proof (cases "vr_upgrade r")
    case None
    with t Some show ?thesis by (simp add: abort_upgrade_def)
  next
    case u: (Some u)
    then obtain inst where inst: "vr_assigned_instance r = Some inst"
      using v2_inv_upgradeD [OF t Some u] by (auto simp: upgrade_ok_def)
    let ?r = "r\<lparr>vr_members := hm_remove (up_joining_client_id u) (vr_members r),
      vr_upgrade := None, vr_mode := P2p, vr_assigned_instance := None\<rparr>"
    let ?t1 = "on_worker inst (release_worker rid 3) (put_room rid ?r t)"
    have t1: "v2_inv ?t1"
      using v2_inv_put_room [OF t room_good_aborted [OF v2_invD(1) [OF t Some] u]] by auto
    have "abort_upgrade rid reason t =
      (case (case worker_connection inst t of None \<Rightarrow> (?t1, Ok ())
             | Some c \<Rightarrow> cleanup_joined inst c rid (vr_assignment_epoch r) (up_joined_clients u) ?t1) of
         (t2, Inl e) \<Rightarrow> (t2, Inl e)
       | (t2, Inr _) \<Rightarrow> (push_action (AdmissionCompleted (up_authority_request_id u)
            (Inl (if reason = [] then ''WORKER_UNAVAILABLE'' else reason))) t2, Ok ()))"
      by (simp add: abort_upgrade_def Some u inst Let_def remove_member_def)
    then show ?thesis
      using t1 cleanup_joined_inv [OF t1]
      by (auto split: option.splits prod.splits sum.splits)
        (metis cleanup_joined_inv fst_conv snd_conv t1)+
  qed
qed

lemma arm_downgrade_inv [preserves]: "v2_inv t \<Longrightarrow> v2_inv (arm_downgrade rid now t)"
proof (cases "map_of (vt_rooms t) rid")
  case (Some r)
  assume t: "v2_inv t"
  note good = v2_invD(1) [OF t Some]
  have "is_downgrade_eligible rid t \<Longrightarrow> vr_mode r = Sfu"
    by (simp add: is_downgrade_eligible_def Some)
  then show ?thesis
    using t v2_inv_put_room [OF t room_good_clear(3) [OF good]]
      v2_inv_put_room [OF t room_good_sfu_pending(2) [OF good]]
    by (simp add: arm_downgrade_def Some)
qed (simp add: arm_downgrade_def)

lemma leave_all_inv [preserves]: "v2_inv t \<Longrightarrow> v2_inv (leave_all inst conn rid epoch leaving t)"
  by (induction leaving arbitrary: t) (auto simp: v2_inv_issue_command)

lemma room_good_downgraded:
  assumes "room_good L rid r" "vr_mode r = Sfu" "vr_pending_join r = None" "vr_pending_leave r = None"
    "length (vr_members r) \<le> MAX_P2P_MEMBERS"
  shows "room_good L rid (r\<lparr>vr_mode := P2p, vr_signal_epoch := e, vr_downgrade_deadline := None,
    vr_assigned_instance := None,
    vr_members := map (\<lambda>(c, m). (c, m\<lparr>mb_is_initiator := (c = i), mb_queued_messages := []\<rparr>)) (vr_members r)\<rparr>)"
proof -
  let ?r = "r\<lparr>vr_mode := P2p, vr_signal_epoch := e, vr_downgrade_deadline := None, vr_assigned_instance := None\<rparr>"
  have "room_good L rid ?r"
    using assms by (auto simp: room_good_def v2_room_ok_def mode_ok_def member_ok_def elim!: hm_all_mono)
  from room_good_map_members [OF this, of "\<lambda>c m. m\<lparr>mb_is_initiator := (c = i), mb_queued_messages := []\<rparr>"]
  show ?thesis by simp
qed

lemma commit_downgrade_inv [preserves]:
  assumes t: "v2_inv t" and e: "is_downgrade_eligible rid t"
  shows "v2_inv (fst (commit_downgrade rid t)) \<and> snd (commit_downgrade rid t) = Ok ()"
proof -
  obtain r where r: "map_of (vt_rooms t) rid = Some r" "vr_mode r = Sfu" "vr_members r \<noteq> []"
    "length (vr_members r) \<le> MAX_P2P_MEMBERS" "vr_pending_join r = None" "vr_pending_leave r = None"
    using e by (auto simp: is_downgrade_eligible_def split: option.splits)
  obtain i cs where s: "sort (hm_keys (vr_members r)) = i # cs"
    using r(3) by (metis length_0_conv length_map length_sort neq_Nil_conv)
  note put = v2_inv_put_room [OF t room_good_downgraded [OF v2_invD(1) [OF t r(1)] r(2,5,6,4)]]
  have on: "v2_inv (on_worker inst (release_worker rid n) t')" if "v2_inv t'" for inst n t'
    using that by auto
  show ?thesis
    using put on leave_all_inv by (simp add: commit_downgrade_def r(1) s Let_def split: option.split)
qed

section \<open>Worker sessions\<close>

lemma sync_rooms_inv [preserves]: "v2_inv t \<Longrightarrow> v2_inv (sync_rooms inst conn rids t)"
  by (induction rids arbitrary: t) (auto simp: v2_inv_issue_command split: option.split)

lemma worker_ok_sessions [simp]:
  "worker_ok (new_worker cap)"
  "worker_ok w \<Longrightarrow> worker_ok (w\<lparr>wk_connection_id := Some c, wk_capacity := cap, wk_health := None,
     wk_disconnect_deadline := None\<rparr>)"
  "worker_ok w \<Longrightarrow> worker_ok (w\<lparr>wk_connection_id := None, wk_health := None, wk_disconnect_deadline := d\<rparr>)"
  "worker_ok w \<Longrightarrow> wk_connection_id w \<noteq> None \<Longrightarrow> worker_ok (w\<lparr>wk_capacity := cap, wk_health := Some h\<rparr>)"
  "worker_ok w \<Longrightarrow> worker_ok (w\<lparr>wk_disconnect_deadline := None, wk_assigned_rooms := [], wk_assigned_clients := n\<rparr>)"
  by (simp_all add: worker_ok_def new_worker_def)

lemma register_worker_inv [preserves]:
  assumes t: "v2_inv t"
  shows "v2_inv (fst (register_worker conn inst req cap t)) \<and> snd (register_worker conn inst req cap t) = Ok ()"
proof -
  have "worker_ok w" if "map_of (vt_workers t) inst = Some w" for w
    using v2_invD(2) [OF t that] .
  then have "v2_inv (put_worker inst ((case map_of (vt_workers t) inst of None \<Rightarrow> new_worker cap | Some w \<Rightarrow> w)
      \<lparr>wk_connection_id := Some conn, wk_capacity := cap, wk_health := None, wk_disconnect_deadline := None\<rparr>) t)"
    using t by (auto split: option.split)
  then show ?thesis
    using t by (auto simp: register_worker_def Let_def sync_rooms_inv split: option.splits)
qed

lemma remember_event_ok:
  assumes w: "worker_ok w" and req: "req \<notin> set (wk_seen_events w)"
  shows "worker_ok (remember_event req w)"
    "wk_connection_id (remember_event req w) = wk_connection_id w"
    "req \<in> set (wk_seen_events (remember_event req w))"
proof -
  obtain o1 os where os: "wk_seen_event_order w @ [req] = o1 # os" by (cases "wk_seen_event_order w @ [req]") auto
  have d: "distinct (o1 # os)" using w req os [symmetric] by (auto simp: worker_ok_def)
  have s: "insert req (set (wk_seen_events w)) = insert o1 (set os)"
    using w arg_cong [OF os, of set] by (simp add: worker_ok_def)
  have l: "length (wk_seen_event_order w) = length os" using arg_cong [OF os, of length] by simp
  show "worker_ok (remember_event req w)"
    using w req d s l os by (auto simp: worker_ok_def remember_event_def Let_def distinct_removeAll)
  show "wk_connection_id (remember_event req w) = wk_connection_id w"
    by (simp add: remember_event_def Let_def split: list.split)
  have "req = o1 \<Longrightarrow> wk_seen_event_order w = []"
    using os d by (cases "wk_seen_event_order w") auto
  then show "req \<in> set (wk_seen_events (remember_event req w))"
    using os l by (auto simp: remember_event_def Let_def EVENT_DEDUP_CAPACITY_def)
qed

lemma worker_signal_inv [preserves]:
  "v2_inv t \<Longrightarrow> v2_inv (fst (worker_signal inst s t)) \<and> snd (worker_signal inst s t) \<noteq> Panicked"
  by (auto simp: worker_signal_def split: option.split)

lemma handle_worker_event_inv [preserves]:
  assumes t: "v2_inv t"
  shows "v2_inv (fst (handle_worker_event conn inst event t)) \<and> snd (handle_worker_event conn inst event t) \<noteq> Panicked"
proof (cases "map_of (vt_workers t) inst")
  case None
  with t show ?thesis by (simp add: handle_worker_event_def Let_def)
next
  case (Some w)
  let ?w = "remember_event (ev_request_id event) w"
  show ?thesis
  proof (cases "ev_request_id event \<in> set (wk_seen_events w)")
    case True
    with t Some show ?thesis by (simp add: handle_worker_event_def Let_def)
  next
    case False
    note w = remember_event_ok [OF v2_invD(2) [OF t Some] False]
    have t1: "v2_inv (put_worker inst ?w t)" using t w by auto
    have health: "v2_inv (put_worker inst (?w\<lparr>wk_capacity := c, wk_health := Some h\<rparr>) (put_worker inst ?w t))"
      if "wk_connection_id w \<noteq> None" for c h
      using v2_inv_put_worker [OF t1] w that by simp
    show ?thesis
      using t t1 health fail_room_inv [OF t1] worker_signal_inv [OF t1]
      by (auto simp: handle_worker_event_def Some Let_def split: event_kind.split option.split prod.splits sum.splits)
        (metis fst_conv snd_conv t1 worker_signal_inv)+
  qed
qed

lemma worker_disconnected_inv [preserves]: "v2_inv t \<Longrightarrow> v2_inv (worker_disconnected conn inst now t)"
  using v2_invD(2) [of t inst] by (auto simp: worker_disconnected_def split: option.split)

section \<open>Results of commands\<close>

text \<open>The last acknowledged join commits the upgrade at once.\<close>

lemma commit_upgrade_last:
  assumes t: "v2_inv t" and r: "map_of (vt_rooms t) rid = Some r" "vr_upgrade r = Some u"
  shows "v2_inv (fst (commit_upgrade rid (put_room rid (r\<lparr>vr_upgrade := Some u'\<rparr>) t))) \<and>
    snd (commit_upgrade rid (put_room rid (r\<lparr>vr_upgrade := Some u'\<rparr>) t)) \<noteq> Panicked"
  using v2_inv_put_room [OF t room_good_commit [OF v2_invD(1) [OF t r(1)] r(2)]]
  by (auto simp: commit_upgrade_def Let_def split: option.split)

lemma upgrade_join_result_inv [preserves]:
  assumes t: "v2_inv t"
  shows "v2_inv (fst (upgrade_join_result rid cid valid reason t)) \<and>
    snd (upgrade_join_result rid cid valid reason t) \<noteq> Panicked"
proof (cases "valid \<and> (\<exists>r u. map_of (vt_rooms t) rid = Some r \<and> vr_upgrade r = Some u)")
  case False
  then show ?thesis
    using t abort_upgrade_inv [OF t] by (auto simp: upgrade_join_result_def split: option.split)
next
  case True
  then obtain r u where r: "map_of (vt_rooms t) rid = Some r" "vr_upgrade r = Some u" and valid by auto
  note uok = v2_inv_upgradeD [OF t r]
  let ?u = "u\<lparr>up_joined_clients := up_joined_clients u @ [cid], up_next_client := up_next_client u + 1\<rparr>"
  let ?t = "put_room rid (r\<lparr>vr_upgrade := Some ?u\<rparr>) t"
  have eq: "upgrade_join_result rid cid valid reason t =
      (if up_next_client u + 1 = length (up_ordered_clients u)
       then commit_upgrade rid ?t else issue_next_upgrade_join rid ?t)"
    using \<open>valid\<close> r by (simp add: upgrade_join_result_def Let_def)
  show ?thesis
  proof (cases "up_next_client u + 1 = length (up_ordered_clients u)")
    case True
    then show ?thesis using commit_upgrade_last [OF t r] by (simp add: eq)
  next
    case False
    have "upgrade_ok ?u (r\<lparr>vr_upgrade := Some ?u\<rparr>)"
      using uok False by (auto simp: upgrade_ok_def)
    then have "room_good (vt_lifecycle_ids t) rid (r\<lparr>vr_upgrade := Some ?u\<rparr>)"
      using v2_invD(1) [OF t r(1)] r(2)
      by (auto simp: room_good_def v2_room_ok_def mode_ok_def split: room_mode.splits)
    then have "v2_inv ?t" using t by auto
    from issue_next_upgrade_join_inv [OF this] False show ?thesis by (simp add: eq)
  qed
qed

lemma sfu_join_result_inv [preserves]:
  assumes t: "v2_inv t"
  shows "v2_inv (fst (sfu_join_result inst rid cid valid reason t)) \<and>
    snd (sfu_join_result inst rid cid valid reason t) \<noteq> Panicked"
proof (cases "map_of (vt_rooms t) rid")
  case None
  with t show ?thesis by (simp add: sfu_join_result_def)
next
  case (Some r)
  note good = v2_invD(1) [OF t Some]
  note clear = room_good_clear(1) [OF good]
  have ok: "v2_inv (put_room rid (r\<lparr>vr_pending_join := None\<rparr>) t)" using t clear by auto
  have rem: "v2_inv (put_room rid (remove_member c (r\<lparr>vr_pending_join := None\<rparr>)) t)"
    if "vr_pending_join r \<noteq> None" for c
  proof -
    have "vr_mode r \<noteq> Upgrading"
      using good that by (auto simp: room_good_def v2_room_ok_def mode_ok_def upgrade_ok_def split: option.splits)
    then show ?thesis using room_good_remove_member [OF clear] t by auto
  qed
  show ?thesis
    using t ok rem by (auto simp: sfu_join_result_def Some Let_def split: option.split)
qed

lemma sfu_leave_result_inv [preserves]:
  assumes t: "v2_inv t"
  shows "v2_inv (fst (sfu_leave_result now inst rid cid valid reason t)) \<and>
    snd (sfu_leave_result now inst rid cid valid reason t) \<noteq> Panicked"
proof (cases "map_of (vt_rooms t) rid")
  case None
  with t show ?thesis by (simp add: sfu_leave_result_def)
next
  case (Some r)
  note good = v2_invD(1) [OF t Some]
  show ?thesis
  proof (cases "vr_pending_leave r")
    case None
    with t Some show ?thesis by (simp add: sfu_leave_result_def)
  next
    case pl: (Some pl)
    then have "vr_mode r \<noteq> Upgrading"
      using good by (auto simp: room_good_def v2_room_ok_def mode_ok_def upgrade_ok_def split: option.splits)
    then have rem: "v2_inv (put_room rid (remove_member cid (r\<lparr>vr_pending_leave := None\<rparr>)) t)"
      using t room_good_remove_member [OF room_good_clear(2) [OF good]] by auto
    let ?f = "\<lambda>w. let w' = w\<lparr>wk_assigned_clients := sat_sub (wk_assigned_clients w) 1\<rparr> in
      if vr_members (remove_member cid (r\<lparr>vr_pending_leave := None\<rparr>)) = []
      then w'\<lparr>wk_assigned_rooms := removeAll rid (wk_assigned_rooms w')\<rparr> else w'"
    have f: "worker_ok w \<Longrightarrow> worker_ok (?f w)" for w
      by (simp add: worker_ok_def Let_def distinct_removeAll)
    have ok: "v2_inv (put_room rid (r\<lparr>vr_pending_leave := None\<rparr>) t)"
      using t room_good_clear(2) [OF good] by auto
    have on: "v2_inv (on_worker inst ?f (put_room rid (remove_member cid (r\<lparr>vr_pending_leave := None\<rparr>)) t))"
      by (rule v2_inv_on_worker [OF rem f])
    have complete: "v2_inv ((case q of None \<Rightarrow> id | Some areq \<Rightarrow> push_action (h areq)) t') = v2_inv t'"
      for q :: "u64 option" and h t' by (simp split: option.split)
    show ?thesis
      using ok on complete by (auto simp: sfu_leave_result_def Some pl Let_def arm_downgrade_inv)
  qed
qed

lemma push_actions_inv: "v2_inv (fold (\<lambda>c. push_action (f c)) cs t) = v2_inv t"
  by (induction cs arbitrary: t) simp_all

lemma handle_command_result_inv [preserves]:
  assumes t: "v2_inv t"
  shows "v2_inv (fst (handle_command_result conn inst result now t)) \<and>
    snd (handle_command_result conn inst result now t) \<noteq> Panicked"
proof -
  let ?t = "forget_command (cr_request_id result) t"
  have t1: "v2_inv ?t" using t by simp
  show ?thesis
    using t t1 fail_room_inv [OF t1] upgrade_join_result_inv [OF t1] sfu_join_result_inv [OF t1]
      sfu_leave_result_inv [OF t1]
    by (simp add: handle_command_result_def Let_def push_actions_inv split: option.split pending_command.split)
qed

lemma handle_sfu_input_inv [preserves]:
  "v2_inv t \<Longrightarrow> v2_inv (fst (handle_sfu_input input t)) \<and> snd (handle_sfu_input input t) \<noteq> Panicked"
  by (auto simp: handle_sfu_input_def register_worker_inv handle_command_result_inv handle_worker_event_inv
      worker_disconnected_inv split: sfu_input.split)

section \<open>Timeouts\<close>

lemma put_room_push_action [simp]: "put_room rid q (push_action a t) = push_action a (put_room rid q t)"
  by (simp add: put_room_def push_action_def)

lemma expire_assigned_room_inv [preserves]:
  assumes t: "v2_inv t"
  shows "v2_inv (expire_assigned_room rid t)"
proof (cases "map_of (vt_rooms t) rid")
  case None
  with t show ?thesis by (simp add: expire_assigned_room_def)
next
  case (Some r)
  note good = v2_invD(1) [OF t Some]
  show ?thesis
  proof (cases "vr_mode r = Upgrading")
    case True
    with Some abort_upgrade_inv [OF t] show ?thesis by (simp add: expire_assigned_room_def)
  next
    case False
    note rem = room_good_remove_member [OF room_good_clear(1) [OF good]]
    have put: "v2_inv (put_room rid q t)" if "room_good (vt_lifecycle_ids t) rid q" for q
      using t that by auto
    show ?thesis
      using False put room_good_failed [OF good] room_good_failed [OF rem]
        room_good_failed [OF room_good_clear(2) [OF good]] room_good_failed [OF room_good_clear(2) [OF rem]]
      by (auto simp: expire_assigned_room_def Some Let_def remove_member_def split: option.split)
  qed
qed

lemma expire_rooms_inv: "v2_inv t \<Longrightarrow> v2_inv (fold expire_assigned_room rids t)"
  by (induction rids arbitrary: t) (simp_all add: expire_assigned_room_inv)

lemma expire_worker_inv [preserves]: "v2_inv t \<Longrightarrow> v2_inv (expire_worker inst t)"
  unfolding expire_worker_def Let_def
  by (rule v2_inv_on_worker) (simp_all add: expire_rooms_inv)

lemma expire_workers_inv: "v2_inv t \<Longrightarrow> v2_inv (fold expire_worker insts t)"
  by (induction insts arbitrary: t) (simp_all add: expire_worker_inv)

lemma remove_members_good:
  "room_good L rid r \<Longrightarrow> vr_mode r \<noteq> Upgrading \<Longrightarrow> room_good L rid (fold remove_member cs r)"
  by (induction cs arbitrary: r) (simp_all add: room_good_remove_member)

lemma sweep_p2p_inv:
  assumes t: "v2_inv t" and r: "map_of (vt_rooms t) rid = Some r" "vr_mode r = P2p"
  shows "v2_inv (fst (sweep_p2p now rid r t))"
proof -
  let ?e = "map fst (filter (\<lambda>(c, m). passed now (mb_reconnect_deadline m)) (vr_members r))"
  have good: "room_good (vt_lifecycle_ids t) rid (fold remove_member ?e r)"
    using remove_members_good [OF v2_invD(1) [OF t r(1)]] r(2) by simp
  have "v2_inv (put_room rid q t)" if "room_good (vt_lifecycle_ids t) rid q" for q
    using t that by auto
  note put = this [OF good] this [OF room_good_promote [OF good]]
  show ?thesis
    using put(1) put(2) [of rid] by (auto simp: sweep_p2p_def Let_def split: prod.split)
qed

lemma sweep_room_inv [preserves]:
  assumes t: "v2_inv t"
  shows "v2_inv (fst (sweep_room now rid t))"
proof (cases "map_of (vt_rooms t) rid")
  case None
  with t show ?thesis by (simp add: sweep_room_def)
next
  case (Some r)
  have leave: "v2_inv t1" if "issue_sfu_leave rid cid reason t = (t1, b)" for cid reason t1 b
    using issue_sfu_leave_inv [OF t, of rid cid reason] that by simp
  show ?thesis
    using t leave arm_reconnect_inv commit_downgrade_inv [OF t, of rid] sweep_p2p_inv [OF t Some]
      v2_inv_put_room [OF t room_good_clear(3) [OF v2_invD(1) [OF t Some]]]
    by (auto simp: sweep_room_def Some split: option.split prod.split bool.split)
qed

lemma sweep_rooms_inv: "v2_inv t \<Longrightarrow> v2_inv (fst (sweep_rooms now rids t))"
proof (induction rids arbitrary: t)
  case Nil
  then show ?case by simp
next
  case (Cons rid rids)
  with sweep_room_inv [of t now rid] show ?case by (simp add: case_prod_beta)
qed

lemma v2_handle_timeout_inv [preserves]: "v2_inv t \<Longrightarrow> v2_inv (fst (v2_handle_timeout now t))"
  by (simp add: v2_handle_timeout_def Let_def sweep_rooms_inv expire_workers_inv)

lemma v2_clear_inv [preserves]: "v2_inv t \<Longrightarrow> v2_inv (v2_clear t)"
  by (simp add: v2_inv_def v2_clear_def cmds_ok_def)

lemma v2_poll_action_inv [preserves]: "v2_inv t \<Longrightarrow> v2_inv (fst (v2_poll_action t))"
  by (simp add: v2_inv_def v2_poll_action_def cmds_ok_def split: list.split)

lemma set_downgrade_dwell_inv [preserves]: "v2_inv t \<Longrightarrow> v2_inv (set_downgrade_dwell d t)"
  by (simp add: v2_inv_def set_downgrade_dwell_def cmds_ok_def)

lemma v2_new_inv [preserves]: "v2_inv (v2_new grace)"
  by (simp add: v2_inv_def v2_new_def cmds_ok_def)

end
