(* ===== verification/Base64url.thy ===== *)
theory Base64url
  imports Prelude
begin

text \<open>
  The base64url encoding of RFC 4648 without padding, with a decoder that rejects
  non-canonical trailing bits: the documented behaviour of the \<^verbatim>\<open>base64\<close> crate's
  \<^verbatim>\<open>URL_SAFE_NO_PAD\<close> engine. The model of the program takes the codec as a parameter; this
  instance shows that the laws it relies on can hold, and lets its theorems be evaluated.
\<close>

section \<open>Bits\<close>

definition byte_bits :: "u8 \<Rightarrow> bool list" where
  "byte_bits w = rev (map (bit w) [0..<8])"

definition bits_byte :: "bool list \<Rightarrow> u8" where
  "bits_byte bs = horner_sum of_bool 2 (rev bs)"

lemma length_byte_bits [simp]: "length (byte_bits w) = 8"
  by (simp add: byte_bits_def)

lemma bits_byte_bits [simp]: "bits_byte (byte_bits w) = w"
proof -
  have "horner_sum of_bool 2 (map (bit w) [0..<8]) = take_bit 8 w"
    by (rule horner_sum_bit_eq_take_bit)
  also have "\<dots> = w" using take_bit_length_eq [of w] by simp
  finally show ?thesis by (simp add: bits_byte_def byte_bits_def del: upt_rec_numeral)
qed

lemma byte_bits_byte: "length bs = 8 \<Longrightarrow> byte_bits (bits_byte bs) = bs"
  by (rule nth_equalityI)
    (auto simp: byte_bits_def bits_byte_def rev_nth bit_horner_sum_bit_iff simp del: upt_rec_numeral)

section \<open>The alphabet\<close>

definition alphabet :: string where
  "alphabet = ''ABCDEFGHIJKLMNOPQRSTUVWXYZabcdefghijklmnopqrstuvwxyz0123456789-_''"

definition sextets :: "bool list list" where
  "sextets = map rev (List.n_lists 6 [False, True])"

definition char_of_sextet :: "bool list \<Rightarrow> char" where
  "char_of_sextet bs = (case map_of (zip sextets alphabet) bs of None \<Rightarrow> CHR ''='' | Some c \<Rightarrow> c)"

definition sextet_of_char :: "char \<Rightarrow> bool list option" where
  "sextet_of_char c = map_of (zip alphabet sextets) c"

lemma alphabet_distinct: "distinct alphabet" "length alphabet = 64"
  by code_simp+

lemma sextets_all: "set sextets = {bs. length bs = 6}" "distinct sextets" "length sextets = 64"
proof -
  have "set sextets = rev ` {bs. length bs = 6}"
    by (auto simp: sextets_def set_n_lists)
  also have "\<dots> = {bs. length bs = 6}"
    by (auto simp: image_def) (metis length_rev rev_rev_ident)
  finally show "set sextets = {bs. length bs = 6}" .
  show "distinct sextets" "length sextets = 64"
    by (simp_all add: sextets_def distinct_map distinct_n_lists length_n_lists numeral_eq_Suc)
qed

lemma map_of_zip_nth:
  assumes "distinct xs" "length xs = length ys"
  shows "map_of (zip xs ys) x = Some y \<longleftrightarrow> (\<exists>i < length xs. xs ! i = x \<and> ys ! i = y)"
proof -
  have "map_of (zip xs ys) x = Some y \<longleftrightarrow> (x, y) \<in> set (zip xs ys)"
    using assms by (intro map_of_eq_Some_iff) simp
  with assms show ?thesis by (auto simp: in_set_zip)
qed

lemma sextet_roundtrip: "length bs = 6 \<Longrightarrow> sextet_of_char (char_of_sextet bs) = Some bs"
proof -
  assume "length bs = 6"
  then have "bs \<in> set sextets" by (simp add: sextets_all)
  then obtain i where i: "i < 64" "sextets ! i = bs"
    unfolding in_set_conv_nth sextets_all(3) by blast
  then have "map_of (zip sextets alphabet) bs = Some (alphabet ! i)"
    by (auto simp: map_of_zip_nth sextets_all alphabet_distinct)
  then have "char_of_sextet bs = alphabet ! i" by (simp add: char_of_sextet_def)
  with i show ?thesis
    by (auto simp: sextet_of_char_def map_of_zip_nth sextets_all alphabet_distinct)
qed

lemma char_roundtrip:
  "sextet_of_char c = Some bs \<Longrightarrow> length bs = 6 \<and> char_of_sextet bs = c"
proof -
  assume "sextet_of_char c = Some bs"
  then obtain i where i: "i < 64" "alphabet ! i = c" "sextets ! i = bs"
    by (auto simp: sextet_of_char_def map_of_zip_nth sextets_all alphabet_distinct)
  then have "map_of (zip sextets alphabet) bs = Some c"
    by (auto simp: map_of_zip_nth sextets_all alphabet_distinct)
  moreover have "bs \<in> set sextets" using i sextets_all(3) by (metis nth_mem)
  ultimately show ?thesis by (simp add: char_of_sextet_def sextets_all)
qed

section \<open>Regrouping bits\<close>

fun to_sextets :: "bool list \<Rightarrow> bool list list" where
  "to_sextets bs =
     (if bs = [] then []
      else if length bs < 6 then [bs @ replicate (6 - length bs) False]
      else take 6 bs # to_sextets (drop 6 bs))"

fun to_octets :: "bool list \<Rightarrow> bool list list option" where
  "to_octets bs =
     (if length bs < 8 then (if length bs < 6 \<and> (\<forall>b \<in> set bs. \<not> b) then Some [] else None)
      else map_option ((#) (take 8 bs)) (to_octets (drop 8 bs)))"

declare to_sextets.simps [simp del] to_octets.simps [simp del]

lemma concat_to_sextets: "\<exists>k < 6. concat (to_sextets bs) = bs @ replicate k False"
proof (induction bs rule: to_sextets.induct)
  case (1 bs)
  show ?case
  proof (cases "bs = [] \<or> length bs < 6")
    case True
    then show ?thesis
      by (subst to_sextets.simps) (auto intro: exI [of _ "6 - length bs"] simp: Suc_le_eq)
  next
    case False
    with 1 obtain k where "k < 6" "concat (to_sextets (drop 6 bs)) = drop 6 bs @ replicate k False"
      by auto
    with False show ?thesis by (subst to_sextets.simps) (auto intro!: exI [of _ k] simp flip: append_assoc)
  qed
qed

lemma length_to_sextets: "length (to_sextets bs) = (length bs + 5) div 6"
proof (induction bs rule: to_sextets.induct)
  case (1 bs)
  have "0 < n \<Longrightarrow> n < 6 \<Longrightarrow> (n + 5) div 6 = 1" for n :: nat by presburger
  then have "bs \<noteq> [] \<Longrightarrow> length bs < 6 \<Longrightarrow> (length bs + 5) div 6 = 1" by simp
  with 1 show ?case by (subst to_sextets.simps) (auto simp: le_div_geq)
qed

lemma to_sextets_six: "xs \<in> set (to_sextets bs) \<Longrightarrow> length xs = 6"
  by (induction bs rule: to_sextets.induct) (subst (asm) (2) to_sextets.simps, auto split: if_splits)

lemma to_sextets_unique:
  "\<forall>xs \<in> set cs. length xs = 6 \<Longrightarrow> k < 6 \<Longrightarrow> concat cs = bs @ replicate k False \<Longrightarrow> to_sextets bs = cs"
proof (induction cs arbitrary: bs)
  case Nil
  then show ?case by (simp add: to_sextets.simps)
next
  case (Cons c cs)
  then have c: "length c = 6" "length bs + k = 6 + length (concat cs)"
    by (auto dest: arg_cong [where f = length])
  show ?case
  proof (cases "length bs < 6")
    case True
    have "length (concat cs) = 6 * length cs"
      using Cons.prems(1) by (induction cs) auto
    with c True Cons.prems(2) have "length cs = 0" by linarith
    with c Cons.prems(2) have "cs = []" "k = 6 - length bs" "bs \<noteq> []" by auto
    with Cons.prems(3) True show ?thesis by (subst to_sextets.simps) simp
  next
    case False
    with Cons.prems(3) c(1) have "take 6 bs = c" "concat cs = drop 6 bs @ replicate k False"
      by (auto dest: arg_cong [where f = "take 6"] arg_cong [where f = "drop 6"])
    with Cons.IH [of "drop 6 bs"] Cons.prems(1,2) False show ?thesis
      by (subst to_sextets.simps) auto
  qed
qed

lemma to_octets_bytes:
  "k < 6 \<Longrightarrow> \<forall>q \<in> set os. length q = 8 \<Longrightarrow> to_octets (concat os @ replicate k False) = Some os"
  by (induction os) (subst to_octets.simps, simp add: take_append drop_append)+

lemma to_octets_Some:
  "to_octets bs = Some os \<Longrightarrow>
     (\<forall>q \<in> set os. length q = 8) \<and> (\<exists>k < 6. bs = concat os @ replicate k False)"
proof (induction bs arbitrary: os rule: to_octets.induct)
  case (1 bs)
  show ?case
  proof (cases "length bs < 8")
    case True
    with 1(2) have "os = []" "length bs < 6" "\<forall>b \<in> set bs. \<not> b"
      by (subst (asm) to_octets.simps; simp split: if_splits)+
    moreover from this(3) have "bs = replicate (length bs) False"
      by (simp add: replicate_length_same)
    ultimately show ?thesis by auto
  next
    case False
    with 1(2) obtain os' where os: "os = take 8 bs # os'" "to_octets (drop 8 bs) = Some os'"
      by (subst (asm) to_octets.simps) auto
    from 1(1) [OF False os(2)] obtain k where
      "\<forall>q \<in> set os'. length q = 8" "k < 6" "drop 8 bs = concat os' @ replicate k False" by auto
    moreover have "bs = take 8 bs @ drop 8 bs" by simp
    ultimately show ?thesis using False os(1) by (auto intro!: exI [of _ k])
  qed
qed

section \<open>The codec\<close>

definition base64url_encode :: "u8 list \<Rightarrow> string" where
  "base64url_encode bytes = map char_of_sextet (to_sextets (concat (map byte_bits bytes)))"

definition base64url_decode :: "string \<Rightarrow> u8 list option" where
  "base64url_decode s =
     (let ss = map sextet_of_char s in
      if None \<in> set ss then None
      else map_option (map bits_byte) (to_octets (concat (map the ss))))"

lemma base64url_decode_encode: "base64url_decode (base64url_encode bytes) = Some bytes"
proof -
  let ?bits = "concat (map byte_bits bytes)"
  obtain k where k: "k < 6" "concat (to_sextets ?bits) = ?bits @ replicate k False"
    using concat_to_sextets by blast
  have ss: "map sextet_of_char (base64url_encode bytes) = map Some (to_sextets ?bits)"
    by (auto simp: base64url_encode_def sextet_roundtrip to_sextets_six)
  have "to_octets (?bits @ replicate k False) = Some (map byte_bits bytes)"
    using to_octets_bytes [OF k(1), of "map byte_bits bytes"] by auto
  then show ?thesis
    by (auto simp: base64url_decode_def ss k(2) comp_def)
qed

lemma base64url_encode_decode: "base64url_decode s = Some bytes \<Longrightarrow> base64url_encode bytes = s"
proof -
  assume "base64url_decode s = Some bytes"
  then obtain os where d: "None \<notin> set (map sextet_of_char s)"
    "to_octets (concat (map (the \<circ> sextet_of_char) s)) = Some os" "bytes = map bits_byte os"
    by (auto simp: base64url_decode_def Let_def split: if_splits)
  have six: "length ((the \<circ> sextet_of_char) c) = 6 \<and> char_of_sextet ((the \<circ> sextet_of_char) c) = c"
    if "c \<in> set s" for c
  proof -
    have "sextet_of_char c \<in> set (map sextet_of_char s)" using that by simp
    with d(1) obtain bs where "sextet_of_char c = Some bs" by (cases "sextet_of_char c") simp_all
    then show ?thesis using char_roundtrip by simp
  qed
  from to_octets_Some [OF d(2)] obtain k where k: "\<forall>q \<in> set os. length q = 8" "k < 6"
    "concat (map (the \<circ> sextet_of_char) s) = concat os @ replicate k False" by auto
  have "to_sextets (concat os) = map (the \<circ> sextet_of_char) s"
    using six by (intro to_sextets_unique [OF _ k(2,3)]) auto
  moreover have "map byte_bits bytes = os"
    using k(1) by (simp add: d(3) byte_bits_byte map_idI)
  moreover have "map (char_of_sextet \<circ> (the \<circ> sextet_of_char)) s = s"
    using six by (intro map_idI) simp
  ultimately show ?thesis by (simp add: base64url_encode_def)
qed

lemma length_base64url_encode: "length (base64url_encode bytes) = (8 * length bytes + 5) div 6"
proof -
  have "length (concat (map byte_bits bytes)) = 8 * length bytes"
    by (induction bytes) auto
  then show ?thesis by (simp add: base64url_encode_def length_to_sextets)
qed

end
