(* ===== verification/V2_Token.thy ===== *)
theory V2_Token
  imports V2_State Base64url
begin

text \<open>
  Room tokens (\<^verbatim>\<open>format_room_token\<close>, \<^verbatim>\<open>parse_room_token\<close>, \<^verbatim>\<open>is_room_uuid\<close>, \<^verbatim>\<open>new_room_id\<close> of
  \<^verbatim>\<open>src/v2.rs\<close>). The \<^verbatim>\<open>base64\<close> and \<^verbatim>\<open>uuid\<close> crates are a parameter, the record
  \<open>token_lib\<close>; the locale \<open>token_codec\<close> states what the code relies on of them, and it is
  interpreted on the RFC 4648 and RFC 9562 definitions.
\<close>

record token_lib =
  tl_encode :: "u8 list \<Rightarrow> string"
  tl_decode :: "string \<Rightarrow> u8 list option"
  tl_version :: "uuid \<Rightarrow> nat"
  tl_rfc_variant :: "uuid \<Rightarrow> bool"
  tl_new_v8 :: "u8 list \<Rightarrow> uuid"

definition ROOM_TOKEN_LEN :: nat where "ROOM_TOKEN_LEN = 22"

text \<open>The sixteen random bytes of \<^verbatim>\<open>Uuid::new_v4().into_bytes()\<close> are an argument.\<close>

definition new_room_id :: "token_lib \<Rightarrow> u8 list \<Rightarrow> uuid" where
  "new_room_id lib random = tl_new_v8 lib random"

definition format_room_token :: "token_lib \<Rightarrow> uuid \<Rightarrow> string" where
  "format_room_token lib rid = tl_encode lib rid"

definition is_room_uuid :: "token_lib \<Rightarrow> uuid \<Rightarrow> bool" where
  "is_room_uuid lib rid \<longleftrightarrow> tl_version lib rid = 8 \<and> tl_rfc_variant lib rid"

definition parse_room_token :: "token_lib \<Rightarrow> string \<Rightarrow> uuid option" where
  "parse_room_token lib token =
     (if length token \<noteq> ROOM_TOKEN_LEN then None
      else (case tl_decode lib token of
              None \<Rightarrow> None
            | Some bytes \<Rightarrow>
                if length bytes \<noteq> 16 then None
                else if is_room_uuid lib bytes then Some bytes else None))"

section \<open>The laws of the crates\<close>

locale token_codec =
  fixes lib :: token_lib
  assumes decode_encode: "tl_decode lib (tl_encode lib bytes) = Some bytes"
    and encode_decode: "tl_decode lib token = Some bytes \<Longrightarrow> tl_encode lib bytes = token"
    and encode_length: "length bytes = 16 \<Longrightarrow> length (tl_encode lib bytes) = 22"
    and v8_length: "length bytes = 16 \<Longrightarrow> length (tl_new_v8 lib bytes) = 16"
    and v8_version: "length bytes = 16 \<Longrightarrow> tl_version lib (tl_new_v8 lib bytes) = 8"
    and v8_variant: "length bytes = 16 \<Longrightarrow> tl_rfc_variant lib (tl_new_v8 lib bytes)"
begin

lemma parse_format:
  "length rid = 16 \<Longrightarrow> parse_room_token lib (format_room_token lib rid) = (if is_room_uuid lib rid then Some rid else None)"
  by (simp add: parse_room_token_def format_room_token_def decode_encode encode_length ROOM_TOKEN_LEN_def)

lemma parse_SomeD:
  "parse_room_token lib token = Some rid \<Longrightarrow>
     length rid = 16 \<and> is_room_uuid lib rid \<and> format_room_token lib rid = token"
  by (auto simp: parse_room_token_def format_room_token_def intro: encode_decode
      split: if_splits option.splits)

lemma new_room_id_valid:
  "length random = 16 \<Longrightarrow> length (new_room_id lib random) = 16 \<and> is_room_uuid lib (new_room_id lib random)"
  by (simp add: new_room_id_def is_room_uuid_def v8_length v8_version v8_variant)

end

text \<open>RFC 4648 base64url, RFC 9562 version and variant fields.\<close>

definition rfc_lib :: token_lib where
  "rfc_lib = \<lparr>tl_encode = base64url_encode, tl_decode = base64url_decode,
     tl_version = (\<lambda>b. unat (drop_bit 4 (b ! 6))),
     tl_rfc_variant = (\<lambda>b. and (b ! 8) 0xC0 = 0x80),
     tl_new_v8 = (\<lambda>b. b[6 := or (and (b ! 6) 0x0F) 0x80, 8 := or (and (b ! 8) 0x3F) 0x80])\<rparr>"

lemma version_nibble: "drop_bit 4 (or (and w 0x0F) 0x80) = (8 :: u8)"
proof -
  have "drop_bit 4 (and w 0x0F) = 0"
    by (rule bit_word_eqI) (auto simp: bit_drop_bit_eq bit_and_iff bit_numeral_iff)
  then show ?thesis by (simp add: drop_bit_or)
qed

lemma variant_bits: "and (or (and w 0x3F) 0x80) 0xC0 = (0x80 :: u8)"
proof -
  have "and (or (and w 0x3F) 0x80) 0xC0 = or (and w (and 0x3F 0xC0)) (and 0x80 0xC0 :: u8)"
    by (simp add: bit.conj_disj_distrib2 and.assoc)
  then show ?thesis by simp
qed

interpretation rfc: token_codec rfc_lib
  by unfold_locales
    (simp_all add: rfc_lib_def base64url_decode_encode base64url_encode_decode
      length_base64url_encode version_nibble variant_bits)

section \<open>Properties\<close>

text \<open>
  C33. Every room id the service mints survives the round trip through its room token: the
  token has 22 characters and parses back to the id.
\<close>

theorem room_token_roundtrip:
  assumes "token_codec lib" "length random = 16"
  shows "length (format_room_token lib (new_room_id lib random)) = ROOM_TOKEN_LEN \<and>
    parse_room_token lib (format_room_token lib (new_room_id lib random)) = Some (new_room_id lib random)"
  using token_codec.new_room_id_valid [OF assms] token_codec.encode_length [OF assms(1)]
  by (simp add: token_codec.parse_format [OF assms(1)]) (simp add: format_room_token_def ROOM_TOKEN_LEN_def)

theorem room_token_roundtrip_witness:
  "parse_room_token rfc_lib (format_room_token rfc_lib (new_room_id rfc_lib (replicate 16 7))) =
     Some (new_room_id rfc_lib (replicate 16 7))"
  using room_token_roundtrip [OF rfc.token_codec_axioms, of "replicate 16 7"] by simp

end
