(* ===== verification/V2_System.thy ===== *)
theory V2_System
  imports V2_Worker_Inv V2_Token
begin

text \<open>
  The V2 authority as a transition system: every public operation in any order, with
  rehashes of its maps and sets in between; its reachable states satisfy the invariant and
  no operation panics in them.
\<close>

datatype v2_op =
    V2Admit u64 uuid member_id string
  | V2Register uuid member_id string
  | V2Deregister uuid member_id
  | V2Send uuid member_id u64 string
  | V2Remove u64 uuid member_id string
  | V2Input sfu_input
  | V2Timeout
  | V2PollAction
  | V2SetDwell duration
  | V2Clear

definition outcome :: "'a result \<Rightarrow> unit result" where
  "outcome r = (case r of Inl e \<Rightarrow> Inl e | Inr _ \<Rightarrow> Ok ())"

lemma outcome_Panicked [simp]: "outcome r = Panicked \<longleftrightarrow> r = Panicked"
  by (auto simp: outcome_def split: sum.splits)

fun v2_exec :: "instant \<Rightarrow> v2_op \<Rightarrow> v2_table \<Rightarrow> v2_table \<times> unit result" where
  "v2_exec now (V2Admit areq rid cid token) t = apsnd outcome (admit areq now rid cid token t)"
| "v2_exec now (V2Register rid cid token) t = apsnd outcome (v2_register rid cid token t)"
| "v2_exec now (V2Deregister rid cid) t = (v2_deregister now rid cid t, Ok ())"
| "v2_exec now (V2Send rid cid epoch msg) t = apsnd outcome (v2_send rid cid epoch msg t)"
| "v2_exec now (V2Remove areq rid cid token) t = apsnd outcome (v2_remove areq rid cid token t)"
| "v2_exec now (V2Input input) t = handle_sfu_input input t"
| "v2_exec now V2Timeout t = (fst (v2_handle_timeout now t), Ok ())"
| "v2_exec now V2PollAction t = (fst (v2_poll_action t), Ok ())"
| "v2_exec now (V2SetDwell d) t = (set_downgrade_dwell d t, Ok ())"
| "v2_exec now V2Clear t = (v2_clear t, Ok ())"

lemma v2_exec_inv: "v2_inv t \<Longrightarrow> v2_inv (fst (v2_exec now op t)) \<and> snd (v2_exec now op t) \<noteq> Panicked"
  by (cases op)
    (simp_all add: admit_inv v2_register_inv v2_deregister_inv v2_send_inv v2_remove_inv
      handle_sfu_input_inv v2_handle_timeout_inv v2_poll_action_inv set_downgrade_dwell_inv v2_clear_inv)

section \<open>Rehashing\<close>

definition v2_room_perm :: "v2_room \<Rightarrow> v2_room \<Rightarrow> bool" where
  "v2_room_perm r r' \<longleftrightarrow> hm_perm (vr_members r) (vr_members r') \<and> r' = r\<lparr>vr_members := vr_members r'\<rparr>"

definition worker_perm :: "worker \<Rightarrow> worker \<Rightarrow> bool" where
  "worker_perm w w' \<longleftrightarrow>
     distinct (wk_assigned_rooms w') \<and> set (wk_assigned_rooms w') = set (wk_assigned_rooms w) \<and>
     distinct (wk_seen_events w') \<and> set (wk_seen_events w') = set (wk_seen_events w) \<and>
     w' = w\<lparr>wk_assigned_rooms := wk_assigned_rooms w', wk_seen_events := wk_seen_events w'\<rparr>"

definition v2_perm :: "v2_table \<Rightarrow> v2_table \<Rightarrow> bool" where
  "v2_perm t t' \<longleftrightarrow>
     hm_ok (vt_rooms t') \<and> (\<forall>k. rel_option v2_room_perm (map_of (vt_rooms t) k) (map_of (vt_rooms t') k)) \<and>
     hm_ok (vt_workers t') \<and> (\<forall>k. rel_option worker_perm (map_of (vt_workers t) k) (map_of (vt_workers t') k)) \<and>
     hm_perm (vt_lifecycle_ids t) (vt_lifecycle_ids t') \<and>
     hm_perm (vt_pending_commands t) (vt_pending_commands t') \<and>
     hm_perm (vt_unacknowledged_commands t) (vt_unacknowledged_commands t') \<and>
     hm_perm (vt_command_workers t) (vt_command_workers t') \<and>
     vt_next_sfu_request_id t' = vt_next_sfu_request_id t \<and>
     vt_reconnect_grace t' = vt_reconnect_grace t \<and> vt_downgrade_dwell t' = vt_downgrade_dwell t \<and>
     vt_actions t' = vt_actions t"

lemma hm_perm_keys: "hm_perm m m' \<Longrightarrow> fst ` set m' = fst ` set m"
  unfolding set_eq_iff hm_keys_iff hm_perm_def by metis

lemma hm_perm_removed: "hm_ok m \<Longrightarrow> hm_perm m m' \<Longrightarrow> length (hm_remove k m') = length (hm_remove k m)"
  using length_hm_remove [of m k] length_hm_remove [of m' k] unfolding hm_perm_def by metis

lemma upgrade_ok_perm:
  "upgrade_ok u r \<Longrightarrow> hm_ok (vr_members r) \<Longrightarrow> hm_perm (vr_members r) M \<Longrightarrow> upgrade_ok u (r\<lparr>vr_members := M\<rparr>)"
  by (simp add: upgrade_ok_def hm_perm_removed hm_perm_keys)

lemma room_good_perm:
  assumes "room_good L rid r" "v2_room_perm r r'" "hm_perm L L'"
  shows "room_good L' rid r'"
proof -
  have L: "life_le L L'" using assms(3) by (simp add: life_le_def hm_perm_def)
  have p: "hm_perm (vr_members r) (vr_members r')" "r' = r\<lparr>vr_members := vr_members r'\<rparr>"
    using assms(2) by (simp_all add: v2_room_perm_def)
  have ok: "hm_ok (vr_members r)" using assms(1) by (simp add: room_good_def hm_all_def)
  have "room_good L rid (r\<lparr>vr_members := vr_members r'\<rparr>)"
    using assms(1) p(1) upgrade_ok_perm [OF _ ok p(1)]
    by (auto simp: room_good_def v2_room_ok_def mode_ok_def hm_perm_def
        intro: hm_all_perm [OF _ p(1)] split: option.splits room_mode.splits)
  then show ?thesis using room_good_mono [OF _ L] p(2) by simp
qed

lemma worker_ok_perm: "worker_ok w \<Longrightarrow> worker_perm w w' \<Longrightarrow> worker_ok w'"
proof -
  assume w: "worker_ok w" "worker_perm w w'"
  then have s: "distinct (wk_assigned_rooms w')" "distinct (wk_seen_events w')"
      "set (wk_seen_events w') = set (wk_seen_events w)"
      "w' = w\<lparr>wk_assigned_rooms := wk_assigned_rooms w', wk_seen_events := wk_seen_events w'\<rparr>"
    unfolding worker_perm_def by blast+
  have "worker_ok (w\<lparr>wk_assigned_rooms := as, wk_seen_events := es\<rparr>)"
    if "distinct as" "distinct es" "set es = set (wk_seen_events w)" for as es
    using w(1) that by (simp add: worker_ok_def)
  from this [OF s(1-3)] show ?thesis by (subst s(4))
qed

lemma rel_option_Some2: "rel_option R x (Some y) \<Longrightarrow> \<exists>z. x = Some z \<and> R z y"
  by (cases x) simp_all

lemma v2_inv_perm: "v2_inv t \<Longrightarrow> v2_perm t t' \<Longrightarrow> v2_inv t'"
proof -
  assume t: "v2_inv t" and p: "v2_perm t t'"
  have "room_good (vt_lifecycle_ids t') k r'" if k: "map_of (vt_rooms t') k = Some r'" for k r'
  proof -
    have "rel_option v2_room_perm (map_of (vt_rooms t) k) (Some r')"
      using p k unfolding v2_perm_def by metis
    then obtain r where "map_of (vt_rooms t) k = Some r" "v2_room_perm r r'"
      using rel_option_Some2 by metis
    moreover have "hm_perm (vt_lifecycle_ids t) (vt_lifecycle_ids t')" using p by (simp add: v2_perm_def)
    ultimately show ?thesis using room_good_perm [OF v2_invD(1) [OF t]] by metis
  qed
  moreover have "worker_ok w'" if k: "map_of (vt_workers t') k = Some w'" for k w'
  proof -
    have "rel_option worker_perm (map_of (vt_workers t) k) (Some w')"
      using p k unfolding v2_perm_def by metis
    then show ?thesis using rel_option_Some2 worker_ok_perm v2_invD(2) [OF t] by metis
  qed
  moreover have "cmds_ok t'"
  proof -
    have c: "cmds_ok t" using t by (simp add: v2_inv_def)
    have e: "map_of (vt_pending_commands t') = map_of (vt_pending_commands t)"
      "map_of (vt_unacknowledged_commands t') = map_of (vt_unacknowledged_commands t)"
      "map_of (vt_command_workers t') = map_of (vt_command_workers t)"
      "hm_ok (vt_pending_commands t')" "hm_ok (vt_command_workers t')"
      "vt_next_sfu_request_id t' = vt_next_sfu_request_id t"
      using p unfolding v2_perm_def hm_perm_def by blast+
    have "hm_all (\<lambda>k c. cm_request_id c = k) (vt_unacknowledged_commands t')"
      using c p hm_all_perm unfolding cmds_ok_def v2_perm_def by metis
    with c e show ?thesis unfolding cmds_ok_def e by blast
  qed
  moreover have "hm_ok (vt_rooms t')" "hm_ok (vt_workers t')" "hm_ok (vt_lifecycle_ids t')"
    using p unfolding v2_perm_def hm_perm_def by blast+
  ultimately show ?thesis unfolding v2_inv_def hm_all_iff by blast
qed

section \<open>The transition system\<close>

definition v2_initial :: "v2_table \<Rightarrow> bool" where
  "v2_initial t \<longleftrightarrow> t = v2_new (vt_reconnect_grace t)"

inductive v2_step :: "v2_table \<Rightarrow> v2_table \<Rightarrow> bool" where
  exec: "v2_step t (fst (v2_exec now op t))"
| rehash: "v2_perm t t' \<Longrightarrow> v2_step t t'"

inductive_cases v2_stepE: "v2_step t t'"

interpretation v2: invariant_system v2_initial v2_step v2_inv
proof
  show "v2_initial t \<Longrightarrow> v2_inv t" for t
    unfolding v2_initial_def by (metis v2_new_inv)
  show "v2_inv t \<Longrightarrow> v2_step t t' \<Longrightarrow> v2_inv t'" for t t'
    by (elim v2_stepE) (simp_all add: v2_exec_inv v2_inv_perm)
qed

lemma v2_reachable_exec:
  "reachable v2_initial v2_step t \<Longrightarrow> reachable v2_initial v2_step (fst (v2_exec now op t))"
  by (erule reachable_step) (rule v2_step.exec)

lemma v2_reachable_new: "reachable v2_initial v2_step (v2_new grace)"
  by (rule reachable_initial) (simp add: v2_initial_def v2_new_def)

section \<open>A sample run\<close>

text \<open>
  A worker registers and reports its health, two clients share a room, a third one starts an
  upgrade; \<open>sample_joined n\<close> is the table after the worker acknowledged \<open>n\<close> of the joins.
\<close>

definition sample_rid :: uuid where
  "sample_rid = [7, 7, 7, 7, 7, 7, 0x87, 7, 0x87, 7, 7, 7, 7, 7, 7, 7]"

definition sample_cap :: capacity where
  "sample_cap = \<lparr>max_rooms = 4, max_clients = 12\<rparr>"

definition sample_health :: health where
  "sample_health = \<lparr>he_state = Ready, he_capacity = sample_cap, he_current_rooms = 0, he_current_clients = 0\<rparr>"

definition v2_run :: "instant \<Rightarrow> v2_op list \<Rightarrow> v2_table \<Rightarrow> v2_table" where
  "v2_run now ops t = fold (\<lambda>op t. fst (v2_exec now op t)) ops t"

lemma v2_reachable_run:
  "reachable v2_initial v2_step t \<Longrightarrow> reachable v2_initial v2_step (v2_run now ops t)"
  by (induction ops arbitrary: t) (simp_all add: v2_run_def v2_reachable_exec)

definition sample_worker :: v2_table where
  "sample_worker = v2_run 5
     [V2Input (InputRegister 9 ''w1'' 1 sample_cap),
      V2Input (InputEvent 9 ''w1'' \<lparr>ev_request_id = 1, ev_event = EventHealth sample_health\<rparr>)] (v2_new 10)"

definition sample_pair :: v2_table where
  "sample_pair = v2_run 5
     [V2Admit 1 sample_rid 20 ''tok20'', V2Register sample_rid 20 ''tok20'',
      V2Admit 2 sample_rid 10 ''tok10''] sample_worker"

definition sample_ack :: "member_id \<Rightarrow> u64 \<Rightarrow> u64 \<Rightarrow> request_id \<Rightarrow> v2_op" where
  "sample_ack cid lifecycle epoch req = V2Input (InputCommandResult 9 ''w1''
     \<lparr>cr_request_id = req, cr_result = Inr (MemberJoined \<lparr>jm_room_id = sample_rid, jm_client_id = cid,
        jm_lifecycle_id = lifecycle, jm_assignment_epoch = epoch\<rparr>)\<rparr> 6)"

definition sample_upgrading :: v2_table where
  "sample_upgrading = v2_run 6 [V2Admit 3 sample_rid 15 ''tok15''] sample_pair"

definition sample_sfu :: v2_table where
  "sample_sfu = v2_run 6 [sample_ack 10 2 1 1, sample_ack 20 2 1 2, sample_ack 15 1 1 3] sample_upgrading"

text \<open>The samples evaluated once; what is computed from them starts here.\<close>

lemma sample_worker_state [code]:
  "sample_worker =
     \<lparr>vt_rooms = [], vt_workers = [(''w1'', \<lparr>wk_connection_id = Some 9,
     wk_capacity = sample_cap, wk_health = Some sample_health, wk_assigned_rooms = [],
     wk_assigned_clients = 0, wk_seen_events = [1], wk_seen_event_order = [1],
     wk_disconnect_deadline = None\<rparr>)], vt_lifecycle_ids = [], vt_pending_commands = [],
     vt_unacknowledged_commands = [], vt_command_workers = [], vt_next_sfu_request_id = 1,
     vt_reconnect_grace = 10, vt_downgrade_dwell = 2000, vt_actions = [ActionSfu
     (OutputRegistered 9 1 30000 False), ActionSfu (OutputEventAck 9 1)]\<rparr>"
  by code_simp

lemma sample_pair_state [code]:
  "sample_pair =
     \<lparr>vt_rooms = [(sample_rid, \<lparr>vr_members = [(20, \<lparr>mb_token = ''tok20'',
     mb_is_initiator = True, mb_lifecycle_id = 1, mb_registered = True, mb_reconnect_deadline =
     None, mb_queued_messages = []\<rparr>), (10, \<lparr>mb_token = ''tok10'', mb_is_initiator
     = False, mb_lifecycle_id = 1, mb_registered = False, mb_reconnect_deadline = Some 15,
     mb_queued_messages = []\<rparr>)], vr_mode = P2p, vr_signal_epoch = 0, vr_assignment_epoch
     = 0, vr_assigned_instance = None, vr_upgrade = None, vr_pending_join = None,
     vr_pending_leave = None, vr_downgrade_deadline = None\<rparr>)], vt_workers = [(''w1'',
     \<lparr>wk_connection_id = Some 9, wk_capacity = sample_cap, wk_health = Some
     sample_health, wk_assigned_rooms = [], wk_assigned_clients = 0, wk_seen_events = [1],
     wk_seen_event_order = [1], wk_disconnect_deadline = None\<rparr>)], vt_lifecycle_ids =
     [((sample_rid, 20), 1), ((sample_rid, 10), 1)], vt_pending_commands = [],
     vt_unacknowledged_commands = [], vt_command_workers = [], vt_next_sfu_request_id = 1,
     vt_reconnect_grace = 10, vt_downgrade_dwell = 2000, vt_actions = [ActionSfu
     (OutputRegistered 9 1 30000 False), ActionSfu (OutputEventAck 9 1)]\<rparr>"
  by code_simp

lemma sample_upgrading_state [code]:
  "sample_upgrading =
     \<lparr>vt_rooms = [(sample_rid, \<lparr>vr_members = [(20, \<lparr>mb_token = ''tok20'',
     mb_is_initiator = True, mb_lifecycle_id = 2, mb_registered = True, mb_reconnect_deadline =
     None, mb_queued_messages = []\<rparr>), (10, \<lparr>mb_token = ''tok10'', mb_is_initiator
     = False, mb_lifecycle_id = 2, mb_registered = False, mb_reconnect_deadline = Some 15,
     mb_queued_messages = []\<rparr>), (15, \<lparr>mb_token = ''tok15'', mb_is_initiator =
     False, mb_lifecycle_id = 1, mb_registered = False, mb_reconnect_deadline = Some 16,
     mb_queued_messages = []\<rparr>)], vr_mode = Upgrading, vr_signal_epoch = 0,
     vr_assignment_epoch = 1, vr_assigned_instance = Some ''w1'', vr_upgrade = Some
     \<lparr>up_authority_request_id = 3, up_joining_client_id = 15, up_ordered_clients = [10,
     20, 15], up_joined_clients = [], up_next_client = 0\<rparr>, vr_pending_join = None,
     vr_pending_leave = None, vr_downgrade_deadline = None\<rparr>)], vt_workers = [(''w1'',
     \<lparr>wk_connection_id = Some 9, wk_capacity = sample_cap, wk_health = Some
     sample_health, wk_assigned_rooms = [sample_rid], wk_assigned_clients = 3, wk_seen_events =
     [1], wk_seen_event_order = [1], wk_disconnect_deadline = None\<rparr>)], vt_lifecycle_ids =
     [((sample_rid, 20), 2), ((sample_rid, 10), 2), ((sample_rid, 15), 1)], vt_pending_commands
     = [(1, PendingUpgradeJoin ''w1'' sample_rid 10 2 1)], vt_unacknowledged_commands = [(1,
     \<lparr>cm_request_id = 1, cm_command = Join \<lparr>jm_room_id = sample_rid, jm_client_id
     = 10, jm_lifecycle_id = 2, jm_assignment_epoch = 1\<rparr>\<rparr>)], vt_command_workers =
     [(1, ''w1'')], vt_next_sfu_request_id = 2, vt_reconnect_grace = 10, vt_downgrade_dwell =
     2000, vt_actions = [ActionSfu (OutputRegistered 9 1 30000 False), ActionSfu (OutputEventAck
     9 1), ActionSfu (OutputCommand 9 \<lparr>cm_request_id = 1, cm_command = Join
     \<lparr>jm_room_id = sample_rid, jm_client_id = 10, jm_lifecycle_id = 2,
     jm_assignment_epoch = 1\<rparr>\<rparr>)]\<rparr>"
  by code_simp

lemma sample_sfu_state [code]:
  "sample_sfu =
     \<lparr>vt_rooms = [(sample_rid, \<lparr>vr_members = [(20, \<lparr>mb_token = ''tok20'',
     mb_is_initiator = False, mb_lifecycle_id = 2, mb_registered = True, mb_reconnect_deadline =
     None, mb_queued_messages = []\<rparr>), (10, \<lparr>mb_token = ''tok10'', mb_is_initiator
     = False, mb_lifecycle_id = 2, mb_registered = False, mb_reconnect_deadline = Some 15,
     mb_queued_messages = []\<rparr>), (15, \<lparr>mb_token = ''tok15'', mb_is_initiator =
     False, mb_lifecycle_id = 1, mb_registered = False, mb_reconnect_deadline = Some 16,
     mb_queued_messages = []\<rparr>)], vr_mode = Sfu, vr_signal_epoch = 1, vr_assignment_epoch
     = 1, vr_assigned_instance = Some ''w1'', vr_upgrade = None, vr_pending_join = None,
     vr_pending_leave = None, vr_downgrade_deadline = None\<rparr>)], vt_workers = [(''w1'',
     \<lparr>wk_connection_id = Some 9, wk_capacity = sample_cap, wk_health = Some
     sample_health, wk_assigned_rooms = [sample_rid], wk_assigned_clients = 3, wk_seen_events =
     [1], wk_seen_event_order = [1], wk_disconnect_deadline = None\<rparr>)], vt_lifecycle_ids =
     [((sample_rid, 20), 2), ((sample_rid, 10), 2), ((sample_rid, 15), 1)], vt_pending_commands
     = [], vt_unacknowledged_commands = [], vt_command_workers = [], vt_next_sfu_request_id = 4,
     vt_reconnect_grace = 10, vt_downgrade_dwell = 2000, vt_actions = [ActionSfu
     (OutputRegistered 9 1 30000 False), ActionSfu (OutputEventAck 9 1), ActionSfu
     (OutputCommand 9 \<lparr>cm_request_id = 1, cm_command = Join \<lparr>jm_room_id =
     sample_rid, jm_client_id = 10, jm_lifecycle_id = 2, jm_assignment_epoch =
     1\<rparr>\<rparr>), ActionSfu (OutputCommand 9 \<lparr>cm_request_id = 2, cm_command = Join
     \<lparr>jm_room_id = sample_rid, jm_client_id = 20, jm_lifecycle_id = 2,
     jm_assignment_epoch = 1\<rparr>\<rparr>), ActionSfu (OutputCommand 9 \<lparr>cm_request_id
     = 3, cm_command = Join \<lparr>jm_room_id = sample_rid, jm_client_id = 15, jm_lifecycle_id
     = 1, jm_assignment_epoch = 1\<rparr>\<rparr>), Upgraded sample_rid 1 [20, 10],
     AdmissionCompleted 3 (Inr \<lparr>ad_mode = Sfu, ad_signal_epoch = 1, ad_admission_token =
     ''tok15'', ad_is_initiator = None\<rparr>)]\<rparr>"
  by code_simp

lemma sample_reachable:
  "reachable v2_initial v2_step sample_worker" "reachable v2_initial v2_step sample_pair"
  "reachable v2_initial v2_step sample_upgrading" "reachable v2_initial v2_step sample_sfu"
  unfolding sample_sfu_def sample_upgrading_def sample_pair_def sample_worker_def
  by (intro v2_reachable_run v2_reachable_new)+

lemmas sample_inv = sample_reachable [THEN v2.inv_reachable]

section \<open>Properties of all reachable tables\<close>

text \<open>
  C15. In every table a run of V2 operations can reach, with any rehashing in between, each
  room's fields agree with its mode: a P2P room has at most two members, no worker and no
  transition under way; an upgrading room has its worker and an upgrade of exactly its three
  members, the joining one last; an SFU room has a worker, no upgrade, and members with empty
  queues and no initiator. No member's queue exceeds 1024 messages.
\<close>

theorem v2_reachable_rooms:
  assumes "reachable v2_initial v2_step t" "map_of (vt_rooms t) rid = Some r"
  shows "distinct (map fst (vr_members r)) \<and>
    (\<forall>(c, m) \<in> set (vr_members r). length (mb_queued_messages m) \<le> 1024) \<and>
    (case vr_mode r of
       P2p \<Rightarrow> length (vr_members r) \<le> 2 \<and> vr_assigned_instance r = None \<and> vr_upgrade r = None \<and>
         vr_pending_join r = None \<and> vr_pending_leave r = None \<and> vr_downgrade_deadline r = None
     | Upgrading \<Rightarrow> vr_assigned_instance r \<noteq> None \<and> (\<exists>u. vr_upgrade r = Some u \<and>
         length (up_ordered_clients u) = 3 \<and> distinct (up_ordered_clients u) \<and>
         set (up_ordered_clients u) = fst ` set (vr_members r) \<and>
         last (up_ordered_clients u) = up_joining_client_id u \<and> up_next_client u < 3)
     | Sfu \<Rightarrow> vr_assigned_instance r \<noteq> None \<and> vr_upgrade r = None \<and>
         (\<forall>(c, m) \<in> set (vr_members r). mb_queued_messages m = [] \<and> \<not> mb_is_initiator m)
     | Failed \<Rightarrow> True)"
proof -
  have "room_good (vt_lifecycle_ids t) rid r"
    by (rule v2_invD(1) [OF v2.inv_reachable [OF assms(1)] assms(2)])
  then have m: "hm_all (\<lambda>c m. member_ok (vr_mode r) m) (vr_members r)" and mode: "mode_ok r"
    and u: "\<And>u. vr_upgrade r = Some u \<Longrightarrow> upgrade_ok u r"
    by (auto simp: room_good_def v2_room_ok_def split: option.splits)
  have "vr_mode r = Sfu \<Longrightarrow> \<forall>(c, m) \<in> set (vr_members r). mb_queued_messages m = [] \<and> \<not> mb_is_initiator m"
    using m by (auto simp: hm_all_def member_ok_def)
  moreover have "vr_mode r = Upgrading \<Longrightarrow> vr_assigned_instance r \<noteq> None \<and> (\<exists>u. vr_upgrade r = Some u \<and>
         length (up_ordered_clients u) = 3 \<and> distinct (up_ordered_clients u) \<and>
         set (up_ordered_clients u) = fst ` set (vr_members r) \<and>
         last (up_ordered_clients u) = up_joining_client_id u \<and> up_next_client u < 3)"
    using mode u unfolding mode_ok_def upgrade_ok_def by auto
  moreover have "distinct (map fst (vr_members r))"
    "\<forall>(c, m) \<in> set (vr_members r). length (mb_queued_messages m) \<le> 1024"
    using m by (auto simp: hm_all_def member_ok_def MAX_QUEUED_MESSAGES_def)
  ultimately show ?thesis
    using mode by (auto simp: mode_ok_def MAX_P2P_MEMBERS_def split: room_mode.split)
qed

theorem v2_reachable_rooms_witness:
  "vr_assigned_instance (the (map_of (vt_rooms sample_upgrading) sample_rid)) \<noteq> None \<and>
   vr_mode (the (map_of (vt_rooms sample_upgrading) sample_rid)) = Upgrading"
proof -
  let ?r = "the (map_of (vt_rooms sample_upgrading) sample_rid)"
  have r: "map_of (vt_rooms sample_upgrading) sample_rid = Some ?r" and m: "vr_mode ?r = Upgrading"
    by code_simp+
  from v2_reachable_rooms [OF sample_reachable(3) r] m show ?thesis by simp
qed

text \<open>
  C22. No operation panics in a reachable table: every \<^verbatim>\<open>expect\<close> and every indexing of the V2
  authority is justified by the states its operations can produce.
\<close>

theorem v2_no_panic:
  assumes "reachable v2_initial v2_step t"
  shows "snd (v2_exec now op t) \<noteq> Panicked"
  using v2_exec_inv [OF v2.inv_reachable [OF assms]] by simp

theorem v2_no_panic_witness: "snd (v2_exec 7 (sample_ack 10 2 1 1) sample_upgrading) \<noteq> Panicked"
  by (rule v2_no_panic [OF sample_reachable(3)])

text \<open>
  C31. The bookkeeping of worker commands never diverges: in a reachable table the pending,
  the unacknowledged and the per-worker map hold the same request ids, each command is filed
  under its own id, and the next id is in use by none of them until the counter saturates
  at the largest \<^verbatim>\<open>u64\<close>.
\<close>

theorem v2_command_ids:
  assumes "reachable v2_initial v2_step t"
  shows "fst ` set (vt_unacknowledged_commands t) = fst ` set (vt_pending_commands t) \<and>
    fst ` set (vt_command_workers t) = fst ` set (vt_pending_commands t) \<and>
    (\<forall>(k, c) \<in> set (vt_unacknowledged_commands t). cm_request_id c = k) \<and>
    (vt_next_sfu_request_id t = - 1 \<or> vt_next_sfu_request_id t \<notin> fst ` set (vt_pending_commands t))"
proof -
  have c: "cmds_ok t" using v2.inv_reachable [OF assms] by (simp add: v2_inv_def)
  then have "\<forall>(k, c) \<in> set (vt_unacknowledged_commands t). cm_request_id c = k"
    by (simp add: cmds_ok_def hm_all_def)
  moreover have "vt_next_sfu_request_id t = - 1 \<or> \<not> hm_contains (vt_pending_commands t) (vt_next_sfu_request_id t)"
    using c unfolding cmds_ok_def by (metis order_less_irrefl)
  ultimately show ?thesis
    using c unfolding cmds_ok_def set_eq_iff hm_keys_iff by blast
qed

theorem v2_command_ids_witness:
  "fst ` set (vt_command_workers sample_upgrading) = {1} \<and>
   fst ` set (vt_unacknowledged_commands sample_upgrading) = {1}"
proof -
  have "map fst (vt_pending_commands sample_upgrading) = [1]" by code_simp
  then have "fst ` set (vt_pending_commands sample_upgrading) = {1}" by (metis list.set_map list.simps(15) empty_set)
  with v2_command_ids [OF sample_reachable(3)] show ?thesis by simp
qed

end
