(* ===== verification/V2_Room_Rule.thy ===== *)
theory V2_Room_Rule
  imports V2_System
begin

text \<open>
  A rule for what happens to a room: the locale \<open>room_rule\<close> takes a relation between the
  earlier and the later state of a room, assumes that it is a preorder which every small update
  of the handlers respects, and shows that every operation of the authority keeps each room
  that persists within it. Admissions, registrations and sends, which do what the relations of
  the clients speak of, are left to the client.
\<close>

section \<open>Relations on tables\<close>

text \<open>
  The SFU phase: an SFU room, or a failed one with no upgrade left that could bring it back.
\<close>

definition sfu_side :: "v2_room \<Rightarrow> bool" where
  "sfu_side r \<longleftrightarrow> vr_mode r = Sfu \<or> vr_mode r = Failed \<and> vr_upgrade r = None"

lemma sfu_side_upgrade:
  "v2_inv t \<Longrightarrow> map_of (vt_rooms t) rid = Some r \<Longrightarrow> vr_upgrade r = Some u \<Longrightarrow> \<not> sfu_side r"
  using v2_invD(1) [of t rid r] by (auto simp: sfu_side_def room_good_def v2_room_ok_def mode_ok_def)

text \<open>Every room of the new table was there and is related to what it was.\<close>

definition rooms_rel :: "(v2_room \<Rightarrow> v2_room \<Rightarrow> bool) \<Rightarrow> v2_table \<Rightarrow> v2_table \<Rightarrow> bool" where
  "rooms_rel R t t' \<longleftrightarrow>
     (\<forall>rid r'. map_of (vt_rooms t') rid = Some r' \<longrightarrow>
        (\<exists>r. map_of (vt_rooms t) rid = Some r \<and> R r r'))"

lemma rooms_relD:
  "rooms_rel R t t' \<Longrightarrow> map_of (vt_rooms t) rid = Some r \<Longrightarrow> map_of (vt_rooms t') rid = Some r' \<Longrightarrow> R r r'"
  unfolding rooms_rel_def by (metis option.inject)

lemma rooms_rel_put:
  "rooms_rel R t t' \<Longrightarrow> map_of (vt_rooms t) rid = Some r \<Longrightarrow> R r r' \<Longrightarrow> rooms_rel R t (put_room rid r' t')"
  by (auto simp: rooms_rel_def)

lemma rooms_rel_drop: "rooms_rel R t t' \<Longrightarrow> rooms_rel R t (drop_room rid t')"
  by (auto simp: rooms_rel_def)

lemma rooms_rel_frame [simp]:
  "rooms_rel R t (push_action a t') = rooms_rel R t t'"
  "rooms_rel R t (issue_command inst conn kind p t') = rooms_rel R t t'"
  "rooms_rel R t (put_worker inst w t') = rooms_rel R t t'"
  "rooms_rel R t (on_worker inst f t') = rooms_rel R t t'"
  "rooms_rel R t (forget_command req t') = rooms_rel R t t'"
  "rooms_rel R (forget_command req t) t' = rooms_rel R t t'"
  "rooms_rel R (on_worker inst f t) t' = rooms_rel R t t'"
  by (simp_all add: rooms_rel_def)

section \<open>Operations that leave the rooms alone\<close>

lemma issue_next_upgrade_join_rooms: "vt_rooms (fst (issue_next_upgrade_join rid t)) = vt_rooms t"
  by (auto simp: issue_next_upgrade_join_def Let_def split: option.split)

lemma cleanup_joined_rooms: "vt_rooms (fst (cleanup_joined inst conn rid epoch cids t)) = vt_rooms t"
  by (induction cids arbitrary: t) (auto split: option.split)

lemma leave_all_rooms: "vt_rooms (leave_all inst conn rid epoch leaving t) = vt_rooms t"
  by (induction leaving arbitrary: t) auto

lemma sync_rooms_rooms: "vt_rooms (sync_rooms inst conn rids t) = vt_rooms t"
  by (induction rids arbitrary: t) (auto split: option.split)

lemma forget_commands_rooms [simp]: "vt_rooms (fold forget_command reqs t) = vt_rooms t"
  by (induction reqs arbitrary: t) auto

lemma register_worker_rooms: "vt_rooms (fst (register_worker conn inst req cap t)) = vt_rooms t"
  by (auto simp: register_worker_def Let_def sync_rooms_rooms split: option.split)

lemma worker_signal_rooms: "vt_rooms (fst (worker_signal inst s t)) = vt_rooms t"
  by (auto simp: worker_signal_def split: option.split)

lemma worker_disconnected_rooms: "vt_rooms (worker_disconnected conn inst now t) = vt_rooms t"
  by (auto simp: worker_disconnected_def split: option.split)

lemma push_actions_rooms: "vt_rooms (fold (\<lambda>c. push_action (f c)) cs t) = vt_rooms t"
  by (induction cs arbitrary: t) simp_all

section \<open>The rule\<close>

fun joins_or_sends :: "v2_op \<Rightarrow> bool" where
  "joins_or_sends (V2Admit areq rid cid token) = True"
| "joins_or_sends (V2Register rid cid token) = True"
| "joins_or_sends (V2Send rid cid epoch msg) = True"
| "joins_or_sends op = False"

locale room_rule =
  fixes R :: "v2_room \<Rightarrow> v2_room \<Rightarrow> bool"
  assumes same: "vr_signal_epoch r' = vr_signal_epoch r \<Longrightarrow> vr_mode r' = vr_mode r \<Longrightarrow>
      vr_upgrade r' = vr_upgrade r \<Longrightarrow> vr_members r' = vr_members r \<Longrightarrow> R r r'"
    and trans: "R r r' \<Longrightarrow> R r' r'' \<Longrightarrow> R r r''"
    and epoch: "vr_signal_epoch r' = sat_add (vr_signal_epoch r) 1 \<Longrightarrow> R r r'"
    and failed: "vr_signal_epoch r' = vr_signal_epoch r \<Longrightarrow> vr_mode r' = Failed \<Longrightarrow>
      (vr_mode r = Sfu \<longrightarrow> vr_upgrade r = None) \<Longrightarrow> vr_upgrade r' = vr_upgrade r \<Longrightarrow>
      vr_members r' = vr_members r \<Longrightarrow> R r r'"
    and aborted: "\<not> sfu_side r \<Longrightarrow> vr_mode r' = P2p \<Longrightarrow> vr_signal_epoch r' = vr_signal_epoch r \<Longrightarrow>
      vr_members r' = hm_remove c (vr_members r) \<Longrightarrow> R r r'"
    and advanced: "\<not> sfu_side r \<Longrightarrow> vr_mode r' = vr_mode r \<Longrightarrow> vr_signal_epoch r' = vr_signal_epoch r \<Longrightarrow>
      vr_members r' = vr_members r \<Longrightarrow> R r r'"
    and removed: "R r (remove_member c r)"
    and member: "map_of (vr_members r) c = Some m \<Longrightarrow> mb_queued_messages m' = mb_queued_messages m \<Longrightarrow>
      (mb_registered m' \<Longrightarrow> mb_registered m) \<Longrightarrow> R r (put_member c m' r)"
    and promoted: "R r (fst (promote_survivor rid r))"
begin

abbreviation rel :: "v2_table \<Rightarrow> v2_table \<Rightarrow> bool" where
  "rel \<equiv> rooms_rel R"

lemma refl [simp]: "R r r"
  by (rule same) simp_all

lemma rel_same [intro]: "vt_rooms t' = vt_rooms t \<Longrightarrow> rel t t'"
  by (auto simp: rooms_rel_def)

lemma rel_refl [simp]: "rel t t"
  by (rule rel_same) simp

lemma rel_trans: "rel t t' \<Longrightarrow> rel t' t'' \<Longrightarrow> rel t t''"
  unfolding rooms_rel_def by (meson trans)

lemma put [intro]: "map_of (vt_rooms t) rid = Some r \<Longrightarrow> R r q \<Longrightarrow> rel t (put_room rid q t)"
  by (rule rooms_rel_put) simp_all

subsection \<open>Browser operations\<close>

lemma issue_sfu_leave: "rel t (fst (issue_sfu_leave rid cid reason t))"
  by (auto simp: issue_sfu_leave_def split: option.split intro!: put same)

lemma arm_reconnect: "rel t (arm_reconnect now rid cid t)"
  by (auto simp: arm_reconnect_def split: option.split intro!: put member)

lemma leave_or_arm:
  "rel t (case issue_sfu_leave rid cid reason t of
     (t1, True) \<Rightarrow> t1 | (t1, False) \<Rightarrow> arm_reconnect now rid cid t1)"
  using issue_sfu_leave [of t rid cid reason]
  by (auto split: prod.split bool.split intro: rel_trans arm_reconnect)

lemma deregister: "rel t (v2_deregister now rid cid t)"
proof -
  have "rel t (put_room rid (put_member cid (m\<lparr>mb_registered := False\<rparr>) r) t)"
    if "map_of (vt_rooms t) rid = Some r" "map_of (vr_members r) cid = Some m" for m r
    using that by (intro put [OF that(1)] member [OF that(2)]) simp_all
  note down = rel_trans [OF this]
  show ?thesis
    by (auto simp: v2_deregister_def Let_def down [OF _ _ leave_or_arm] down [OF _ _ arm_reconnect]
        split: option.split)
qed

lemma remove: "rel t (fst (v2_remove areq rid cid token t))"
proof (cases "map_of (vt_rooms t) rid")
  case None
  then show ?thesis by (simp add: v2_remove_def)
next
  case (Some r)
  note room = put [OF Some] put [OF Some, THEN rooms_rel_drop]
  have prom: "R r q" if "promote_survivor rid (remove_member cid r) = (q, p)" for q p
    using trans [OF removed promoted [where r = "remove_member cid r" and rid = rid]] that by simp
  show ?thesis
    using room prom removed
    by (auto simp: v2_remove_def Some Let_def same split: option.split prod.split)
qed

subsection \<open>Worker operations\<close>

lemma fail_room: "v2_inv t \<Longrightarrow> rel t (fail_room rid reason t)"
proof (cases "map_of (vt_rooms t) rid")
  case (Some r)
  assume "v2_inv t"
  then have "vr_mode r = Sfu \<Longrightarrow> vr_upgrade r = None"
    using v2_invD(1) [OF _ Some] by (auto simp: room_good_def v2_room_ok_def mode_ok_def)
  then show ?thesis by (auto simp: fail_room_def Some intro!: put failed)
qed (simp add: fail_room_def)

lemma commit_upgrade:
  assumes "map_of (vt_rooms t0) rid = Some r0" "rel t0 t"
    "\<And>r. map_of (vt_rooms t) rid = Some r \<Longrightarrow> vr_signal_epoch r = vr_signal_epoch r0"
  shows "rel t0 (fst (commit_upgrade rid t))"
  using assms by (auto simp: commit_upgrade_def Let_def split: option.split
      intro!: rooms_rel_put epoch)

lemma abort_upgrade:
  assumes t: "v2_inv t"
  shows "rel t (fst (abort_upgrade rid reason t))"
proof (cases "map_of (vt_rooms t) rid")
  case None
  then show ?thesis by (simp add: abort_upgrade_def)
next
  case (Some r)
  have room: "rel t (put_room rid q t)"
    if "vr_upgrade r = Some u" "vr_mode q = P2p" "vr_signal_epoch q = vr_signal_epoch r"
      "vr_members q = hm_remove (up_joining_client_id u) (vr_members r)" for q u
    using that sfu_side_upgrade [OF t Some] by (intro put [OF Some] aborted)
  have clean: "rel t' t2" if "cleanup_joined inst c rid e cs t' = (t2, res)" for inst c e cs t' t2 res
    using cleanup_joined_rooms [of inst c rid e cs t'] that by auto
  show ?thesis
    using room by (auto simp: abort_upgrade_def Some Let_def split: option.split prod.split sum.split
        dest!: clean elim!: rel_trans [rotated])
qed

lemma arm_downgrade: "rel t (arm_downgrade rid now t)"
  by (auto simp: arm_downgrade_def split: option.split intro!: put same)

lemma commit_downgrade: "rel t (fst (commit_downgrade rid t))"
  by (auto simp: commit_downgrade_def Let_def rooms_rel_def leave_all_rooms epoch
      split: option.split list.split)

lemma handle_worker_event:
  assumes t: "v2_inv t"
  shows "rel t (fst (handle_worker_event conn inst event t))"
proof -
  let ?t1 = "\<lambda>w. put_worker inst (remember_event (ev_request_id event) w) t"
  have fail: "rel t (fail_room rid reason (?t1 w))"
    if "map_of (vt_workers t) inst = Some w" "ev_request_id event \<notin> set (wk_seen_events w)" for rid reason w
  proof -
    have "v2_inv (?t1 w)" using t remember_event_ok(1) [OF v2_invD(2) [OF t that(1)] that(2)] by auto
    from fail_room [OF this] show ?thesis by (rule rel_trans [rotated]) auto
  qed
  have signal: "rel t t2" if "worker_signal inst s (?t1 w) = (t2, res)" for s w t2 res
    using worker_signal_rooms [of inst s "?t1 w"] that by auto
  show ?thesis
    using fail by (auto simp: handle_worker_event_def Let_def split: option.split event_kind.split
        prod.split sum.split dest: signal)
qed

lemma upgrade_join_result:
  assumes t: "v2_inv t"
  shows "rel t (fst (upgrade_join_result rid cid valid reason t))"
proof -
  have room: "rel t (put_room rid (r\<lparr>vr_upgrade := Some u'\<rparr>) t)"
    if "map_of (vt_rooms t) rid = Some r" "vr_upgrade r = Some u" for r u u'
    using that sfu_side_upgrade [OF t that] by (intro put advanced) simp_all
  have "rel t (fst (commit_upgrade rid (put_room rid (r\<lparr>vr_upgrade := Some u'\<rparr>) t)))"
    if "map_of (vt_rooms t) rid = Some r" "vr_upgrade r = Some u" for r u u'
    using room [OF that] that(1) by (intro commit_upgrade) auto
  moreover have "rel t (fst (issue_next_upgrade_join rid (put_room rid (r\<lparr>vr_upgrade := Some u'\<rparr>) t)))"
    if "map_of (vt_rooms t) rid = Some r" "vr_upgrade r = Some u" for r u u'
    using room [OF that] by (simp add: rooms_rel_def issue_next_upgrade_join_rooms)
  ultimately show ?thesis
    using abort_upgrade [OF t] by (auto simp: upgrade_join_result_def Let_def split: option.split)
qed

lemma sfu_join_result: "rel t (fst (sfu_join_result inst rid cid valid reason t))"
proof -
  have "R r (remove_member c (r\<lparr>vr_pending_join := None\<rparr>))" for r c
    by (rule trans [OF _ removed]) (simp add: same)
  moreover have "R r (r\<lparr>vr_pending_join := None\<rparr>)" for r
    by (simp add: same)
  ultimately show ?thesis
    by (auto simp: sfu_join_result_def Let_def split: option.split intro!: put)
qed

lemma sfu_leave_result: "rel t (fst (sfu_leave_result now inst rid cid valid reason t))"
proof -
  have complete: "rel t ((case q of None \<Rightarrow> id | Some areq \<Rightarrow> push_action (h areq)) t') = rel t t'"
    for q :: "u64 option" and h t' by (simp split: option.split)
  have gone: "R r (remove_member cid (r\<lparr>vr_pending_leave := None\<rparr>))" for r
    by (rule trans [OF _ removed]) (simp add: same)
  have kept: "R r (r\<lparr>vr_pending_leave := None\<rparr>)" for r
    by (simp add: same)
  have arm: "rel t t' \<Longrightarrow> rel t (arm_downgrade rid now t')" for t'
    by (rule rel_trans [OF _ arm_downgrade])
  show ?thesis
    by (auto simp: sfu_leave_result_def Let_def complete split: option.split
        intro!: put arm gone kept rooms_rel_drop)
qed

lemma handle_sfu_input:
  assumes t: "v2_inv t"
  shows "rel t (fst (handle_sfu_input input t))"
proof -
  have t1: "v2_inv (forget_command req t)" for req using t by simp
  have from_forget: "rel t t'" if "rel (forget_command req t) t'" for req t' using that by simp
  have "rel t (fst (handle_command_result conn inst result now t))" for conn inst result now
    by (auto simp: handle_command_result_def Let_def rel_same push_actions_rooms
        split: option.split pending_command.split
        intro!: from_forget [OF upgrade_join_result [OF t1]] from_forget [OF sfu_join_result]
          from_forget [OF sfu_leave_result] from_forget [OF fail_room [OF t1]])
  then show ?thesis
    using handle_worker_event [OF t]
    by (auto simp: handle_sfu_input_def register_worker_rooms worker_disconnected_rooms rel_same split: sfu_input.split)
qed

subsection \<open>Timeouts\<close>

lemma expire_assigned_room:
  assumes t: "v2_inv t"
  shows "rel t (expire_assigned_room rid t)"
proof (cases "map_of (vt_rooms t) rid")
  case None
  then show ?thesis by (simp add: expire_assigned_room_def)
next
  case (Some r)
  have sfu: "vr_mode q = Sfu \<longrightarrow> vr_upgrade q = None" if "vr_mode q = vr_mode r" "vr_upgrade q = vr_upgrade r" for q
    using v2_invD(1) [OF t Some] that by (auto simp: room_good_def v2_room_ok_def mode_ok_def)
  have fail: "rel t (put_room rid q t)"
    if "R r p" "vr_mode p = vr_mode r" "vr_upgrade p = vr_upgrade r" "vr_members q = vr_members p"
      "vr_signal_epoch q = vr_signal_epoch p" "vr_mode q = Failed" "vr_upgrade q = vr_upgrade p" for p q
    using that sfu [OF that(2,3)] by (intro put [OF Some] trans [OF that(1)] failed) simp_all
  have "rel t (put_room rid q t)"
    if "vr_members q = vr_members r" "vr_signal_epoch q = vr_signal_epoch r" "vr_mode q = Failed"
      "vr_upgrade q = vr_upgrade r" for q
    using that by (intro fail [of r q]) simp_all
  moreover have "rel t (put_room rid q t)"
    if "vr_members q = hm_remove c (vr_members r)" "vr_signal_epoch q = vr_signal_epoch r"
      "vr_mode q = Failed" "vr_upgrade q = vr_upgrade r" for q c
    using that by (intro fail [OF removed]) simp_all
  ultimately show ?thesis
    using abort_upgrade [OF t]
    by (simp add: expire_assigned_room_def Some Let_def split: option.split)
qed

lemma expire_rooms: "v2_inv t \<Longrightarrow> rel t (fold expire_assigned_room rids t)"
proof (induction rids arbitrary: t)
  case Nil
  then show ?case by simp
next
  case (Cons rid rids)
  have "rel (expire_assigned_room rid t) (fold expire_assigned_room rids (expire_assigned_room rid t))"
    by (rule Cons.IH [OF expire_assigned_room_inv [OF Cons.prems]])
  with expire_assigned_room [OF Cons.prems] show ?case by (auto intro: rel_trans)
qed

lemma expire_workers: "v2_inv t \<Longrightarrow> rel t (fold expire_worker insts t)"
proof (induction insts arbitrary: t)
  case Nil
  then show ?case by simp
next
  case (Cons inst insts)
  have "rel t (expire_worker inst t)"
    using expire_rooms [OF Cons.prems] by (simp add: expire_worker_def Let_def rooms_rel_def)
  with Cons.IH [OF expire_worker_inv [OF Cons.prems]] show ?case by (auto intro: rel_trans)
qed

lemma removed_all: "R r (fold remove_member cs r)"
proof (induction cs arbitrary: r)
  case (Cons c cs)
  show ?case using trans [OF removed Cons.IH] by simp
qed simp

lemma sweep_p2p:
  assumes "map_of (vt_rooms t) rid = Some r"
  shows "rel t (fst (sweep_p2p now rid r t))"
proof -
  have "R r q" if "promote_survivor rid (fold remove_member cs r) = (q, p)" for cs q p
    using trans [OF removed_all promoted [where r = "fold remove_member cs r" and rid = rid]] that by simp
  with put [OF assms] removed_all show ?thesis
    by (auto simp: sweep_p2p_def Let_def split: prod.split if_splits intro!: rooms_rel_drop)
qed

lemma sweep_room: "rel t (fst (sweep_room now rid t))"
proof (cases "map_of (vt_rooms t) rid")
  case None
  then show ?thesis by (simp add: sweep_room_def)
next
  case (Some r)
  have "rel t (put_room rid (r\<lparr>vr_downgrade_deadline := None\<rparr>) t)"
    using Some by (intro put same) auto
  moreover have "rel t (fst (case issue_sfu_leave rid cid reason t of
      (t1, True) \<Rightarrow> (t1, p) | (t1, False) \<Rightarrow> (arm_reconnect now rid cid t1, p)))" for cid reason and p :: "promotion option"
    using leave_or_arm [of t now rid cid reason] by (auto split: prod.splits bool.splits)
  ultimately show ?thesis
    using commit_downgrade [of t rid] sweep_p2p [OF Some]
    by (simp add: sweep_room_def Some split: option.split)
qed

lemma sweep_rooms: "rel t (fst (sweep_rooms now rids t))"
proof (induction rids arbitrary: t)
  case Nil
  then show ?case by simp
next
  case (Cons rid rids)
  have "rel t (fst (sweep_rooms now rids (fst (sweep_room now rid t))))"
    using sweep_room Cons.IH by (rule rel_trans)
  then show ?case by (simp add: case_prod_beta)
qed

lemma handle_timeout: "v2_inv t \<Longrightarrow> rel t (fst (v2_handle_timeout now t))"
  unfolding v2_handle_timeout_def Let_def
  by (rule rel_trans [OF expire_workers sweep_rooms])

subsection \<open>All operations but the browser's joins and messages\<close>

lemma clear: "rel t (v2_clear t)"
  by (simp add: v2_clear_def rooms_rel_def)

lemma exec:
  assumes "v2_inv t" "\<not> joins_or_sends op"
  shows "rel t (fst (v2_exec now op t))"
  using assms
  by (cases op) (simp_all add: deregister remove handle_sfu_input handle_timeout clear rel_same
      v2_poll_action_def set_downgrade_dwell_def split: list.split)

end

end
