(* ===== verification/V2_Epochs.thy ===== *)
theory V2_Epochs
  imports V2_Room_Rule
begin

text \<open>
  Signal epochs fence off the P2P and the SFU phases of a room: whatever happens, a room that
  persists never goes back to an older epoch, and it cannot enter or leave the SFU phase
  without a new one. So a message tagged with the epoch of one phase is dropped in the next.
\<close>

section \<open>Evolution of a room\<close>

text \<open>
  The epoch counter saturates at the largest \<^verbatim>\<open>u64\<close>, where it stops to tell phases apart.
\<close>

definition evolves :: "v2_room \<Rightarrow> v2_room \<Rightarrow> bool" where
  "evolves r r' \<longleftrightarrow>
     vr_signal_epoch r \<le> vr_signal_epoch r' \<and>
     (vr_signal_epoch r' = vr_signal_epoch r \<and> vr_signal_epoch r \<noteq> - 1 \<longrightarrow>
        (sfu_side r \<longrightarrow> sfu_side r') \<and> (vr_mode r' = Sfu \<longrightarrow> vr_mode r = Sfu))"

lemma evolves_refl [simp]: "evolves r r"
  by (simp add: evolves_def)

lemma evolves_trans: "evolves r r' \<Longrightarrow> evolves r' r'' \<Longrightarrow> evolves r r''"
  unfolding evolves_def by (metis order_antisym order_trans)

lemma evolves_same:
  "vr_signal_epoch r' = vr_signal_epoch r \<Longrightarrow> vr_mode r' = vr_mode r \<Longrightarrow>
     vr_upgrade r' = vr_upgrade r \<Longrightarrow> evolves r r'"
  by (simp add: evolves_def sfu_side_def)

lemma evolves_epoch: "vr_signal_epoch r' = sat_add (vr_signal_epoch r) 1 \<Longrightarrow> evolves r r'"
  using sat_add_ge [of "vr_signal_epoch r" 1] sat_add_one_gt [of "vr_signal_epoch r"]
  by (auto simp: evolves_def)

lemma evolves_failed:
  "vr_signal_epoch r' = vr_signal_epoch r \<Longrightarrow> vr_mode r' = Failed \<Longrightarrow>
     (vr_mode r = Sfu \<longrightarrow> vr_upgrade r = None) \<Longrightarrow> vr_upgrade r' = vr_upgrade r \<Longrightarrow> evolves r r'"
  by (auto simp: evolves_def sfu_side_def)

text \<open>Every operation of the authority lets a room evolve: the room rule, and three more.\<close>

interpretation evolution: room_rule evolves
proof (unfold_locales, goal_cases)
  case 2
  then show ?case by (rule evolves_trans)
next
  case (9 rid r)
  show ?case by (auto simp: promote_survivor_def Let_def split: list.split intro: evolves_same)
qed (simp_all add: evolves_same evolves_epoch evolves_failed evolves_def [of _ "remove_member _ _"]
      evolves_def [of _ "put_member _ _ _"], auto simp: evolves_def sfu_side_def)

abbreviation rooms_evolve :: "v2_table \<Rightarrow> v2_table \<Rightarrow> bool" where
  "rooms_evolve \<equiv> rooms_rel evolves"

section \<open>Admission, registration and sending\<close>

lemma refresh_lifecycles_evolves:
  "map_of (vt_rooms t0) rid = Some r0 \<Longrightarrow> rooms_evolve t0 t \<Longrightarrow> rooms_evolve t0 (fst (refresh_lifecycles rid cids t))"
proof (induction cids arbitrary: t)
  case Nil
  then show ?case by simp
next
  case (Cons c cids)
  obtain t1 l where l: "next_lifecycle rid c t = (t1, l)" by force
  have t1: "vt_rooms t1 = vt_rooms t" using next_lifecycle_put_room [OF l] by simp
  then have e1: "rooms_evolve t0 t1" using Cons.prems(2) by (simp add: rooms_rel_def)
  have "rooms_evolve t0 (put_room rid (put_member c (m\<lparr>mb_lifecycle_id := l\<rparr>) r) t1)"
    if "map_of (vt_rooms t1) rid = Some r" for r m
  proof -
    have "evolves r0 r" by (rule rooms_relD [OF e1 Cons.prems(1) that])
    then have "evolves r0 (put_member c (m\<lparr>mb_lifecycle_id := l\<rparr>) r)"
      by (rule evolves_trans) (simp add: evolves_same)
    with e1 Cons.prems(1) show ?thesis by (intro rooms_rel_put)
  qed
  with Cons.IH [OF Cons.prems(1)] e1 show ?case by (auto simp: l split: option.split)
qed

lemma begin_upgrade_evolves:
  assumes r: "map_of (vt_rooms t) rid = Some room" "vr_mode room = P2p" and t: "v2_inv t"
  shows "rooms_evolve t (fst (begin_upgrade areq now rid cid token inst room t))"
proof -
  obtain t1 l where l: "next_lifecycle rid cid t = (t1, l)" by force
  have t1: "vt_rooms t1 = vt_rooms t" using next_lifecycle_put_room [OF l] by simp
  define room1 where "room1 = (put_member cid (new_member now (vt_reconnect_grace t) token False l) room)
      \<lparr>vr_mode := Upgrading, vr_assignment_epoch := sat_add (vr_assignment_epoch room) 1,
       vr_assigned_instance := Some inst\<rparr>"
  have "evolves room room1"
    using r(2) by (simp add: room1_def evolves_def sfu_side_def)
  then have e: "rooms_evolve t (put_room rid room1 t1)"
    using r(1) t1 by (intro rooms_rel_put) (auto simp: rooms_rel_def)
  obtain t2 res where t2: "refresh_lifecycles rid (filter (\<lambda>c. c \<noteq> cid) (upgrade_order cid room1))
      (put_room rid room1 t1) = (t2, res)" by force
  have e2: "rooms_evolve t t2"
    using refresh_lifecycles_evolves [OF r(1) e, of "filter (\<lambda>c. c \<noteq> cid) (upgrade_order cid room1)"] t2 by simp
  have "rooms_evolve t (put_room rid (r2\<lparr>vr_upgrade := u\<rparr>) t2)" if "map_of (vt_rooms t2) rid = Some r2" for r2 u
  proof -
    have "evolves room r2" by (rule rooms_relD [OF e2 r(1) that])
    then have "evolves room (r2\<lparr>vr_upgrade := u\<rparr>)"
      using r(2) by (auto simp: evolves_def sfu_side_def)
    with e2 r(1) show ?thesis by (intro rooms_rel_put)
  qed
  note put = this
  have "rooms_evolve t t4" if "issue_next_upgrade_join rid t3 = (t4, res)" "rooms_evolve t t3" for t3 t4 res
    using that issue_next_upgrade_join_rooms [of rid t3] by (simp add: rooms_rel_def)
  note next_join = this
  show ?thesis
    using e2 put by (simp add: begin_upgrade_def l room1_def [symmetric] t2 Let_def next_join
        split: sum.split option.split prod.split)
qed

text \<open>Admission may also create the room it is asked for.\<close>

lemma admit_evolves:
  assumes t: "v2_inv t" and r: "map_of (vt_rooms t) rid' = Some r"
    and r': "map_of (vt_rooms (fst (admit areq now rid cid token t))) rid' = Some r'"
  shows "evolves r r'"
proof (cases "map_of (vt_rooms t) rid")
  case None
  obtain t1 l where l: "next_lifecycle rid cid t = (t1, l)" by force
  have "vt_rooms t1 = vt_rooms t" using next_lifecycle_put_room [OF l] by simp
  moreover have "rid' \<noteq> rid" using None r by auto
  ultimately have "r' = r" using None r r' by (simp add: admit_def l)
  then show ?thesis by simp
next
  case (Some room)
  obtain t1 l where l: "next_lifecycle rid cid t = (t1, l)" by force
  have t1: "vt_rooms t1 = vt_rooms t" using next_lifecycle_put_room [OF l] by simp
  then have e1: "rooms_evolve t t1" by auto
  have put: "rooms_evolve t (put_room rid q t1)"
    if "vr_signal_epoch q = vr_signal_epoch room" "vr_mode q = vr_mode room" "vr_upgrade q = vr_upgrade room" for q
    using e1 Some that by (intro rooms_rel_put evolves_same) simp_all
  have "rooms_evolve t (fst (admit areq now rid cid token t))"
    using begin_upgrade_evolves [OF Some _ t] put
    by (simp add: admit_def admit_to_sfu_def Some l Let_def split: option.split room_mode.split)
  from rooms_relD [OF this r r'] show ?thesis .
qed

lemma v2_register_evolves: "rooms_evolve t (fst (v2_register rid cid token t))"
  by (auto simp: v2_register_def Let_def drain_others_def split: option.split
      intro!: rooms_rel_put evolves_same)

lemma v2_send_evolves: "rooms_evolve t (fst (v2_send rid cid epoch msg t))"
  by (auto simp: v2_send_def queue_for_peer_def split: option.split prod.split sum.split
      intro!: rooms_rel_put evolves_same)

lemma v2_exec_evolves:
  assumes t: "v2_inv t" and r: "map_of (vt_rooms t) rid = Some r"
    and r': "map_of (vt_rooms (fst (v2_exec now op t))) rid = Some r'"
  shows "evolves r r'"
proof (cases "joins_or_sends op")
  case False
  from rooms_relD [OF evolution.exec [OF t this] r r'] show ?thesis .
next
  case True
  then show ?thesis
    using r' admit_evolves [OF t r] rooms_relD [OF v2_register_evolves r] rooms_relD [OF v2_send_evolves r]
    by (cases op) auto
qed

section \<open>The fence\<close>

text \<open>
  C14. Signal epochs fence off the phases of a room. Over any operation on a reachable table a
  room that persists keeps or raises its signal epoch; and when it becomes an SFU room, or
  leaves the SFU for P2P, then, unless the epoch counter had saturated, every message tagged
  with the epoch before the transition is dropped after it, whoever sends it, and changes
  nothing.
\<close>

theorem v2_epoch_fence:
  assumes "reachable v2_initial v2_step t" "map_of (vt_rooms t) rid = Some r"
    "t' = fst (v2_exec now op t)" "map_of (vt_rooms t') rid = Some r'"
  shows "vr_signal_epoch r \<le> vr_signal_epoch r' \<and>
    ((vr_mode r' = Sfu \<and> vr_mode r \<noteq> Sfu \<or> vr_mode r = Sfu \<and> vr_mode r' = P2p) \<and> vr_signal_epoch r \<noteq> - 1 \<longrightarrow>
       v2_send rid cid (vr_signal_epoch r) msg t' = (t', Ok SendDropped))"
proof -
  have "evolves r r'"
    using v2_exec_evolves [OF v2.inv_reachable [OF assms(1)] assms(2)] assms(3,4) by simp
  then show ?thesis
    using assms(4) by (auto simp: evolves_def sfu_side_def v2_send_def)
qed

text \<open>The last acknowledgement commits the upgrade: the P2P epoch 0 is dropped from then on.\<close>

theorem v2_epoch_fence_witness:
  "v2_send sample_rid 20 0 ''old offer'' sample_sfu = (sample_sfu, Ok SendDropped)"
proof -
  let ?t = "v2_run 6 [sample_ack 10 2 1 1, sample_ack 20 2 1 2] sample_upgrading"
  have reach: "reachable v2_initial v2_step ?t"
    by (rule v2_reachable_run [OF sample_reachable(3)])
  have step: "sample_sfu = fst (v2_exec 6 (sample_ack 15 1 1 3) ?t)"
    by (simp add: sample_sfu_def v2_run_def)
  obtain r r' where r: "map_of (vt_rooms ?t) sample_rid = Some r" "vr_mode r = Upgrading" "vr_signal_epoch r = 0"
    and r': "map_of (vt_rooms sample_sfu) sample_rid = Some r'" "vr_mode r' = Sfu"
  proof -
    have "(case map_of (vt_rooms ?t) sample_rid of None \<Rightarrow> False
        | Some r \<Rightarrow> vr_mode r = Upgrading \<and> vr_signal_epoch r = 0)"
      "(case map_of (vt_rooms sample_sfu) sample_rid of None \<Rightarrow> False | Some r \<Rightarrow> vr_mode r = Sfu)"
      by code_simp+
    then show ?thesis using that by (auto split: option.splits)
  qed
  from v2_epoch_fence [OF reach r(1) step r'(1), of 20 "''old offer''"] r r' show ?thesis by simp
qed

end
