(* ===== verification/V2_Signaling.thy ===== *)
theory V2_Signaling
  imports V2_System
begin

text \<open>
  What the V2 authority promises its browsers in the P2P mode: token-bound registration, the
  relay of messages with lossless hand-over to a peer that registers later, and the promotion
  of the survivor of a removal.
\<close>

section \<open>Registration\<close>

lemma map_of_map_pair: "map_of (map (\<lambda>(k, v). (k, f k v)) m) k = map_option (f k) (map_of m k)"
  by (induction m) auto

text \<open>
  C23. Registration is bound to the admission token. It succeeds exactly for an admitted,
  unregistered member of a room that is not upgrading, presented with that member's token;
  then only this room changes: the member is registered, its reconnect deadline is gone, and
  in P2P mode it is handed the messages its peer had queued, whose queue is emptied. Every
  other attempt leaves the table as it was.
\<close>

theorem v2_register_bound:
  "case v2_register rid cid token t of
     (t', Inl e) \<Rightarrow> t' = t \<and> e \<noteq> Panic \<and>
       \<not> (\<exists>r m. map_of (vt_rooms t) rid = Some r \<and> vr_mode r \<noteq> Upgrading \<and>
            map_of (vr_members r) cid = Some m \<and> mb_token m = token \<and> \<not> mb_registered m)
   | (t', Inr reg) \<Rightarrow>
       (\<exists>r m r'. map_of (vt_rooms t) rid = Some r \<and> vr_mode r \<noteq> Upgrading \<and>
          map_of (vr_members r) cid = Some m \<and> mb_token m = token \<and> \<not> mb_registered m \<and>
          reg = \<lparr>rg_mode = vr_mode r, rg_signal_epoch = vr_signal_epoch r,
            rg_is_initiator = (if vr_mode r = P2p then Some (mb_is_initiator m) else None),
            rg_queued_messages = (if vr_mode r = P2p then others_queued cid r else [])\<rparr> \<and>
          t' = put_room rid r' t \<and> r' = r\<lparr>vr_members := vr_members r'\<rparr> \<and>
          map_of (vr_members r') cid = Some (m\<lparr>mb_registered := True, mb_reconnect_deadline := None\<rparr>) \<and>
          (\<forall>k. k = cid \<or> map_of (vr_members r') k =
             (if vr_mode r = P2p then map_option (mb_queued_messages_update (\<lambda>_. [])) (map_of (vr_members r) k)
              else map_of (vr_members r) k)))"
proof (cases "\<exists>r m. map_of (vt_rooms t) rid = Some r \<and> vr_mode r \<noteq> Upgrading \<and>
            map_of (vr_members r) cid = Some m \<and> mb_token m = token \<and> \<not> mb_registered m")
  case False
  then show ?thesis
    by (auto simp: v2_register_def Let_def constant_time_eq_iff as_bytes_inj split: option.split)
next
  case True
  then obtain r m where r: "map_of (vt_rooms t) rid = Some r" "vr_mode r \<noteq> Upgrading"
    "map_of (vr_members r) cid = Some m" "mb_token m = token" "\<not> mb_registered m" by blast
  let ?m = "m\<lparr>mb_registered := True, mb_reconnect_deadline := None\<rparr>"
  let ?r = "if vr_mode r = P2p then drain_others cid (put_member cid ?m r) else put_member cid ?m r"
  have others: "others_queued cid (put_member cid ?m r) = others_queued cid r"
  proof -
    have "filter (\<lambda>(k, m). k \<noteq> cid) (hm_insert cid ?m ms) = filter (\<lambda>(k, m). k \<noteq> cid) ms" for ms
      by (induction ms) auto
    then show ?thesis by (simp add: others_queued_def)
  qed
  have reg: "v2_register rid cid token t = (put_room rid ?r t,
      Ok \<lparr>rg_mode = vr_mode r, rg_signal_epoch = vr_signal_epoch r,
            rg_is_initiator = (if vr_mode r = P2p then Some (mb_is_initiator m) else None),
            rg_queued_messages = (if vr_mode r = P2p then others_queued cid r else [])\<rparr>)"
    using r by (simp add: v2_register_def Let_def constant_time_eq_iff others)
  have "?r = r\<lparr>vr_members := vr_members ?r\<rparr>"
    by (simp add: drain_others_def put_member_def)
  moreover have "map_of (vr_members ?r) cid = Some ?m"
    using r(3) by (simp add: drain_others_def map_of_map_pair)
  moreover have "k = cid \<or> map_of (vr_members ?r) k =
      (if vr_mode r = P2p then map_option (mb_queued_messages_update (\<lambda>_. [])) (map_of (vr_members r) k)
       else map_of (vr_members r) k)" for k
    by (cases "map_of (vr_members r) k") (simp_all add: drain_others_def map_of_map_pair)
  ultimately show ?thesis unfolding reg prod.case sum.case using r by blast
qed

section \<open>Relay\<close>

text \<open>Two members share a P2P room.\<close>

definition v2_paired :: "v2_table \<Rightarrow> uuid \<Rightarrow> member_id \<Rightarrow> member_id \<Rightarrow> v2_room \<Rightarrow> bool" where
  "v2_paired t rid a b r \<longleftrightarrow>
     v2_inv t \<and> map_of (vt_rooms t) rid = Some r \<and> vr_mode r = P2p \<and> a \<noteq> b \<and>
     hm_contains (vr_members r) a \<and> hm_contains (vr_members r) b"

lemma v2_paired_ok: "v2_paired t rid a b r \<Longrightarrow> hm_ok (vr_members r) \<and> length (vr_members r) \<le> 2"
  using v2_invD(1) [of t rid r]
  by (auto simp: v2_paired_def room_good_def v2_room_ok_def mode_ok_def hm_all_def MAX_P2P_MEMBERS_def)

lemma v2_paired_members:
  assumes "v2_paired t rid a b r" "map_of (vr_members r) a = Some ma" "map_of (vr_members r) b = Some mb"
  shows "vr_members r = [(a, ma), (b, mb)] \<or> vr_members r = [(b, mb), (a, ma)]"
proof -
  have d: "a \<noteq> b" using assms(1) by (simp add: v2_paired_def)
  have "length (vr_members r) \<le> 2" using v2_paired_ok [OF assms(1)] by simp
  moreover have "length (vr_members r) \<noteq> 0" using assms(2) by auto
  moreover have "length (vr_members r) \<noteq> 1"
    using assms(2,3) d by (cases "vr_members r") (auto split: if_splits)
  ultimately have "length (vr_members r) = 2" by linarith
  then obtain x y where xy: "vr_members r = [x, y]"
    by (auto simp: numeral_2_eq_2 length_Suc_conv)
  then show ?thesis
    using assms(2,3) d by (cases x; cases y) (auto split: if_splits)
qed

lemma v2_paired_other:
  assumes "v2_paired t rid a b r"
  shows "other_key a (vr_members r) = Some b" "others_queued b r = mb_queued_messages (the (map_of (vr_members r) a))"
proof -
  obtain ma mb where m: "map_of (vr_members r) a = Some ma" "map_of (vr_members r) b = Some mb"
    using assms by (auto simp: v2_paired_def)
  have "a \<noteq> b" using assms by (simp add: v2_paired_def)
  with v2_paired_members [OF assms m]
  show "other_key a (vr_members r) = Some b" "others_queued b r = mb_queued_messages (the (map_of (vr_members r) a))"
    by (auto simp: other_key_def others_queued_def)
qed

lemma v2_paired_send:
  assumes "v2_paired t rid a b r" "map_of (vr_members r) a = Some ma" "map_of (vr_members r) b = Some mb"
  shows "v2_send rid a (vr_signal_epoch r) msg t =
    (if mb_registered mb then
       (t, Ok (SendP2p (Some \<lparr>de_room_id = rid, de_client_id = b, de_message = msg\<rparr>)))
     else if length (mb_queued_messages ma) = 1024 then (t, Err ''RESOURCE_EXHAUSTED'')
     else (put_room rid (put_member a (ma\<lparr>mb_queued_messages := mb_queued_messages ma @ [msg]\<rparr>) r) t,
           Ok (SendP2p None)))"
proof -
  have r: "map_of (vt_rooms t) rid = Some r" "vr_mode r = P2p" "v2_inv t" using assms(1) by (simp_all add: v2_paired_def)
  have "length (mb_queued_messages ma) \<le> 1024"
    using room_good_member [OF v2_invD(1) [OF r(3,1)] assms(2)]
    by (simp add: member_ok_def MAX_QUEUED_MESSAGES_def)
  moreover have "put_room rid (put_member a ma r) t = t"
    using r(1) assms(2) by (simp add: put_room_def put_member_def update_triv)
  ultimately show ?thesis
    using r assms v2_paired_other(1) [OF assms(1)]
    by (auto simp: v2_send_def queue_for_peer_def push_queued_def MAX_QUEUED_MESSAGES_def)
qed

text \<open>
  A message a member of a P2P pair sends under the room's current epoch is delivered to
  its peer at once when the peer is registered, and else appended to the sender's queue;
  when that holds 1024 messages the send is refused with RESOURCE_EXHAUSTED. Delivery and
  refusal change nothing.
\<close>

lemma v2_send_pair:
  assumes "v2_paired t rid a b r" "map_of (vr_members r) a = Some ma" "map_of (vr_members r) b = Some mb"
  shows "v2_send rid a (vr_signal_epoch r) msg t =
    (if mb_registered mb then
       (t, Ok (SendP2p (Some \<lparr>de_room_id = rid, de_client_id = b, de_message = msg\<rparr>)))
     else if length (mb_queued_messages ma) = 1024 then (t, Err ''RESOURCE_EXHAUSTED'')
     else (put_room rid (put_member a (ma\<lparr>mb_queued_messages := mb_queued_messages ma @ [msg]\<rparr>) r) t,
           Ok (SendP2p None)))"
  using assms by (rule v2_paired_send)

lemma sample_paired:
  "v2_paired sample_pair sample_rid 20 10 (the (map_of (vt_rooms sample_pair) sample_rid))"
proof -
  let ?r = "the (map_of (vt_rooms sample_pair) sample_rid)"
  have "map_of (vt_rooms sample_pair) sample_rid = Some ?r" "vr_mode ?r = P2p"
    "map_of (vr_members ?r) 20 \<noteq> None" "map_of (vr_members ?r) 10 \<noteq> None"
    by code_simp+
  then show ?thesis using sample_inv(2) by (simp add: v2_paired_def)
qed

section \<open>Hand-over of queued messages\<close>

text \<open>Sending one message after the other under one epoch.\<close>

definition v2_sends :: "uuid \<Rightarrow> member_id \<Rightarrow> u64 \<Rightarrow> string list \<Rightarrow> v2_table \<Rightarrow> v2_table" where
  "v2_sends rid cid epoch msgs t = fold (\<lambda>msg t. fst (v2_send rid cid epoch msg t)) msgs t"

lemma v2_sends_queue:
  assumes "v2_paired t rid a b r" "map_of (vr_members r) a = Some ma" "map_of (vr_members r) b = Some mb"
    "\<not> mb_registered mb" "length (mb_queued_messages ma) + length msgs \<le> 1024"
  shows "\<exists>r'. v2_paired (v2_sends rid a (vr_signal_epoch r) msgs t) rid a b r' \<and>
    map_of (vr_members r') a = Some (ma\<lparr>mb_queued_messages := mb_queued_messages ma @ msgs\<rparr>) \<and>
    map_of (vr_members r') b = Some mb"
  using assms
proof (induction msgs arbitrary: t r ma)
  case Nil
  then show ?case by (auto simp: v2_sends_def)
next
  case (Cons msg msgs)
  let ?ma = "ma\<lparr>mb_queued_messages := mb_queued_messages ma @ [msg]\<rparr>"
  let ?r = "put_member a ?ma r"
  let ?t = "fst (v2_send rid a (vr_signal_epoch r) msg t)"
  have d: "a \<noteq> b" and inv: "v2_inv t" using Cons.prems(1) by (simp_all add: v2_paired_def)
  have t: "?t = put_room rid ?r t"
    using v2_paired_send [OF Cons.prems(1-3), of msg] Cons.prems(4,5) by simp
  moreover have "v2_inv ?t" using v2_send_inv [OF inv] by simp
  ultimately have p: "v2_paired ?t rid a b ?r" using Cons.prems(1-3) d by (simp add: v2_paired_def)
  from Cons.IH [OF p, of ?ma] Cons.prems d obtain r' where
    "v2_paired (v2_sends rid a (vr_signal_epoch r) msgs ?t) rid a b r'"
    "map_of (vr_members r') a = Some (ma\<lparr>mb_queued_messages := mb_queued_messages ma @ msg # msgs\<rparr>)"
    "map_of (vr_members r') b = Some mb"
    by auto
  then show ?case by (auto simp: v2_sends_def)
qed

text \<open>Registering the second member of a pair.\<close>

lemma filter_hm_insert: "filter (\<lambda>(k, v). k \<noteq> c) (hm_insert c x m) = filter (\<lambda>(k, v). k \<noteq> c) m"
  by (induction m) auto

lemma others_queued_put [simp]: "others_queued c (put_member c m r) = others_queued c r"
  by (simp add: others_queued_def filter_hm_insert)

lemma v2_paired_register:
  assumes "v2_paired t rid a b r" "map_of (vr_members r) a = Some ma" "map_of (vr_members r) b = Some mb"
    "\<not> mb_registered mb"
  shows "v2_register rid b (mb_token mb) t =
    (put_room rid (drain_others b (put_member b (mb\<lparr>mb_registered := True, mb_reconnect_deadline := None\<rparr>) r)) t,
     Ok \<lparr>rg_mode = P2p, rg_signal_epoch = vr_signal_epoch r, rg_is_initiator = Some (mb_is_initiator mb),
        rg_queued_messages = mb_queued_messages ma\<rparr>)"
  using assms v2_paired_other(2) [OF assms(1)]
  by (simp add: v2_register_def Let_def constant_time_eq_iff v2_paired_def)

text \<open>
  One queue handed over: after any sends that fit the queue, registering the peer hands it what
  was queued before, then these messages in the order they were sent, and empties the sender's
  queue. \<^verbatim>\<open>V2_Relay\<close> puts this into every run of the authority.
\<close>

lemma v2_queue_handover:
  assumes "v2_paired t rid a b r" "map_of (vr_members r) a = Some ma" "map_of (vr_members r) b = Some mb"
    "\<not> mb_registered mb" "length (mb_queued_messages ma) + length msgs \<le> 1024"
  shows "case v2_register rid b (mb_token mb) (v2_sends rid a (vr_signal_epoch r) msgs t) of
     (t', Inl e) \<Rightarrow> False
   | (t', Inr reg) \<Rightarrow> rg_queued_messages reg = mb_queued_messages ma @ msgs \<and>
       (\<exists>r'. map_of (vt_rooms t') rid = Some r' \<and>
          map_option mb_queued_messages (map_of (vr_members r') a) = Some [])"
proof -
  let ?t = "v2_sends rid a (vr_signal_epoch r) msgs t"
  obtain r' where p: "v2_paired ?t rid a b r'"
    and a: "map_of (vr_members r') a = Some (ma\<lparr>mb_queued_messages := mb_queued_messages ma @ msgs\<rparr>)"
    and b: "map_of (vr_members r') b = Some mb"
    using v2_sends_queue [OF assms] by blast
  have r': "map_of (vt_rooms ?t) rid = Some r'" "vr_mode r' = P2p" "a \<noteq> b" using p by (simp_all add: v2_paired_def)
  have "mb_queued_messages (ma\<lparr>mb_queued_messages := q\<rparr>) = q" for q by simp
  with r' b a v2_paired_register [OF p a b assms(4)] show ?thesis by (simp add: drain_others_def map_of_map_pair)
qed

section \<open>Removal and promotion\<close>

text \<open>
  C35. Leaving a P2P room needs the member's token; then the member is gone, a member left
  alone becomes the initiator with an empty queue, a promotion is announced exactly when
  that survivor is registered, and a room without members is dropped. A wrong token changes
  nothing.
\<close>

theorem v2_remove_p2p:
  assumes "v2_inv t" "map_of (vt_rooms t) rid = Some r" "vr_mode r = P2p" "map_of (vr_members r) cid = Some m"
  shows "if token \<noteq> mb_token m then v2_remove areq rid cid token t = (t, Err ''UNAUTHORIZED'')
    else (case hm_remove cid (vr_members r) of
       [] \<Rightarrow> v2_remove areq rid cid token t = (drop_room rid t, Ok (RemovalComplete None))
     | [(s, ms)] \<Rightarrow> v2_remove areq rid cid token t =
         (put_room rid (r\<lparr>vr_members := [(s, ms\<lparr>mb_is_initiator := True, mb_queued_messages := []\<rparr>)]\<rparr>) t,
          Ok (RemovalComplete (if mb_registered ms
            then Some \<lparr>pr_room_id = rid, pr_client_id = s, pr_signal_epoch = vr_signal_epoch r\<rparr> else None)))
     | _ \<Rightarrow> False)"
proof -
  have good: "room_good (vt_lifecycle_ids t) rid r" by (rule v2_invD(1) [OF assms(1,2)])
  then have r: "vr_pending_join r = None" "vr_pending_leave r = None" "hm_ok (vr_members r)"
    "length (vr_members r) \<le> 2"
    using assms(3) by (auto simp: room_good_def v2_room_ok_def mode_ok_def hm_all_def MAX_P2P_MEMBERS_def)
  have "length (hm_remove cid (vr_members r)) \<le> 1"
    using r(3,4) assms(4) by (simp add: length_hm_remove)
  then consider (none) "hm_remove cid (vr_members r) = []"
    | (one) s ms where "hm_remove cid (vr_members r) = [(s, ms)]"
    by (cases "hm_remove cid (vr_members r)") auto
  then show ?thesis
  proof cases
    case none
    then show ?thesis
      using r assms by (simp add: v2_remove_def constant_time_eq_iff as_bytes_inj promote_survivor_def
          Let_def drop_room_def put_room_def delete_update_same)
  next
    case one
    then show ?thesis
      using r assms by (simp add: v2_remove_def constant_time_eq_iff as_bytes_inj promote_survivor_def
          Let_def remove_member_def)
  qed
qed

theorem v2_remove_p2p_witness:
  "snd (v2_remove 7 sample_rid 10 ''tok10'' sample_pair) =
     Ok (RemovalComplete (Some \<lparr>pr_room_id = sample_rid, pr_client_id = 20, pr_signal_epoch = 0\<rparr>))"
proof -
  let ?r = "the (map_of (vt_rooms sample_pair) sample_rid)"
  let ?m = "\<lambda>c. the (map_of (vr_members ?r) c)"
  have r: "map_of (vt_rooms sample_pair) sample_rid = Some ?r" "vr_mode ?r = P2p"
    "map_of (vr_members ?r) 10 = Some (?m 10)"
    and q: "vr_signal_epoch ?r = 0" "''tok10'' = mb_token (?m 10)"
    "hm_remove 10 (vr_members ?r) = [(20, ?m 20)]" "mb_registered (?m 20)"
    by code_simp+
  from v2_remove_p2p [OF sample_inv(2) r, of "''tok10''" 7] show ?thesis
    unfolding q(1) q(3) using q(2,4) by simp
qed

section \<open>Promotions by a timeout\<close>

text \<open>A sweep of one room leaves the other rooms alone.\<close>

lemma sweep_room_others:
  assumes "k \<noteq> rid"
  shows "map_of (vt_rooms (fst (sweep_room now rid t))) k = map_of (vt_rooms t) k"
proof -
  have arm: "map_of (vt_rooms (arm_reconnect now rid cid t')) k = map_of (vt_rooms t') k" for cid t'
    using assms by (auto simp: arm_reconnect_def split: option.split)
  have "map_of (vt_rooms (fst (issue_sfu_leave rid cid reason t))) k = map_of (vt_rooms t) k" for cid reason
    using assms by (auto simp: issue_sfu_leave_def split: option.split)
  then have leave: "map_of (vt_rooms (fst (case issue_sfu_leave rid cid reason t of
      (t1, True) \<Rightarrow> (t1, p) | (t1, False) \<Rightarrow> (arm_reconnect now rid cid t1, p)))) k = map_of (vt_rooms t) k"
    for cid reason and p :: "promotion option"
    by (simp add: case_prod_beta arm split: bool.split)
  have p2p: "map_of (vt_rooms (fst (sweep_p2p now rid r t))) k = map_of (vt_rooms t) k" for r
    using assms by (simp add: sweep_p2p_def Let_def split: prod.split)
  have down: "map_of (vt_rooms (fst (commit_downgrade rid t))) k = map_of (vt_rooms t) k"
  proof -
    have "vt_rooms (leave_all inst conn rid epoch leaving t') = vt_rooms t'" for inst conn epoch leaving t'
      by (induction leaving arbitrary: t') auto
    then show ?thesis
      using assms by (auto simp: commit_downgrade_def Let_def split: option.split list.split)
  qed
  show ?thesis
    using assms by (simp add: sweep_room_def leave p2p down split: option.split)
qed

lemma sweep_rooms_others:
  "k \<notin> set rids \<Longrightarrow> map_of (vt_rooms (fst (sweep_rooms now rids t))) k = map_of (vt_rooms t) k"
  by (induction rids arbitrary: t) (simp_all add: case_prod_beta sweep_room_others)

text \<open>What one sweep announces: a survivor of an expiry in this very room.\<close>

definition promoted :: "instant \<Rightarrow> v2_room \<Rightarrow> v2_room \<Rightarrow> promotion \<Rightarrow> bool" where
  "promoted now r r' p \<longleftrightarrow>
     vr_mode r = P2p \<and> (\<exists>(c, m) \<in> set (vr_members r). c \<noteq> pr_client_id p \<and> passed now (mb_reconnect_deadline m)) \<and>
     pr_signal_epoch p = vr_signal_epoch r \<and>
     (\<exists>m'. r' = r\<lparr>vr_members := [(pr_client_id p, m')]\<rparr> \<and> mb_is_initiator m' \<and> mb_registered m' \<and>
        mb_queued_messages m' = [])"

lemma fold_remove_members:
  "map_of (vr_members (fold remove_member cs r)) k = (if k \<in> set cs then None else map_of (vr_members r) k)"
  by (induction cs arbitrary: r) auto

lemma fold_remove_frame:
  "fold remove_member cs r = r\<lparr>vr_members := fold hm_remove cs (vr_members r)\<rparr>"
  by (induction cs arbitrary: r) (simp_all add: remove_member_def)

lemma sweep_p2p_promotes:
  assumes r: "hm_ok (vr_members r)" "vr_mode r = P2p" and s: "sweep_p2p now rid r t = (t', Some p)"
  shows "pr_room_id p = rid \<and> (\<exists>r'. map_of (vt_rooms t') rid = Some r' \<and> promoted now r r' p)"
proof -
  define e where "e = map fst (filter (\<lambda>(c, m). passed now (mb_reconnect_deadline m)) (vr_members r))"
  define r1 where "r1 = fold remove_member e r"
  have r1: "r1 = r\<lparr>vr_members := vr_members r1\<rparr>" by (simp add: r1_def fold_remove_frame)
  obtain r2 where p: "promote_survivor rid r1 = (r2, Some p)" and e: "e \<noteq> []"
    and t': "t' = (if vr_members r2 = [] then drop_room rid (put_room rid r2 t) else put_room rid r2 t)"
    using s by (auto simp: sweep_p2p_def Let_def e_def [symmetric] r1_def [symmetric] split: if_splits prod.splits)
  obtain c m where m: "vr_members r1 = [(c, m)]"
    using p by (auto simp: promote_survivor_def length_Suc_conv split: if_splits)
  have mode: "vr_mode r1 = P2p" "vr_signal_epoch r1 = vr_signal_epoch r"
    using r(2) by (simp_all add: r1_def fold_remove_frame)
  let ?m = "m\<lparr>mb_is_initiator := True, mb_queued_messages := []\<rparr>"
  have r2: "r2 = r1\<lparr>vr_members := [(c, ?m)]\<rparr>" "mb_registered m"
    "p = \<lparr>pr_room_id = rid, pr_client_id = c, pr_signal_epoch = vr_signal_epoch r\<rparr>"
    using p m mode by (auto simp: promote_survivor_def Let_def split: if_splits)
  have r2r: "r2 = r\<lparr>vr_members := [(c, ?m)]\<rparr>" unfolding r2(1) by (subst r1) simp
  obtain k mk where k: "(k, mk) \<in> set (vr_members r)" "passed now (mb_reconnect_deadline mk)" "k \<in> set e"
  proof -
    let ?due = "filter (\<lambda>(c, m). passed now (mb_reconnect_deadline m)) (vr_members r)"
    obtain k mk ds where due: "?due = (k, mk) # ds" using e unfolding e_def by (cases ?due) auto
    then have "(k, mk) \<in> set ?due" by simp
    then have "(k, mk) \<in> set (vr_members r)" "passed now (mb_reconnect_deadline mk)"
      unfolding set_filter by blast+
    moreover have "k \<in> set e" by (simp add: e_def due)
    ultimately show ?thesis by (rule that)
  qed
  have "k \<noteq> c"
  proof
    assume "k = c"
    then have "map_of (vr_members r1) k = None" using k(3) by (simp add: r1_def fold_remove_members)
    then show False using m \<open>k = c\<close> by simp
  qed
  then have "\<exists>(c', m') \<in> set (vr_members r). c' \<noteq> pr_client_id p \<and> passed now (mb_reconnect_deadline m')"
    using k by (intro bexI [of _ "(k, mk)"]) (simp_all add: r2(3))
  moreover have "\<exists>m'. r2 = r\<lparr>vr_members := [(pr_client_id p, m')]\<rparr> \<and> mb_is_initiator m' \<and>
      mb_registered m' \<and> mb_queued_messages m' = []"
    by (rule exI [of _ ?m]) (simp add: r2(2,3) r2r)
  ultimately have "promoted now r r2 p" using r(2) r2(3) by (simp add: promoted_def)
  with t' r2 show ?thesis by auto
qed

lemma sweep_room_promotes:
  assumes t: "v2_inv t" and s: "sweep_room now rid t = (t', Some p)"
  shows "pr_room_id p = rid \<and> (\<exists>r r'. map_of (vt_rooms t) rid = Some r \<and> map_of (vt_rooms t') rid = Some r' \<and>
    promoted now r r' p)"
proof -
  obtain r where r: "map_of (vt_rooms t) rid = Some r" "vr_mode r = P2p" "sweep_p2p now rid r t = (t', Some p)"
    using s by (auto simp: sweep_room_def split: option.splits if_splits prod.splits bool.splits)
  have "hm_ok (vr_members r)" using v2_invD(1) [OF t r(1)] by (simp add: room_good_def hm_all_def)
  from sweep_p2p_promotes [OF this r(2,3)] r(1) show ?thesis by blast
qed

lemma sweep_rooms_promotes:
  assumes "v2_inv t" "distinct rids" "p \<in> set (snd (sweep_rooms now rids t))"
  shows "pr_room_id p \<in> set rids \<and> (\<exists>r r'. map_of (vt_rooms t) (pr_room_id p) = Some r \<and>
    map_of (vt_rooms (fst (sweep_rooms now rids t))) (pr_room_id p) = Some r' \<and> promoted now r r' p)"
  using assms
proof (induction rids arbitrary: t)
  case Nil
  then show ?case by simp
next
  case (Cons rid rids)
  obtain t1 q where q: "sweep_room now rid t = (t1, q)" by force
  have inv: "v2_inv t1" using sweep_room_inv [OF Cons.prems(1), of now rid] by (simp add: q)
  have others: "map_of (vt_rooms t1) k = map_of (vt_rooms t) k" if "k \<noteq> rid" for k
    using sweep_room_others [OF that, of now t] by (simp add: q)
  have kept: "map_of (vt_rooms (fst (sweep_rooms now rids t1))) rid = map_of (vt_rooms t1) rid"
    using Cons.prems(2) by (intro sweep_rooms_others) simp
  have eq: "fst (sweep_rooms now (rid # rids) t) = fst (sweep_rooms now rids t1)"
    by (simp add: q case_prod_beta)
  show ?case
  proof (cases "q = Some p")
    case True
    from sweep_room_promotes [OF Cons.prems(1) q [unfolded True]] kept show ?thesis
      unfolding eq by auto
  next
    case False
    then have "p \<in> set (snd (sweep_rooms now rids t1))"
      using Cons.prems(3) by (auto simp: q case_prod_beta split: option.splits)
    from Cons.IH [OF inv _ this] Cons.prems(2) others show ?thesis unfolding eq by fastforce
  qed
qed

text \<open>
  C25. A timeout announces a promotion only where something happened: the room was a P2P room
  (once the expired workers were dealt with), a member other than the promoted one had
  passed its reconnect deadline and is gone, and the promoted client is the only one left,
  registered, initiator, with an empty queue and announced under the room's signal epoch.
\<close>

theorem v2_timeout_promotions:
  assumes "v2_inv t" "p \<in> set (snd (v2_handle_timeout now t))"
    "t1 = fold expire_worker (map fst (filter (\<lambda>(k, w). passed now (wk_disconnect_deadline w)) (vt_workers t))) t"
  shows "\<exists>r r'. map_of (vt_rooms t1) (pr_room_id p) = Some r \<and>
    map_of (vt_rooms (fst (v2_handle_timeout now t))) (pr_room_id p) = Some r' \<and> promoted now r r' p"
proof -
  have inv: "v2_inv t1" unfolding assms(3) by (rule expire_workers_inv [OF assms(1)])
  then have "distinct (hm_keys (vt_rooms t1))" by (simp add: v2_inv_def hm_all_def)
  from sweep_rooms_promotes [OF inv this, of p now] assms(2,3) show ?thesis
    by (simp add: v2_handle_timeout_def Let_def)
qed

theorem v2_timeout_promotions_witness:
  "\<exists>r'. map_of (vt_rooms (fst (v2_handle_timeout 20 sample_pair))) sample_rid = Some r' \<and>
     length (vr_members r') = 1"
proof -
  let ?p = "\<lparr>pr_room_id = sample_rid, pr_client_id = 20, pr_signal_epoch = 0\<rparr>"
  have "snd (v2_handle_timeout 20 sample_pair) = [?p]" by code_simp
  then have "?p \<in> set (snd (v2_handle_timeout 20 sample_pair))" by simp
  from v2_timeout_promotions [OF sample_inv(2) this refl] show ?thesis by (auto simp: promoted_def)
qed

end
