(* ===== verification/V2_Transitions.thy ===== *)
theory V2_Transitions
  imports V2_Room_Rule
begin

text \<open>
  The transitions between P2P and SFU: the choice of the worker, the start of an upgrade,
  its barrier (one acknowledged join after the other, the joining member last, the commit
  only after all of them), the abort that restores the P2P room, and the downgrade.
\<close>

section \<open>The choice of the worker\<close>

lemma fold_min_Min: "fold min xs x = Min (set (x # xs))" for x :: "'a::linorder"
  by (simp only: Min.set_eq_fold)

lemma select_worker_cases:
  obtains "select_worker n t = None" "filter (\<lambda>(k, w). worker_available n w) (vt_workers t) = []"
  | inst w where "select_worker n t = Some inst" "(inst, w) \<in> set (vt_workers t)" "worker_available n w"
    "\<forall>(k, w') \<in> set (vt_workers t). worker_available n w' \<longrightarrow> worker_load (inst, w) \<le> worker_load (k, w')"
proof -
  let ?ws = "filter (\<lambda>(k, w). worker_available n w) (vt_workers t)"
  show ?thesis
  proof (cases "map worker_load ?ws")
    case Nil
    then show ?thesis by (intro that(1)) (simp_all add: select_worker_def)
  next
    case (Cons load loads)
    have min: "fold min loads load = Min (set (map worker_load ?ws))"
      unfolding Cons by (rule fold_min_Min)
    have "Min (set (map worker_load ?ws)) \<in> set (map worker_load ?ws)"
      by (rule Min_in) (simp_all only: Cons, simp_all)
    then obtain inst w where w: "(inst, w) \<in> set ?ws" "fold min loads load = worker_load (inst, w)"
      using min by auto
    have le: "worker_load (inst, w) \<le> worker_load (k, w')" if "(k, w') \<in> set ?ws" for k w'
      unfolding w(2) [symmetric] min using that by (intro Min_le) (simp_all add: rev_image_eqI)
    have "select_worker n t = Some inst"
      unfolding select_worker_def Cons by (simp add: w(2)) (simp add: worker_load_def)
    then show ?thesis using w(1) le by (intro that(2) [of inst w]) auto
  qed
qed

text \<open>What it takes to be given a room with so many more clients.\<close>

definition can_take :: "nat \<Rightarrow> worker \<Rightarrow> bool" where
  "can_take n w \<longleftrightarrow>
     (\<exists>conn health. wk_connection_id w = Some conn \<and> wk_health w = Some health \<and> he_state health = Ready) \<and>
     length (wk_assigned_rooms w) + 1 \<le> unat (max_rooms (wk_capacity w)) \<and>
     min (unat (wk_assigned_clients w) + n) (2 ^ 64 - 1) \<le> unat (max_clients (wk_capacity w))"

lemma worker_available_can_take: "n < 2 ^ 64 \<Longrightarrow> worker_available n w \<longleftrightarrow> can_take n w"
  by (auto simp: worker_available_def can_take_def word_le_nat_alt unat_sat_add unsigned_of_nat
      take_bit_nat_eq_self split: option.split)

text \<open>
  C30. An upgrade goes to the least loaded worker that can take it: the chosen worker is
  connected, has reported itself ready, has fewer rooms than its capacity and, with the
  additional clients (their sum saturating at 2^64 - 1, as the source counts), no more clients
  than its capacity, and no other such worker has fewer assigned clients, or as many clients
  and fewer rooms, or the same load and a smaller instance id. None is chosen only when no
  worker qualifies.
\<close>

theorem select_worker_least_loaded:
  assumes "v2_inv t" "n < 2 ^ 64"
  shows "case select_worker n t of
     None \<Rightarrow> \<forall>(k, w) \<in> set (vt_workers t). \<not> can_take n w
   | Some inst \<Rightarrow> (\<exists>w. map_of (vt_workers t) inst = Some w \<and> can_take n w \<and>
       (\<forall>(k, w') \<in> set (vt_workers t). can_take n w' \<longrightarrow>
          (wk_assigned_clients w, length (wk_assigned_rooms w), inst) \<le>
          (wk_assigned_clients w', length (wk_assigned_rooms w'), k)))"
proof (cases rule: select_worker_cases [of n t])
  case 1
  then show ?thesis by (auto simp: filter_empty_conv worker_available_can_take [OF assms(2)])
next
  case (2 inst w)
  have "hm_ok (vt_workers t)" using assms by (simp add: v2_inv_def hm_all_def)
  then have "map_of (vt_workers t) inst = Some w" using 2(2) by (rule map_of_is_SomeI)
  then show ?thesis using 2 by (simp add: worker_load_def worker_available_can_take [OF assms(2)])
qed

theorem select_worker_least_loaded_witness:
  "\<exists>w. map_of (vt_workers sample_worker) ''w1'' = Some w \<and> can_take 3 w"
proof -
  have "select_worker 3 sample_worker = Some ''w1''" by code_simp
  with select_worker_least_loaded [OF sample_inv(1), of 3] show ?thesis by auto
qed

section \<open>The start of an upgrade\<close>

definition bumped :: "('k, u64) hashmap \<Rightarrow> 'k \<Rightarrow> u64" where
  "bumped L k = max (sat_add (case map_of L k of None \<Rightarrow> 0 | Some v \<Rightarrow> v) 1) 1"

lemma next_lifecycle_eq:
  "next_lifecycle rid cid t =
     (t\<lparr>vt_lifecycle_ids := hm_insert (rid, cid) (bumped (vt_lifecycle_ids t) (rid, cid)) (vt_lifecycle_ids t)\<rparr>,
      bumped (vt_lifecycle_ids t) (rid, cid))"
  by (simp add: next_lifecycle_def bumped_def Let_def)

text \<open>The loop over the members in one step.\<close>

lemma refresh_lifecycles_eq:
  assumes "distinct cids" "map_of (vt_rooms t) rid = Some r" "\<forall>c \<in> set cids. hm_contains (vr_members r) c"
  shows "\<exists>L' M'. refresh_lifecycles rid cids t =
      (t\<lparr>vt_lifecycle_ids := L', vt_rooms := hm_insert rid (r\<lparr>vr_members := M'\<rparr>) (vt_rooms t)\<rparr>, Ok ()) \<and>
    map fst M' = map fst (vr_members r) \<and>
    (\<forall>c. map_of M' c = (if c \<in> set cids
       then map_option (\<lambda>m. m\<lparr>mb_lifecycle_id := bumped (vt_lifecycle_ids t) (rid, c)\<rparr>) (map_of (vr_members r) c)
       else map_of (vr_members r) c)) \<and>
    (\<forall>k. map_of L' k = (if fst k = rid \<and> snd k \<in> set cids then Some (bumped (vt_lifecycle_ids t) k)
       else map_of (vt_lifecycle_ids t) k))"
  using assms
proof (induction cids arbitrary: t r)
  case Nil
  then have "refresh_lifecycles rid [] t = (t\<lparr>vt_lifecycle_ids := vt_lifecycle_ids t,
      vt_rooms := hm_insert rid (r\<lparr>vr_members := vr_members r\<rparr>) (vt_rooms t)\<rparr>, Ok ())"
    by (simp add: update_triv)
  then show ?case
    by (intro exI [of _ "vt_lifecycle_ids t"] exI [of _ "vr_members r"]) simp
next
  case (Cons c cids)
  obtain m where m: "map_of (vr_members r) c = Some m" using Cons.prems(3) by auto
  let ?b = "bumped (vt_lifecycle_ids t) (rid, c)"
  let ?r = "put_member c (m\<lparr>mb_lifecycle_id := ?b\<rparr>) r"
  let ?t = "put_room rid ?r (t\<lparr>vt_lifecycle_ids := hm_insert (rid, c) ?b (vt_lifecycle_ids t)\<rparr>)"
  have step: "refresh_lifecycles rid (c # cids) t = refresh_lifecycles rid cids ?t"
    using Cons.prems(2) m by (simp add: next_lifecycle_eq)
  have same: "bumped (vt_lifecycle_ids ?t) k = bumped (vt_lifecycle_ids t) k" if "k \<noteq> (rid, c)" for k
    using that by (simp add: bumped_def)
  have pre: "distinct cids" "map_of (vt_rooms ?t) rid = Some ?r" "\<forall>c \<in> set cids. hm_contains (vr_members ?r) c"
    using Cons.prems by simp_all
  obtain L' M' where IH: "refresh_lifecycles rid cids ?t =
      (?t\<lparr>vt_lifecycle_ids := L', vt_rooms := hm_insert rid (?r\<lparr>vr_members := M'\<rparr>) (vt_rooms ?t)\<rparr>, Ok ())"
    "map fst M' = map fst (vr_members ?r)"
    "\<And>c'. map_of M' c' = (if c' \<in> set cids
       then map_option (\<lambda>m. m\<lparr>mb_lifecycle_id := bumped (vt_lifecycle_ids ?t) (rid, c')\<rparr>) (map_of (vr_members ?r) c')
       else map_of (vr_members ?r) c')"
    "\<And>k. map_of L' k = (if fst k = rid \<and> snd k \<in> set cids then Some (bumped (vt_lifecycle_ids ?t) k)
       else map_of (vt_lifecycle_ids ?t) k)"
    using Cons.IH [OF pre] by blast
  have "?t\<lparr>vt_lifecycle_ids := L', vt_rooms := hm_insert rid (?r\<lparr>vr_members := M'\<rparr>) (vt_rooms ?t)\<rparr> =
      t\<lparr>vt_lifecycle_ids := L', vt_rooms := hm_insert rid (r\<lparr>vr_members := M'\<rparr>) (vt_rooms t)\<rparr>"
    by (simp add: put_room_def put_member_def update_last)
  moreover have "map fst M' = map fst (vr_members r)"
    using IH(2) keys_insert_present [of "vr_members r" c] m by simp
  moreover have "map_of M' c' = (if c' \<in> set (c # cids)
       then map_option (\<lambda>m. m\<lparr>mb_lifecycle_id := bumped (vt_lifecycle_ids t) (rid, c')\<rparr>) (map_of (vr_members r) c')
       else map_of (vr_members r) c')" for c'
    using IH(3) [of c'] same [of "(rid, c')"] Cons.prems(1) m by auto
  moreover have "map_of L' k = (if fst k = rid \<and> snd k \<in> set (c # cids) then Some (bumped (vt_lifecycle_ids t) k)
       else map_of (vt_lifecycle_ids t) k)" for k
    using IH(4) [of k] same [of k] Cons.prems(1) by (cases k) auto
  ultimately show ?case unfolding step IH(1) by blast
qed

lemma keys_insert_new: "map_of m k = None \<Longrightarrow> map fst (hm_insert k v m) = map fst m @ [k]"
  by (induction m) (auto split: if_splits)

text \<open>The order of an upgrade: the old members ascending, the joining one last.\<close>

lemma upgrade_order_new:
  assumes "map_of (vr_members r) cid = None" "vr_members room1 = hm_insert cid m (vr_members r)"
  shows "upgrade_order cid room1 = sort (map fst (vr_members r)) @ [cid]"
    "filter (\<lambda>c. c \<noteq> cid) (upgrade_order cid room1) = sort (map fst (vr_members r))"
proof -
  have notin: "\<forall>c \<in> set (map fst (vr_members r)). c \<noteq> cid"
    using assms(1) unfolding map_of_eq_None_iff by force
  have "filter (\<lambda>c. c \<noteq> cid) (sort (map fst (vr_members r) @ [cid])) =
      sort (filter (\<lambda>c. c \<noteq> cid) (map fst (vr_members r) @ [cid]))" by (simp add: filter_sort)
  also have "filter (\<lambda>c. c \<noteq> cid) (map fst (vr_members r) @ [cid]) = map fst (vr_members r)"
    using notin by (simp add: filter_id_conv)
  finally show order: "upgrade_order cid room1 = sort (map fst (vr_members r)) @ [cid]"
    by (simp add: upgrade_order_def assms(2) keys_insert_new [OF assms(1)])
  show "filter (\<lambda>c. c \<noteq> cid) (upgrade_order cid room1) = sort (map fst (vr_members r))"
    unfolding order using notin by (simp add: filter_id_conv)
qed

lemma sort_head_Min:
  fixes xs :: "'a::linorder list"
  assumes "xs \<noteq> []"
  obtains cs where "sort xs = Min (set xs) # cs"
proof -
  obtain c cs where s: "sort xs = c # cs" using assms by (metis list.exhaust set_empty set_sort)
  then have "\<forall>x \<in> set xs. c \<le> x" "c \<in> set xs"
    by (metis sorted_sort sorted_simps(2) set_sort set_ConsD order_refl, metis list.set_intros(1) set_sort)
  then have "Min (set xs) = c" by (intro Min_eqI) auto
  with s that show ?thesis by simp
qed

text \<open>The upgrade up to the first join, in one step.\<close>

definition upgrading_room ::
    "u64 \<Rightarrow> member_id \<Rightarrow> instance_id \<Rightarrow> (member_id, member) hashmap \<Rightarrow> v2_room \<Rightarrow> v2_room" where
  "upgrading_room areq cid inst M r =
     r\<lparr>vr_members := M, vr_mode := Upgrading, vr_assignment_epoch := sat_add (vr_assignment_epoch r) 1,
       vr_assigned_instance := Some inst, vr_upgrade := Some \<lparr>up_authority_request_id = areq,
         up_joining_client_id = cid, up_ordered_clients = sort (map fst (vr_members r)) @ [cid],
         up_joined_clients = [], up_next_client = 0\<rparr>\<rparr>"

lemma begin_upgrade_eq:
  assumes ok: "hm_ok (vr_members r)" and new: "map_of (vr_members r) cid = None"
    and w: "map_of (vt_workers t) inst = Some w"
  shows "\<exists>L' M'. begin_upgrade areq now rid cid token inst r t =
      (case issue_next_upgrade_join rid (put_worker inst
          (w\<lparr>wk_assigned_rooms := List.insert rid (wk_assigned_rooms w),
             wk_assigned_clients := sat_add (wk_assigned_clients w) 3\<rparr>)
          (put_room rid (upgrading_room areq cid inst M' r) (t\<lparr>vt_lifecycle_ids := L'\<rparr>))) of
         (t4, Inl e) \<Rightarrow> (t4, Inl e) | (t4, Inr _) \<Rightarrow> (t4, Ok AdmissionPending)) \<and>
    fst ` set M' = insert cid (fst ` set (vr_members r)) \<and>
    (\<forall>c. map_of M' c = (if c = cid
       then Some (new_member now (vt_reconnect_grace t) token False (bumped (vt_lifecycle_ids t) (rid, cid)))
       else map_option (\<lambda>m. m\<lparr>mb_lifecycle_id := bumped (vt_lifecycle_ids t) (rid, c)\<rparr>) (map_of (vr_members r) c)))"
proof -
  let ?L = "vt_lifecycle_ids t" and ?b = "bumped (vt_lifecycle_ids t) (rid, cid)"
  let ?t1 = "t\<lparr>vt_lifecycle_ids := hm_insert (rid, cid) ?b ?L\<rparr>"
  let ?ms = "hm_insert cid (new_member now (vt_reconnect_grace t) token False ?b) (vr_members r)"
  let ?olds = "sort (map fst (vr_members r))"
  define room1 where "room1 = (put_member cid (new_member now (vt_reconnect_grace t) token False ?b) r)
      \<lparr>vr_mode := Upgrading, vr_assignment_epoch := sat_add (vr_assignment_epoch r) 1,
       vr_assigned_instance := Some inst\<rparr>"
  have room1: "vr_members room1 = ?ms" by (simp add: room1_def)
  note order = upgrade_order_new [OF new room1]
  have pre: "distinct ?olds" "map_of (vt_rooms (put_room rid room1 ?t1)) rid = Some room1"
    "\<forall>c \<in> set ?olds. hm_contains (vr_members room1) c"
    using ok by (auto simp: room1 map_of_eq_None_iff)
  obtain L' M' where refresh: "refresh_lifecycles rid ?olds (put_room rid room1 ?t1) =
      (put_room rid room1 ?t1\<lparr>vt_lifecycle_ids := L',
         vt_rooms := hm_insert rid (room1\<lparr>vr_members := M'\<rparr>) (vt_rooms (put_room rid room1 ?t1))\<rparr>, Ok ())"
    and M': "map fst M' = map fst (vr_members room1)"
    "\<And>c. map_of M' c = (if c \<in> set ?olds
       then map_option (\<lambda>m. m\<lparr>mb_lifecycle_id := bumped (hm_insert (rid, cid) ?b ?L) (rid, c)\<rparr>) (map_of ?ms c)
       else map_of ?ms c)"
    using refresh_lifecycles_eq [OF pre] room1 by auto
  have t2: "put_room rid room1 ?t1\<lparr>vt_lifecycle_ids := L',
      vt_rooms := hm_insert rid (room1\<lparr>vr_members := M'\<rparr>) (vt_rooms (put_room rid room1 ?t1))\<rparr> =
      put_room rid (room1\<lparr>vr_members := M'\<rparr>) (t\<lparr>vt_lifecycle_ids := L'\<rparr>)"
    by (simp add: put_room_def update_last)
  have up: "room1\<lparr>vr_members := M', vr_upgrade := Some \<lparr>up_authority_request_id = areq,
         up_joining_client_id = cid, up_ordered_clients = ?olds @ [cid],
         up_joined_clients = [], up_next_client = 0\<rparr>\<rparr> = upgrading_room areq cid inst M' r"
    by (simp add: room1_def upgrading_room_def put_member_def)
  have "fst ` set M' = insert cid (fst ` set (vr_members r))"
    using arg_cong [OF M'(1), of set] by (simp add: room1 dom_update)
  moreover have "map_of M' c = (if c = cid
      then Some (new_member now (vt_reconnect_grace t) token False ?b)
      else map_option (\<lambda>m. m\<lparr>mb_lifecycle_id := bumped ?L (rid, c)\<rparr>) (map_of (vr_members r) c))" for c
  proof -
    have "c \<in> set ?olds \<longleftrightarrow> map_of (vr_members r) c \<noteq> None"
      by (simp add: map_of_eq_None_iff)
    then show ?thesis using M'(2) [of c] new by (auto simp: bumped_def)
  qed
  moreover have "begin_upgrade areq now rid cid token inst r t =
      (case issue_next_upgrade_join rid (put_worker inst
          (w\<lparr>wk_assigned_rooms := List.insert rid (wk_assigned_rooms w),
             wk_assigned_clients := sat_add (wk_assigned_clients w) 3\<rparr>)
          (put_room rid (upgrading_room areq cid inst M' r) (t\<lparr>vt_lifecycle_ids := L'\<rparr>))) of
         (t4, Inl e) \<Rightarrow> (t4, Inl e) | (t4, Inr _) \<Rightarrow> (t4, Ok AdmissionPending))"
    unfolding begin_upgrade_def next_lifecycle_eq prod.case Let_def room1_def [symmetric] order(2) refresh t2
    by (simp add: w order(1) up)
  ultimately show ?thesis by blast
qed

text \<open>What an upgrade does to the rooms.\<close>

lemma begin_upgrade_rooms:
  assumes "hm_ok (vr_members r)" "map_of (vr_members r) cid = None" "map_of (vt_workers t) inst = Some w"
  obtains M' where
    "vt_rooms (fst (begin_upgrade areq now rid cid token inst r t)) =
       hm_insert rid (upgrading_room areq cid inst M' r) (vt_rooms t)"
    "\<And>c. c \<noteq> cid \<Longrightarrow> map_of M' c =
       map_option (\<lambda>m. m\<lparr>mb_lifecycle_id := bumped (vt_lifecycle_ids t) (rid, c)\<rparr>) (map_of (vr_members r) c)"
proof -
  have rooms: "vt_rooms (fst (case issue_next_upgrade_join rid t3 of
      (t4, Inl e) \<Rightarrow> (t4, Inl e) | (t4, Inr _) \<Rightarrow> (t4, Ok AdmissionPending))) = vt_rooms t3" for t3
    using issue_next_upgrade_join_rooms [of rid t3] by (cases "issue_next_upgrade_join rid t3") (auto split: sum.split)
  obtain L' M' where eq: "begin_upgrade areq now rid cid token inst r t =
      (case issue_next_upgrade_join rid (put_worker inst
          (w\<lparr>wk_assigned_rooms := List.insert rid (wk_assigned_rooms w),
             wk_assigned_clients := sat_add (wk_assigned_clients w) 3\<rparr>)
          (put_room rid (upgrading_room areq cid inst M' r) (t\<lparr>vt_lifecycle_ids := L'\<rparr>))) of
         (t4, Inl e) \<Rightarrow> (t4, Inl e) | (t4, Inr _) \<Rightarrow> (t4, Ok AdmissionPending))"
    and M': "\<forall>c. map_of M' c = (if c = cid
       then Some (new_member now (vt_reconnect_grace t) token False (bumped (vt_lifecycle_ids t) (rid, cid)))
       else map_option (\<lambda>m. m\<lparr>mb_lifecycle_id := bumped (vt_lifecycle_ids t) (rid, c)\<rparr>) (map_of (vr_members r) c))"
    using begin_upgrade_eq [where areq = areq and now = now and rid = rid and token = token, OF assms] by blast
  show ?thesis
    by (rule that [of M']) (simp add: eq rooms, simp only: M' if_False)
qed

text \<open>
  C28. The third client of a P2P room starts an upgrade on the chosen worker. The room becomes
  an upgrading one under a new assignment epoch and with its signal epoch unchanged; its
  upgrade lists the two old members in ascending order and the joining one last, none joined
  yet; every member carries a lifecycle id above all it had before (unless that counter has
  saturated), the old ones keep all else, their queues included, and the joining one is a
  fresh member with its token; and exactly one command goes out, the join of the first member
  in that order.
\<close>

theorem upgrade_starts:
  assumes "v2_inv t" "map_of (vt_rooms t) rid = Some r" "vr_mode r = P2p"
    "length (vr_members r) = 2" "map_of (vr_members r) cid = None"
    "select_worker 3 t = Some inst" "worker_connection inst t = Some conn"
  shows "\<exists>t' M' m1. admit areq now rid cid token t = (t', Ok AdmissionPending) \<and>
    map_of (vt_rooms t') rid = Some (upgrading_room areq cid inst M' r) \<and>
    fst ` set M' = insert cid (fst ` set (vr_members r)) \<and>
    (\<forall>c. map_of M' c = (if c = cid
       then Some (new_member now (vt_reconnect_grace t) token False (bumped (vt_lifecycle_ids t) (rid, cid)))
       else map_option (\<lambda>m. m\<lparr>mb_lifecycle_id := bumped (vt_lifecycle_ids t) (rid, c)\<rparr>) (map_of (vr_members r) c))) \<and>
    map_of M' (Min (fst ` set (vr_members r))) = Some m1 \<and>
    vt_actions t' = vt_actions t @ [ActionSfu (OutputCommand conn
      \<lparr>cm_request_id = vt_next_sfu_request_id t, cm_command = Join \<lparr>jm_room_id = rid,
         jm_client_id = Min (fst ` set (vr_members r)), jm_lifecycle_id = mb_lifecycle_id m1,
         jm_assignment_epoch = sat_add (vr_assignment_epoch r) 1\<rparr>\<rparr>)]"
proof -
  let ?c1 = "Min (fst ` set (vr_members r))"
  have ok: "hm_ok (vr_members r)" using v2_invD(1) [OF assms(1,2)] by (simp add: room_good_def hm_all_def)
  obtain w where w: "map_of (vt_workers t) inst = Some w" using select_worker_known [OF assms(6)] by auto
  obtain L' M' where b: "begin_upgrade areq now rid cid token inst r t =
      (case issue_next_upgrade_join rid (put_worker inst
          (w\<lparr>wk_assigned_rooms := List.insert rid (wk_assigned_rooms w),
             wk_assigned_clients := sat_add (wk_assigned_clients w) 3\<rparr>)
          (put_room rid (upgrading_room areq cid inst M' r) (t\<lparr>vt_lifecycle_ids := L'\<rparr>))) of
         (t4, Inl e) \<Rightarrow> (t4, Inl e) | (t4, Inr _) \<Rightarrow> (t4, Ok AdmissionPending))"
    "fst ` set M' = insert cid (fst ` set (vr_members r))"
    "\<forall>c. map_of M' c = (if c = cid
       then Some (new_member now (vt_reconnect_grace t) token False (bumped (vt_lifecycle_ids t) (rid, cid)))
       else map_option (\<lambda>m. m\<lparr>mb_lifecycle_id := bumped (vt_lifecycle_ids t) (rid, c)\<rparr>) (map_of (vr_members r) c))"
    using begin_upgrade_eq [where areq = areq and now = now and rid = rid and token = token, OF ok assms(5) w] by blast
  let ?t3 = "put_worker inst (w\<lparr>wk_assigned_rooms := List.insert rid (wk_assigned_rooms w),
      wk_assigned_clients := sat_add (wk_assigned_clients w) 3\<rparr>)
      (put_room rid (upgrading_room areq cid inst M' r) (t\<lparr>vt_lifecycle_ids := L'\<rparr>))"
  have ne: "vr_members r \<noteq> []" using assms(4) by auto
  then obtain cs where sorted: "sort (map fst (vr_members r)) = ?c1 # cs"
    using sort_head_Min [of "map fst (vr_members r)"] by auto
  have "?c1 \<in> fst ` set (vr_members r)" using ne by (intro Min_in) auto
  then have "?c1 \<in> fst ` set M'" using b(2) by simp
  then obtain m1 where m1: "map_of M' ?c1 = Some m1" unfolding hm_keys_iff by auto
  have conn: "worker_connection inst ?t3 = Some conn"
    using assms(7) w by (simp add: worker_connection_def)
  have join: "issue_next_upgrade_join rid ?t3 = (issue_command inst conn
      (Join \<lparr>jm_room_id = rid, jm_client_id = ?c1, jm_lifecycle_id = mb_lifecycle_id m1,
         jm_assignment_epoch = sat_add (vr_assignment_epoch r) 1\<rparr>)
      (PendingUpgradeJoin inst rid ?c1 (mb_lifecycle_id m1) (sat_add (vr_assignment_epoch r) 1)) ?t3, Ok ())"
    using m1 conn by (simp add: issue_next_upgrade_join_def upgrading_room_def sorted Let_def)
  have "admit areq now rid cid token t = (fst (issue_next_upgrade_join rid ?t3), Ok AdmissionPending)"
    using assms by (simp add: admit_def MAX_P2P_MEMBERS_def b(1) join)
  with m1 b(2,3) show ?thesis
    by (intro exI [of _ "fst (issue_next_upgrade_join rid ?t3)"] exI [of _ M'] exI [of _ m1])
      (simp add: join)
qed

theorem upgrade_starts_witness:
  "snd (admit 3 6 sample_rid 15 ''tok15'' sample_pair) = Ok AdmissionPending"
proof -
  let ?r = "the (map_of (vt_rooms sample_pair) sample_rid)"
  have r: "map_of (vt_rooms sample_pair) sample_rid = Some ?r" "vr_mode ?r = P2p" "length (vr_members ?r) = 2"
    "map_of (vr_members ?r) 15 = None" "select_worker 3 sample_pair = Some ''w1''"
    "worker_connection ''w1'' sample_pair = Some 9"
    by code_simp+
  from upgrade_starts [OF sample_inv(2) r, of 3 6 "''tok15''"] show ?thesis by (metis snd_conv)
qed

end
