(* ===== verification/V2_Barrier.thy ===== *)
theory V2_Barrier
  imports V2_Transitions
begin

text \<open>
  The results of worker commands: the barrier of an upgrade, its abort, the downgrade back to
  P2P, and the deduplication of worker events and results.
\<close>

section \<open>The barrier\<close>

lemma acknowledged_join:
  assumes "map_of (vt_workers t) inst = Some w" "wk_connection_id w = Some conn"
    "map_of (vt_pending_commands t) req = Some (PendingUpgradeJoin inst rid cid lifecycle epoch)"
  shows "handle_command_result conn inst \<lparr>cr_request_id = req, cr_result = Inr (MemberJoined
      \<lparr>jm_room_id = rid, jm_client_id = cid, jm_lifecycle_id = lifecycle, jm_assignment_epoch = epoch\<rparr>)\<rparr> now t =
    upgrade_join_result rid cid True ''INVALID_COMMAND_RESULT'' (forget_command req t)"
  using assms by (simp add: handle_command_result_def Let_def join_acknowledged_def failure_reason_def)

definition committed_room :: "v2_room \<Rightarrow> v2_room" where
  "committed_room r =
     r\<lparr>vr_upgrade := None, vr_mode := Sfu, vr_signal_epoch := sat_add (vr_signal_epoch r) 1,
       vr_members := hm_map (\<lambda>m. m\<lparr>mb_queued_messages := [], mb_is_initiator := False\<rparr>) (vr_members r)\<rparr>"

text \<open>
  An upgrade on track: the joins counted so far are those of the first members of its order. So
  every upgrade starts (C28); a join left over from an earlier room of the same id puts one off
  track when its late result is counted, as the run \<^verbatim>\<open>stale_join_counts\<close> in V2_Findings shows.
\<close>

definition on_track :: "upgrade \<Rightarrow> bool" where
  "on_track u \<longleftrightarrow> up_joined_clients u = take (up_next_client u) (up_ordered_clients u)"

text \<open>
  C3. An upgrade is a barrier. Take an upgrading room whose upgrade is on track, and the
  worker's acknowledgement of the join it waits for: that of the next member in its order, with
  the member's current lifecycle and the room's current assignment. While members are left, the
  acknowledgement only records the member and sends the join of the next one, nothing else: the
  upgrade stays on track, the room stays upgrading under its old epoch and no admission is
  answered. The acknowledgement of the last member, by which every member of the room has been
  acknowledged, commits: the room is an SFU room under the next signal epoch, its members hold
  no queue and no initiator role, and the old members are told to move before the waiting
  admission is answered with the joining member's token. Results of joins of earlier rooms, which
  the code counts as well, are outside of this statement.
\<close>

theorem upgrade_barrier:
  assumes "v2_inv t" "map_of (vt_rooms t) rid = Some r" "vr_mode r = Upgrading" "vr_upgrade r = Some u"
    "vr_assigned_instance r = Some inst" "map_of (vt_workers t) inst = Some w" "wk_connection_id w = Some conn"
    "on_track u" "cid = up_ordered_clients u ! up_next_client u" "map_of (vr_members r) cid = Some mc"
    "map_of (vt_pending_commands t) req =
       Some (PendingUpgradeJoin inst rid cid (mb_lifecycle_id mc) (vr_assignment_epoch r))"
  shows "case handle_command_result conn inst \<lparr>cr_request_id = req, cr_result = Inr (MemberJoined
      \<lparr>jm_room_id = rid, jm_client_id = cid, jm_lifecycle_id = mb_lifecycle_id mc,
       jm_assignment_epoch = vr_assignment_epoch r\<rparr>)\<rparr> now t of
    (t', res) \<Rightarrow> res = Ok () \<and>
     (if up_next_client u < 2 then
       (\<exists>c m u'. c = up_ordered_clients u ! Suc (up_next_client u) \<and> map_of (vr_members r) c = Some m \<and>
          u' = u\<lparr>up_joined_clients := up_joined_clients u @ [cid], up_next_client := Suc (up_next_client u)\<rparr> \<and>
          on_track u' \<and> map_of (vt_rooms t') rid = Some (r\<lparr>vr_upgrade := Some u'\<rparr>) \<and>
          vt_actions t' = vt_actions t @ [ActionSfu (OutputCommand conn
            \<lparr>cm_request_id = vt_next_sfu_request_id t, cm_command = Join \<lparr>jm_room_id = rid, jm_client_id = c,
               jm_lifecycle_id = mb_lifecycle_id m, jm_assignment_epoch = vr_assignment_epoch r\<rparr>\<rparr>)])
     else
       set (up_joined_clients u @ [cid]) = fst ` set (vr_members r) \<and>
       (\<exists>m. map_of (vr_members r) (up_joining_client_id u) = Some m \<and>
          map_of (vt_rooms t') rid = Some (committed_room r) \<and>
          vt_actions t' = vt_actions t @
            [Upgraded rid (sat_add (vr_signal_epoch r) 1)
               (filter (\<lambda>c. c \<noteq> up_joining_client_id u) (map fst (vr_members r))),
             AdmissionCompleted (up_authority_request_id u) (Inr \<lparr>ad_mode = Sfu,
               ad_signal_epoch = sat_add (vr_signal_epoch r) 1, ad_admission_token = mb_token m,
               ad_is_initiator = None\<rparr>)]))"
proof -
  have u: "upgrade_ok u r" by (rule v2_inv_upgradeD [OF assms(1,2,4)])
  then have keys: "hm_contains (vr_members r) c" if "c \<in> set (up_ordered_clients u)" for c
    using assms(3) that unfolding upgrade_ok_def by (metis hm_keys_iff)
  have len: "length (up_ordered_clients u) = 3" "up_next_client u < 3" using u by (simp_all add: upgrade_ok_def)
  have joined: "up_joined_clients u @ [cid] = take (Suc (up_next_client u)) (up_ordered_clients u)"
    using assms(8,9) len by (simp add: on_track_def take_Suc_conv_app_nth)
  note step = acknowledged_join [OF assms(6,7,11), of now]
  show ?thesis
  proof (cases "up_next_client u < 2")
    case True
    let ?c = "up_ordered_clients u ! Suc (up_next_client u)"
    obtain m where "map_of (vr_members r) ?c = Some m" using keys [of ?c] True len by auto
    moreover have "worker_connection inst (put_room rid r' (forget_command req t)) = Some conn" for r'
      using assms(6,7) by (simp add: worker_connection_def)
    ultimately show ?thesis
      using True len joined assms(2,4,5) unfolding step
      by (simp add: upgrade_join_result_def Let_def issue_next_upgrade_join_def on_track_def)
  next
    case False
    then have n: "up_next_client u = 2" using len by simp
    have "last (up_ordered_clients u) = up_joining_client_id u" "up_ordered_clients u \<noteq> []"
      using u by (auto simp: upgrade_ok_def)
    then have "up_joining_client_id u \<in> set (up_ordered_clients u)" by (metis last_in_set)
    then obtain m where "map_of (vr_members r) (up_joining_client_id u) = Some m" using keys by auto
    moreover have "set (up_joined_clients u @ [cid]) = fst ` set (vr_members r)"
      using u assms(3) len(1) unfolding joined n by (simp add: upgrade_ok_def)
    ultimately show ?thesis using n len assms(2,4) unfolding step
      by (simp add: upgrade_join_result_def Let_def commit_upgrade_def committed_room_def)
  qed
qed

theorem upgrade_barrier_witness:
  "\<exists>t'. fst (v2_exec 6 (sample_ack 10 2 1 1) sample_upgrading) = t' \<and>
     map_option vr_mode (map_of (vt_rooms t') sample_rid) = Some Upgrading"
proof -
  let ?r = "the (map_of (vt_rooms sample_upgrading) sample_rid)"
  let ?u = "the (vr_upgrade ?r)" and ?w = "the (map_of (vt_workers sample_upgrading) ''w1'')"
  let ?m = "the (map_of (vr_members ?r) 10)"
  have r: "map_of (vt_rooms sample_upgrading) sample_rid = Some ?r" "vr_mode ?r = Upgrading"
    "vr_upgrade ?r = Some ?u" "vr_assigned_instance ?r = Some ''w1''"
    "map_of (vt_workers sample_upgrading) ''w1'' = Some ?w" "wk_connection_id ?w = Some 9"
    "on_track ?u" "10 = up_ordered_clients ?u ! up_next_client ?u" "map_of (vr_members ?r) 10 = Some ?m"
    "map_of (vt_pending_commands sample_upgrading) 1 =
       Some (PendingUpgradeJoin ''w1'' sample_rid 10 (mb_lifecycle_id ?m) (vr_assignment_epoch ?r))"
    and n: "up_next_client ?u = 0 \<and> mb_lifecycle_id ?m = 2 \<and> vr_assignment_epoch ?r = 1"
    by code_simp+
  from upgrade_barrier [OF sample_inv(3) r, of 6] r(2) n show ?thesis
    by (auto simp: sample_ack_def handle_sfu_input_def split: prod.splits)
qed

section \<open>The abort\<close>

lemma cleanup_joined_ok:
  "map_of (vt_rooms t) rid = Some r \<Longrightarrow> set cids \<subseteq> fst ` set (vr_members r) \<Longrightarrow>
     snd (cleanup_joined inst conn rid epoch cids t) = Ok () \<and>
     vt_workers (fst (cleanup_joined inst conn rid epoch cids t)) = vt_workers t \<and>
     vt_rooms (fst (cleanup_joined inst conn rid epoch cids t)) = vt_rooms t"
proof (induction cids arbitrary: t)
  case Nil
  then show ?case by simp
next
  case (Cons c cids)
  then obtain m where "map_of (vr_members r) c = Some m" by (force simp: hm_keys_iff simp flip: not_None_eq)
  with Cons show ?case by simp
qed

text \<open>On track, those who have joined stay when the joining member goes.\<close>

lemma joined_remain:
  assumes "upgrade_ok u r" "vr_mode r = Upgrading" "on_track u"
  shows "set (up_joined_clients u) \<subseteq> fst ` set (hm_remove (up_joining_client_id u) (vr_members r))"
proof
  fix c assume "c \<in> set (up_joined_clients u)"
  then obtain i where i: "i < up_next_client u" "up_ordered_clients u ! i = c"
    using assms(3) by (auto simp: on_track_def in_set_conv_nth)
  have u: "length (up_ordered_clients u) = 3" "distinct (up_ordered_clients u)" "up_next_client u < 3"
    "last (up_ordered_clients u) = up_joining_client_id u" "set (up_ordered_clients u) = fst ` set (vr_members r)"
    using assms(1,2) by (simp_all add: upgrade_ok_def)
  then have "up_ordered_clients u \<noteq> []" by auto
  then have "up_ordered_clients u ! 2 = up_joining_client_id u" using u(1,4) by (simp add: last_conv_nth)
  moreover have "up_ordered_clients u ! i \<noteq> up_ordered_clients u ! 2"
    using u(1-3) i(1) by (simp add: nth_eq_iff_index_eq)
  moreover have "c \<in> fst ` set (vr_members r)" using u i by (metis less_trans nth_mem)
  ultimately show "c \<in> fst ` set (hm_remove (up_joining_client_id u) (vr_members r))"
    using i(2) by (simp add: hm_keys_iff)
qed

text \<open>
  C29. A failed join undoes the upgrade. When the worker answers an outstanding join of an
  upgrading room with anything but its acknowledgement, and the upgrade is on track, the room
  is a P2P room again with exactly the members it had before, its signal epoch and their queues
  untouched, the worker gets back the room and the three clients reserved on it, and the waiting
  admission is answered with the worker's reason. Off track, when a join left over from an earlier
  room has been counted, or in a room that failed meanwhile, the abort can end with
  CLIENT_NOT_FOUND and leave the admission unanswered (\<^verbatim>\<open>abort_unanswered\<close> in V2_Findings).
\<close>

theorem upgrade_abort:
  assumes "v2_inv t" "map_of (vt_rooms t) rid = Some r" "vr_upgrade r = Some u"
    "vr_assigned_instance r = Some inst" "map_of (vt_workers t) inst = Some w" "wk_connection_id w = Some conn"
    "map_of (vt_pending_commands t) req = Some (PendingUpgradeJoin inst rid cid lifecycle epoch)"
    "\<not> join_acknowledged rid cid lifecycle epoch answer"
    "vr_mode r = Upgrading" "on_track u"
  shows "case handle_command_result conn inst \<lparr>cr_request_id = req, cr_result = answer\<rparr> now t of (t', res) \<Rightarrow>
    res = Ok () \<and>
    map_of (vt_rooms t') rid = Some (r\<lparr>vr_members := hm_remove (up_joining_client_id u) (vr_members r),
      vr_upgrade := None, vr_mode := P2p, vr_assigned_instance := None\<rparr>) \<and>
    map_of (vt_workers t') inst = Some (w\<lparr>wk_assigned_rooms := removeAll rid (wk_assigned_rooms w),
      wk_assigned_clients := sat_sub (wk_assigned_clients w) 3\<rparr>) \<and>
    last (vt_actions t') = AdmissionCompleted (up_authority_request_id u)
      (Inl (if failure_reason answer = [] then ''WORKER_UNAVAILABLE'' else failure_reason answer))"
proof -
  let ?r = "r\<lparr>vr_members := hm_remove (up_joining_client_id u) (vr_members r),
      vr_upgrade := None, vr_mode := P2p, vr_assigned_instance := None\<rparr>"
  let ?t1 = "on_worker inst (release_worker rid 3) (put_room rid ?r (forget_command req t))"
  let ?clean = "cleanup_joined inst conn rid (vr_assignment_epoch r) (up_joined_clients u) ?t1"
  have "upgrade_ok u r" by (rule v2_inv_upgradeD [OF assms(1-3)])
  then have joined: "set (up_joined_clients u) \<subseteq> fst ` set (hm_remove (up_joining_client_id u) (vr_members r))"
    by (rule joined_remain [OF _ assms(9,10)])
  have clean: "snd ?clean = Ok ()" "vt_workers (fst ?clean) = vt_workers ?t1" "vt_rooms (fst ?clean) = vt_rooms ?t1"
    using cleanup_joined_ok [of ?t1 rid ?r "up_joined_clients u" inst conn "vr_assignment_epoch r"] joined
    by simp_all
  obtain t2 where t2: "?clean = (t2, Ok ())" using clean(1) by (metis prod.collapse)
  have conn: "worker_connection inst (forget_command req t) = Some conn"
    using assms(5,6) by (simp add: worker_connection_def)
  have "handle_command_result conn inst \<lparr>cr_request_id = req, cr_result = answer\<rparr> now t =
      abort_upgrade rid (failure_reason answer) (forget_command req t)"
    using assms(5-8) by (simp add: handle_command_result_def Let_def upgrade_join_result_def)
  also have "\<dots> = (push_action (AdmissionCompleted (up_authority_request_id u)
      (Inl (if failure_reason answer = [] then ''WORKER_UNAVAILABLE'' else failure_reason answer))) t2, Ok ())"
    using assms(2-4) conn t2 by (simp add: abort_upgrade_def Let_def remove_member_def)
  finally show ?thesis
    using clean t2 assms(5) by (simp add: on_worker_def release_worker_def)
qed

theorem upgrade_abort_witness:
  "map_option vr_mode (map_of (vt_rooms (fst (handle_command_result 9 ''w1'' \<lparr>cr_request_id = 1,
     cr_result = Inl \<lparr>er_reason = ''FULL'', er_retryable = False\<rparr>\<rparr> 6 sample_upgrading))) sample_rid) = Some P2p"
proof -
  let ?r = "the (map_of (vt_rooms sample_upgrading) sample_rid)"
  let ?u = "the (vr_upgrade ?r)" and ?w = "the (map_of (vt_workers sample_upgrading) ''w1'')"
  let ?answer = "Inl \<lparr>er_reason = ''FULL'', er_retryable = False\<rparr>"
  have r: "map_of (vt_rooms sample_upgrading) sample_rid = Some ?r"
    "vr_upgrade ?r = Some ?u" "vr_assigned_instance ?r = Some ''w1''"
    "map_of (vt_workers sample_upgrading) ''w1'' = Some ?w" "wk_connection_id ?w = Some 9"
    "map_of (vt_pending_commands sample_upgrading) 1 = Some (PendingUpgradeJoin ''w1'' sample_rid 10 2 1)"
    "\<not> join_acknowledged sample_rid 10 2 1 ?answer"
    by code_simp+
  have j: "vr_mode ?r = Upgrading" "on_track ?u" by code_simp+
  from upgrade_abort [OF sample_inv(3) r j, of 6] show ?thesis by (auto split: prod.splits)
qed

end
