(* ===== verification/V2_Frame.thy ===== *)
theory V2_Frame
  imports V2_System
begin

text \<open>
  A frame rule for the whole authority: a condition on tables that survives the small updates
  the handlers are made of survives every operation. The locale lists the small updates; a
  worker entry may be replaced by one that remembers the same events. A worker event,
  which remembers its id, and the polling or clearing of the table are left to the caller.
\<close>

section \<open>The frame rule\<close>

definition seen_order :: "instance_id \<Rightarrow> v2_table \<Rightarrow> u64 list" where
  "seen_order inst t =
     (case map_of (vt_workers t) inst of None \<Rightarrow> [] | Some w \<Rightarrow> wk_seen_event_order w)"

locale frame_rule =
  fixes R :: "v2_table \<Rightarrow> bool"
  assumes push [intro]: "R t \<Longrightarrow> R (push_action a t)"
    and rooms: "R t \<Longrightarrow> R (t\<lparr>vt_rooms := rs\<rparr>)"
    and lifecycles: "R t \<Longrightarrow> R (t\<lparr>vt_lifecycle_ids := L\<rparr>)"
    and dwell: "R t \<Longrightarrow> R (t\<lparr>vt_downgrade_dwell := d\<rparr>)"
    and worker: "R t \<Longrightarrow> wk_seen_event_order w = seen_order inst t \<Longrightarrow> R (put_worker inst w t)"
    and issue: "R t \<Longrightarrow> R (issue_command inst conn kind p t)"
    and forget: "R t \<Longrightarrow> R (forget_command req t)"
begin

lemma put [intro]: "R t \<Longrightarrow> R (put_room rid r t)"
  by (simp add: put_room_def rooms)

lemma drop [intro]: "R t \<Longrightarrow> R (drop_room rid t)"
  by (simp add: drop_room_def rooms)

lemma on_worker [intro]:
  "R t \<Longrightarrow> (\<And>w. wk_seen_event_order (f w) = wk_seen_event_order w) \<Longrightarrow> R (on_worker inst f t)"
  by (auto simp: on_worker_def seen_order_def split: option.split intro: worker)

lemma lifecycle: "R t \<Longrightarrow> next_lifecycle rid cid t = (t', l) \<Longrightarrow> R t'"
  by (auto simp: next_lifecycle_def Let_def intro: lifecycles)

lemma forgets: "R t \<Longrightarrow> R (fold forget_command reqs t)"
  by (induction reqs arbitrary: t) (simp_all add: forget)

lemma pushes: "R t \<Longrightarrow> R (fold (\<lambda>c. push_action (f c)) cs t)"
  by (induction cs arbitrary: t) (simp_all add: push)

lemma finish: "R (fst x) \<Longrightarrow> R (fst (case x of (t2, Inl e) \<Rightarrow> (t2, Inl e) | (t2, Inr _) \<Rightarrow> (f t2, y t2)))"
  if "\<And>t. R t \<Longrightarrow> R (f t)" for x :: "v2_table \<times> unit result" and y :: "v2_table \<Rightarrow> 'a result"
  using that by (cases x) (auto split: sum.split)

subsection \<open>Browser operations\<close>

lemma issue_next_upgrade_join: "R t \<Longrightarrow> R (fst (issue_next_upgrade_join rid t))"
  by (auto simp: issue_next_upgrade_join_def Let_def split: option.split intro: issue)

lemma refresh_lifecycles: "R t \<Longrightarrow> R (fst (refresh_lifecycles rid cids t))"
proof (induction cids arbitrary: t)
  case (Cons cid cids)
  then show ?case by (auto split: prod.split option.split intro: Cons.IH dest: lifecycle)
qed simp

lemma begin_upgrade:
  assumes "R t"
  shows "R (fst (begin_upgrade areq now rid cid token inst room t))"
proof -
  have refresh: "R t2" if "refresh_lifecycles rid cids t1 = (t2, res)" "R t1" for cids t1 t2 res
    using refresh_lifecycles [OF that(2), of rid cids] that(1) by simp
  have join: "R t4" if "issue_next_upgrade_join rid t3 = (t4, res)" "R t3" for t3 t4 res
    using issue_next_upgrade_join [OF that(2), of rid] that(1) by simp
  have assign: "R (put_worker inst (w\<lparr>wk_assigned_rooms := rs, wk_assigned_clients := n\<rparr>) (put_room rid r t1))"
    if "R t1" "map_of (vt_workers t1) inst = Some w" for w rs n r t1
    using that by (intro worker put) (auto simp: seen_order_def)
  obtain t1 l where l: "next_lifecycle rid cid t = (t1, l)" by force
  note t1 = lifecycle [OF assms l]
  show ?thesis
    unfolding begin_upgrade_def l prod.case Let_def
    by (auto split: prod.split sum.split option.split
        dest!: refresh [OF _ put [OF t1]] dest: join [OF _ assign])
qed

lemma admit:
  assumes "R t"
  shows "R (fst (admit areq now rid cid token t))"
proof -
  obtain t1 l where l: "next_lifecycle rid cid t = (t1, l)" by force
  show ?thesis
    using assms lifecycle [OF assms l]
    by (auto simp: admit_def admit_to_sfu_def l Let_def split: option.split room_mode.split
        intro: begin_upgrade issue)
qed

lemma register: "R t \<Longrightarrow> R (fst (v2_register rid cid token t))"
  by (auto simp: v2_register_def Let_def split: option.split)

lemma issue_sfu_leave: "R t \<Longrightarrow> R (fst (issue_sfu_leave rid cid reason t))"
  by (auto simp: issue_sfu_leave_def split: option.split intro: issue)

lemma arm_reconnect: "R t \<Longrightarrow> R (arm_reconnect now rid cid t)"
  by (auto simp: arm_reconnect_def split: option.split)

lemma leave_or_arm:
  assumes "R t"
  shows "R (case issue_sfu_leave rid cid reason t of
     (t1, True) \<Rightarrow> t1 | (t1, False) \<Rightarrow> arm_reconnect now rid cid t1)"
  using issue_sfu_leave [OF assms, of rid cid reason]
  by (auto split: prod.split bool.split intro: arm_reconnect)

lemma deregister: "R t \<Longrightarrow> R (v2_deregister now rid cid t)"
  by (auto simp: v2_deregister_def Let_def split: option.split intro!: leave_or_arm arm_reconnect)

lemma send: "R t \<Longrightarrow> R (fst (v2_send rid cid epoch msg t))"
  by (auto simp: v2_send_def queue_for_peer_def split: option.split prod.split sum.split intro: issue)

lemma remove: "R t \<Longrightarrow> R (fst (v2_remove areq rid cid token t))"
  by (auto simp: v2_remove_def Let_def split: option.split prod.split intro: issue)

subsection \<open>Worker operations\<close>

lemma fail_room: "R t \<Longrightarrow> R (fail_room rid reason t)"
  by (auto simp: fail_room_def split: option.split)

lemma commit_upgrade: "R t \<Longrightarrow> R (fst (commit_upgrade rid t))"
  by (auto simp: commit_upgrade_def Let_def split: option.split)

lemma cleanup_joined: "R t \<Longrightarrow> R (fst (cleanup_joined inst conn rid epoch cids t))"
  by (induction cids arbitrary: t) (auto split: option.split intro: issue)

lemma release: "R t \<Longrightarrow> R (on_worker inst (release_worker rid n) t)"
  by (rule on_worker) (simp_all add: release_worker_def)

lemma abort_upgrade:
  assumes "R t"
  shows "R (fst (abort_upgrade rid reason t))"
proof -
  have clean: "R (fst (case conn of None \<Rightarrow> (t1, Ok ()) | Some c \<Rightarrow> cleanup_joined inst c rid e cs t1))"
    if "R t1" for conn inst e cs t1
    using that by (cases conn) (simp_all add: cleanup_joined)
  show ?thesis
    unfolding abort_upgrade_def Let_def
    by (split option.split, intro conjI allI impI, simp add: assms, split option.split, intro conjI allI impI,
        simp add: assms, split option.split, intro conjI allI impI)
      (simp add: put assms, intro finish push clean release put assms)
qed

lemma arm_downgrade: "R t \<Longrightarrow> R (arm_downgrade rid now t)"
  by (auto simp: arm_downgrade_def split: option.split)

lemma leave_all: "R t \<Longrightarrow> R (leave_all inst conn rid epoch leaving t)"
  by (induction leaving arbitrary: t) (auto simp: issue)

lemma commit_downgrade: "R t \<Longrightarrow> R (fst (commit_downgrade rid t))"
  by (auto simp: commit_downgrade_def Let_def split: option.split list.split intro!: leave_all push release put)

lemma sync_rooms: "R t \<Longrightarrow> R (sync_rooms inst conn rids t)"
  by (induction rids arbitrary: t) (auto split: option.split intro: issue)

lemma register_worker:
  assumes "R t"
  shows "R (fst (register_worker conn inst req cap t))"
proof -
  have entry: "R (put_worker inst (w\<lparr>wk_connection_id := c, wk_capacity := cap, wk_health := h, wk_disconnect_deadline := d\<rparr>) t)"
    if "wk_seen_event_order w = seen_order inst t" for w c h d
    using that by (intro worker [OF assms]) simp
  have new: "wk_seen_event_order (new_worker cap) = []" by (simp add: new_worker_def)
  show ?thesis
    using assms by (auto simp: register_worker_def Let_def seen_order_def new
        intro!: sync_rooms forgets push entry split: option.split)
qed

lemma worker_signal: "R t \<Longrightarrow> R (fst (worker_signal inst s t))"
  by (auto simp: worker_signal_def split: option.split)

lemma worker_disconnected: "R t \<Longrightarrow> R (worker_disconnected conn inst now t)"
  by (auto simp: worker_disconnected_def seen_order_def split: option.split intro: worker)

text \<open>A worker event needs the condition only once its id is remembered.\<close>

lemma applied_event:
  assumes R: "R (put_worker inst (remember_event (ev_request_id event) w) t)"
    and w: "map_of (vt_workers t) inst = Some w" "wk_connection_id w = Some conn"
      "ev_request_id event \<noteq> 0" "ev_request_id event \<notin> set (wk_seen_events w)"
  shows "R (fst (handle_worker_event conn inst event t))"
proof -
  let ?w = "remember_event (ev_request_id event) w"
  have health: "R (put_worker inst (?w\<lparr>wk_capacity := c, wk_health := h\<rparr>) (put_worker inst ?w t))" for c h
    by (rule worker [OF R]) (simp add: seen_order_def put_worker_def)
  show ?thesis
    using R w by (auto simp: handle_worker_event_def Let_def
        intro!: finish health worker_signal fail_room push split: event_kind.split option.split)
qed

lemma handle_worker_event:
  assumes R: "R t" and remembered: "\<And>w. map_of (vt_workers t) inst = Some w \<Longrightarrow> R (put_worker inst (remember_event (ev_request_id event) w) t)"
  shows "R (fst (handle_worker_event conn inst event t))"
proof (cases "map_of (vt_workers t) inst")
  case None
  with R show ?thesis by (simp add: handle_worker_event_def)
next
  case (Some w)
  show ?thesis
  proof (cases "wk_connection_id w = Some conn \<and> ev_request_id event \<noteq> 0 \<and> ev_request_id event \<notin> set (wk_seen_events w)")
    case True
    then show ?thesis using applied_event [OF remembered [OF Some] Some] by simp
  next
    case False
    with R show ?thesis by (auto simp: handle_worker_event_def Let_def Some)
  qed
qed

lemma upgrade_join_result: "R t \<Longrightarrow> R (fst (upgrade_join_result rid cid valid reason t))"
  by (auto simp: upgrade_join_result_def Let_def split: option.split
      intro!: abort_upgrade commit_upgrade issue_next_upgrade_join)

lemma sfu_join_result: "R t \<Longrightarrow> R (fst (sfu_join_result inst rid cid valid reason t))"
  by (auto simp: sfu_join_result_def Let_def split: option.split intro!: push on_worker put)

lemma sfu_leave_result:
  assumes "R t"
  shows "R (fst (sfu_leave_result now inst rid cid valid reason t))"
proof -
  have complete: "R ((case q of None \<Rightarrow> id | Some areq \<Rightarrow> push_action (h areq)) t')" if "R t'"
    for q :: "u64 option" and h t' using that by (auto split: option.split)
  show ?thesis
    using assms by (auto simp: sfu_leave_result_def Let_def split: option.split
        intro!: drop arm_downgrade complete on_worker)
qed

text \<open>The result of a pending command is handled after the command is forgotten.\<close>

lemma applied_result:
  assumes "R (forget_command (cr_request_id result) t)" "worker_connection inst t = Some conn"
    "hm_contains (vt_pending_commands t) (cr_request_id result)"
  shows "R (fst (handle_command_result conn inst result now t))"
  using assms by (auto simp: handle_command_result_def worker_connection_def Let_def
      split: option.splits pending_command.split
      intro!: upgrade_join_result sfu_join_result sfu_leave_result fail_room pushes)

lemma handle_command_result:
  assumes "R t"
  shows "R (fst (handle_command_result conn inst result now t))"
  using assms applied_result [OF forget [OF assms], where result = result and inst = inst and conn = conn and now = now]
  by (cases "worker_connection inst t = Some conn \<and> hm_contains (vt_pending_commands t) (cr_request_id result)")
    (auto simp: handle_command_result_def worker_connection_def split: option.splits)

lemma other_input:
  assumes "R t" "\<And>c i e. input \<noteq> InputEvent c i e"
  shows "R (fst (handle_sfu_input input t))"
  using assms by (auto simp: handle_sfu_input_def split: sfu_input.split
      intro!: register_worker handle_command_result worker_disconnected)

subsection \<open>Timeouts\<close>

lemma expire_assigned_room: "R t \<Longrightarrow> R (expire_assigned_room rid t)"
  by (auto simp: expire_assigned_room_def Let_def split: option.split intro!: push put abort_upgrade)

lemma expire_worker: "R t \<Longrightarrow> R (expire_worker inst t)"
proof -
  have "R (fold expire_assigned_room rids t)" if "R t" for rids t
    using that by (induction rids arbitrary: t) (auto intro: expire_assigned_room)
  then show "R t \<Longrightarrow> R (expire_worker inst t)" by (auto simp: expire_worker_def Let_def intro!: on_worker forgets)
qed

lemma expire_workers: "R t \<Longrightarrow> R (fold expire_worker insts t)"
  by (induction insts arbitrary: t) (auto intro: expire_worker)

lemma sweep_room:
  assumes "R t"
  shows "R (fst (sweep_room now rid t))"
proof -
  have leave: "R (fst (case issue_sfu_leave rid cid reason t of
      (t1, True) \<Rightarrow> (t1, p) | (t1, False) \<Rightarrow> (arm_reconnect now rid cid t1, p)))" for cid reason and p :: "promotion option"
    using issue_sfu_leave [OF assms, of rid cid reason] by (auto split: prod.splits bool.splits intro: arm_reconnect)
  have p2p: "R (fst (sweep_p2p now rid r t))" for r
    using assms by (auto simp: sweep_p2p_def Let_def split: prod.split)
  show ?thesis
    using assms leave p2p commit_downgrade [OF assms, of rid] by (auto simp: sweep_room_def split: option.split)
qed

lemma sweep_rooms: "R t \<Longrightarrow> R (fst (sweep_rooms now rids t))"
  by (induction rids arbitrary: t) (auto simp: case_prod_beta intro: sweep_room)

lemma handle_timeout: "R t \<Longrightarrow> R (fst (v2_handle_timeout now t))"
  by (simp add: v2_handle_timeout_def Let_def sweep_rooms expire_workers)

subsection \<open>All operations\<close>

lemma exec:
  assumes "R t" "\<And>c i e. op \<noteq> V2Input (InputEvent c i e)" "op \<noteq> V2PollAction" "op \<noteq> V2Clear"
  shows "R (fst (v2_exec now op t))"
  using assms
  by (cases op) (auto simp: set_downgrade_dwell_def
      intro: admit register deregister send remove other_input handle_timeout dwell)

end

end
