(* ===== verification/V2_Downgrade.thy ===== *)
theory V2_Downgrade
  imports V2_Signaling V2_Transitions V2_Epochs V2_Frame
begin

text \<open>
  The way back from the SFU: the sweep turns a room that stayed small for the dwell into a
  P2P room, whatever other rooms it sweeps before and after.
\<close>

section \<open>What a sweep leaves alone\<close>

interpretation emitted: frame_rule "\<lambda>t. A \<subseteq> set (vt_actions t)" for A
  by unfold_locales auto

lemma connection_frame [simp]:
  "worker_connection inst (push_action a t) = worker_connection inst t"
  "worker_connection inst (put_room rid r t) = worker_connection inst t"
  "worker_connection inst (drop_room rid t) = worker_connection inst t"
  "worker_connection inst (issue_command i conn kind p t) = worker_connection inst t"
  "worker_connection inst (on_worker i (release_worker rid n) t) = worker_connection inst t"
  by (auto simp: worker_connection_def on_worker_def release_worker_def split: option.split)

lemma leave_all_connection: "worker_connection inst (leave_all i conn rid epoch leaving t) = worker_connection inst t"
  by (induction leaving arbitrary: t) auto

lemma commit_downgrade_connection: "worker_connection inst (fst (commit_downgrade rid t)) = worker_connection inst t"
  by (auto simp: commit_downgrade_def Let_def leave_all_connection split: option.split list.split)

lemma sweep_room_connection: "worker_connection inst (fst (sweep_room now rid t)) = worker_connection inst t"
proof -
  have arm: "worker_connection inst (arm_reconnect now rid cid t') = worker_connection inst t'" for cid t'
    by (simp add: arm_reconnect_def split: option.split)
  have "worker_connection inst (fst (issue_sfu_leave rid cid reason t)) = worker_connection inst t" for cid reason
    by (auto simp: issue_sfu_leave_def split: option.split)
  then have leave: "worker_connection inst (fst (case issue_sfu_leave rid cid reason t of
      (t1, True) \<Rightarrow> (t1, p) | (t1, False) \<Rightarrow> (arm_reconnect now rid cid t1, p))) = worker_connection inst t"
    for cid reason and p :: "promotion option"
    by (simp add: case_prod_beta arm split: bool.split)
  have p2p: "worker_connection inst (fst (sweep_p2p now rid r t)) = worker_connection inst t" for r
    by (simp add: sweep_p2p_def Let_def split: prod.split)
  show ?thesis by (simp add: sweep_room_def leave p2p commit_downgrade_connection split: option.split)
qed

lemma sweep_rooms_connection: "worker_connection inst (fst (sweep_rooms now rids t)) = worker_connection inst t"
  by (induction rids arbitrary: t) (auto simp: case_prod_beta sweep_room_connection)

text \<open>The sweep of a list of rooms reaches each room as it was before, and leaves it there.\<close>

lemma sweep_rooms_reach:
  assumes "rid \<in> set rids" "distinct rids"
  shows "\<exists>t1. map_of (vt_rooms t1) rid = map_of (vt_rooms t) rid \<and>
    (\<forall>inst. worker_connection inst t1 = worker_connection inst t) \<and>
    map_of (vt_rooms (fst (sweep_rooms now rids t))) rid = map_of (vt_rooms (fst (sweep_room now rid t1))) rid \<and>
    set (vt_actions (fst (sweep_room now rid t1))) \<subseteq> set (vt_actions (fst (sweep_rooms now rids t))) \<and>
    set_option (snd (sweep_room now rid t1)) \<subseteq> set (snd (sweep_rooms now rids t))"
  using assms
proof (induction rids arbitrary: t)
  case (Cons k rids)
  have run: "fst (sweep_rooms now (k # rids) t) = fst (sweep_rooms now rids (fst (sweep_room now k t)))"
    "set (snd (sweep_rooms now (k # rids) t)) =
       set_option (snd (sweep_room now k t)) \<union> set (snd (sweep_rooms now rids (fst (sweep_room now k t))))"
    by (auto simp: case_prod_beta split: option.splits)
  show ?case
  proof (cases "k = rid")
    case True
    then have "rid \<notin> set rids" using Cons.prems by simp
    then show ?thesis
      unfolding run using True emitted.sweep_rooms [OF subset_refl]
      by (intro exI [of _ t]) (auto simp: sweep_rooms_others)
  next
    case False
    then have "rid \<in> set rids" "distinct rids" using Cons.prems by auto
    from Cons.IH [OF this, of "fst (sweep_room now k t)"] show ?thesis
      unfolding run using sweep_room_others [of rid k now t] False by (auto simp: sweep_room_connection)
  qed
qed simp

section \<open>The downgrade\<close>

lemma leave_all_actions:
  "ActionSfu (OutputCommand conn \<lparr>cm_request_id = k, cm_command = c\<rparr>) \<in> set (vt_actions t) \<Longrightarrow>
    ActionSfu (OutputCommand conn \<lparr>cm_request_id = k, cm_command = c\<rparr>) \<in> set (vt_actions (leave_all inst conn' rid epoch leaving t))"
  using emitted.leave_all [of "{ActionSfu (OutputCommand conn \<lparr>cm_request_id = k, cm_command = c\<rparr>)}" t] by simp

lemma leave_all_leaves:
  "(c, l) \<in> set leaving \<Longrightarrow> \<exists>k. ActionSfu (OutputCommand conn \<lparr>cm_request_id = k, cm_command =
     Leave \<lparr>lm_room_id = rid, lm_client_id = c, lm_lifecycle_id = l, lm_assignment_epoch = epoch, lm_reason = RoomClosed\<rparr>\<rparr>)
     \<in> set (vt_actions (leave_all inst conn rid epoch leaving t))"
proof (induction leaving arbitrary: t)
  case (Cons p leaving)
  show ?case
  proof (cases "p = (c, l)")
    case True
    then show ?thesis by (auto intro!: exI [of _ "vt_next_sfu_request_id t"] leave_all_actions)
  next
    case False
    then show ?thesis using Cons by (cases p) auto
  qed
qed simp

text \<open>The room after the downgrade, and what the sweep has sent for it.\<close>

definition direct_room :: "v2_room \<Rightarrow> v2_room" where
  "direct_room r = r\<lparr>vr_mode := P2p, vr_signal_epoch := sat_add (vr_signal_epoch r) 1,
     vr_assigned_instance := None, vr_downgrade_deadline := None,
     vr_members := map (\<lambda>(c, m). (c, m\<lparr>mb_is_initiator := (c = Min (fst ` set (vr_members r))), mb_queued_messages := []\<rparr>))
       (vr_members r)\<rparr>"

lemma commit_downgrade_eq:
  assumes r: "map_of (vt_rooms t) rid = Some r" and ne: "vr_members r \<noteq> []"
  shows "map_of (vt_rooms (fst (commit_downgrade rid t))) rid = Some (direct_room r)"
    "Downgraded rid (sat_add (vr_signal_epoch r) 1) (Min (fst ` set (vr_members r))) (sort (hm_keys (vr_members r)))
       \<in> set (vt_actions (fst (commit_downgrade rid t)))"
    "vr_assigned_instance r = Some inst \<Longrightarrow> worker_connection inst t = Some conn \<Longrightarrow> (c, m) \<in> set (vr_members r) \<Longrightarrow>
       \<exists>k. ActionSfu (OutputCommand conn \<lparr>cm_request_id = k, cm_command = Leave \<lparr>lm_room_id = rid, lm_client_id = c,
         lm_lifecycle_id = mb_lifecycle_id m, lm_assignment_epoch = vr_assignment_epoch r, lm_reason = RoomClosed\<rparr>\<rparr>)
         \<in> set (vt_actions (fst (commit_downgrade rid t)))"
proof -
  obtain cs where s: "sort (hm_keys (vr_members r)) = Min (fst ` set (vr_members r)) # cs"
    using sort_head_Min [of "hm_keys (vr_members r)"] ne by auto
  show "map_of (vt_rooms (fst (commit_downgrade rid t))) rid = Some (direct_room r)"
    by (auto simp: commit_downgrade_def r Let_def s leave_all_rooms direct_room_def split: option.split)
  show "Downgraded rid (sat_add (vr_signal_epoch r) 1) (Min (fst ` set (vr_members r))) (sort (hm_keys (vr_members r)))
       \<in> set (vt_actions (fst (commit_downgrade rid t)))"
    by (auto simp: commit_downgrade_def r Let_def s)
  assume "vr_assigned_instance r = Some inst" "worker_connection inst t = Some conn" "(c, m) \<in> set (vr_members r)"
  then show "\<exists>k. ActionSfu (OutputCommand conn \<lparr>cm_request_id = k, cm_command = Leave \<lparr>lm_room_id = rid, lm_client_id = c,
         lm_lifecycle_id = mb_lifecycle_id m, lm_assignment_epoch = vr_assignment_epoch r, lm_reason = RoomClosed\<rparr>\<rparr>)
         \<in> set (vt_actions (fst (commit_downgrade rid t)))"
    using leave_all_leaves [of c "mb_lifecycle_id m" "map (\<lambda>(c, m). (c, mb_lifecycle_id m)) (vr_members r)"]
    by (force simp: commit_downgrade_def r Let_def s)
qed

text \<open>
  C10. When the downgrade deadline of an SFU room has passed, the next sweep takes the room back
  to P2P, provided it has one or two members, no worker expires in that sweep and no join or
  leave of the room is under way: the room has a new signal epoch, no worker and no deadline,
  all queues are empty, the member with the lowest id is the initiator and everything else
  about the members is kept. The browsers are told so with that epoch and initiator, and the
  worker, when connected, gets a leave for each member. The property starts from the armed
  deadline: a room whose deadline an admission has cleared is outside of it, also when the
  worker then rejects the join (\<^verbatim>\<open>failed_join_stays_sfu\<close> in V2_Findings).
\<close>

theorem downgrade_sweep:
  assumes "reachable v2_initial v2_step t" "map_of (vt_rooms t) rid = Some r"
    "vr_mode r = Sfu" "vr_downgrade_deadline r = Some d" "d \<le> now"
    "vr_members r \<noteq> []" "length (vr_members r) \<le> 2" "vr_pending_join r = None" "vr_pending_leave r = None"
    "\<forall>(k, w) \<in> set (vt_workers t). \<not> passed now (wk_disconnect_deadline w)"
    "vr_assigned_instance r = Some inst" "fst (v2_handle_timeout now t) = t'"
  shows "map_of (vt_rooms t') rid = Some (direct_room r) \<and>
    Downgraded rid (sat_add (vr_signal_epoch r) 1) (Min (fst ` set (vr_members r))) (sort (hm_keys (vr_members r)))
      \<in> set (vt_actions t') \<and>
    (\<forall>conn. worker_connection inst t = Some conn \<longrightarrow>
       (\<forall>(c, m) \<in> set (vr_members r). \<exists>k. ActionSfu (OutputCommand conn \<lparr>cm_request_id = k, cm_command =
          Leave \<lparr>lm_room_id = rid, lm_client_id = c, lm_lifecycle_id = mb_lifecycle_id m,
            lm_assignment_epoch = vr_assignment_epoch r, lm_reason = RoomClosed\<rparr>\<rparr>) \<in> set (vt_actions t')))"
proof -
  have inv: "v2_inv t" by (rule v2.inv_reachable [OF assms(1)])
  then have rooms: "hm_ok (vt_rooms t)" by (simp add: v2_inv_def hm_all_def)
  have "filter (\<lambda>(k, w). passed now (wk_disconnect_deadline w)) (vt_workers t) = []"
    using assms(10) by (auto simp: filter_empty_conv)
  then have t': "t' = fst (sweep_rooms now (hm_keys (vt_rooms t)) t)"
    using assms(12) by (simp add: v2_handle_timeout_def)
  have "rid \<in> set (hm_keys (vt_rooms t))" using map_of_SomeD [OF assms(2)] by force
  from sweep_rooms_reach [OF this rooms, of t now] obtain t1 where t1:
    "map_of (vt_rooms t1) rid = Some r" "\<And>inst. worker_connection inst t1 = worker_connection inst t"
    "map_of (vt_rooms t') rid = map_of (vt_rooms (fst (sweep_room now rid t1))) rid"
    "set (vt_actions (fst (sweep_room now rid t1))) \<subseteq> set (vt_actions t')"
    using assms(2) t' by auto
  have "vr_upgrade r = None"
    using v2_invD(1) [OF inv assms(2)] assms(3) by (simp add: room_good_def v2_room_ok_def mode_ok_def)
  then have "sweep_room now rid t1 = (fst (commit_downgrade rid t1), None)"
    using assms(3-9) t1(1) by (simp add: sweep_room_def passed_def is_downgrade_eligible_def MAX_P2P_MEMBERS_def)
  with t1 commit_downgrade_eq [OF t1(1) assms(6)] assms(11) show ?thesis by fastforce
qed

definition sample_small :: v2_table where
  "sample_small = v2_run 6 [V2Remove 9 sample_rid 15 ''tok15'', V2Input (InputCommandResult 9 ''w1''
     \<lparr>cr_request_id = 4, cr_result = Inr (MemberLeft \<lparr>lm_room_id = sample_rid, lm_client_id = 15,
        lm_lifecycle_id = 1, lm_assignment_epoch = 1, lm_reason = User\<rparr>)\<rparr> 6)] sample_sfu"

theorem downgrade_sweep_witness:
  "let t = fst (v2_handle_timeout 2006 sample_small) in
   vr_mode (the (map_of (vt_rooms t) sample_rid)) = P2p \<and> Downgraded sample_rid 2 10 [10, 20] \<in> set (vt_actions t)"
proof -
  let ?r = "the (map_of (vt_rooms sample_small) sample_rid)"
  have s: "map_of (vt_rooms sample_small) sample_rid = Some ?r"
    and r: "vr_mode ?r = Sfu" "vr_downgrade_deadline ?r = Some 2006"
      "vr_signal_epoch ?r = 1 \<and> Min (fst ` set (vr_members ?r)) = 10 \<and> sort (hm_keys (vr_members ?r)) = [10, 20]"
      "vr_members ?r \<noteq> []" "length (vr_members ?r) \<le> 2" "vr_pending_join ?r = None" "vr_pending_leave ?r = None"
      "\<forall>(k, w) \<in> set (vt_workers sample_small). \<not> passed 2006 (wk_disconnect_deadline w)"
      "vr_assigned_instance ?r = Some ''w1''"
    by code_simp+
  have "reachable v2_initial v2_step sample_small"
    unfolding sample_small_def by (rule v2_reachable_run [OF sample_reachable(4)])
  from downgrade_sweep [OF this s r(1,2) order_refl r(4-9) refl] r(3) show ?thesis
    by (simp add: Let_def direct_room_def sat_add_def)
qed

end
