(* ===== verification/V2_Delivery.thy ===== *)
theory V2_Delivery
  imports V2_Frame
begin

text \<open>
  At-most-once delivery between the authority and its workers: a command result is applied
  once, a worker event is applied once while its id is among the last 4096 of that worker, and
  what a worker left unacknowledged is sent again when it comes back.
\<close>

section \<open>Results are applied once\<close>

definition spent :: "request_id \<Rightarrow> v2_table \<Rightarrow> bool" where
  "spent req t \<longleftrightarrow> req < vt_next_sfu_request_id t \<and> \<not> hm_contains (vt_pending_commands t) req"

interpretation spent: frame_rule "spent req" for req
proof
  show "spent req (issue_command inst conn kind p t)" if "spent req t" for inst conn kind p t
    using that next_id_ge [of "vt_next_sfu_request_id t"] unfolding spent_def by (auto intro: order.strict_trans2)
qed (auto simp: spent_def)

lemma spent_step:
  assumes "v2_step t t'" "spent req t"
  shows "spent req t'"
  using assms(1)
proof cases
  case (exec now op)
  consider (event) c i e where "op = V2Input (InputEvent c i e)" | (poll) "op = V2PollAction"
    | (clear) "op = V2Clear" | (other) "\<And>c i e. op \<noteq> V2Input (InputEvent c i e)" "op \<noteq> V2PollAction" "op \<noteq> V2Clear"
    by blast
  then have "spent req (fst (v2_exec now op t))"
  proof cases
    case event
    have "spent req (put_worker i w t)" for i w using assms(2) by (simp add: spent_def)
    with event show ?thesis by (simp add: handle_sfu_input_def spent.handle_worker_event [OF assms(2)])
  next
    case poll
    then show ?thesis using assms(2) by (simp add: v2_poll_action_def spent_def split: list.split)
  next
    case clear
    then show ?thesis using assms(2) by (simp add: v2_clear_def spent_def)
  qed (simp add: spent.exec assms(2))
  then show ?thesis by (simp add: exec)
next
  case rehash
  then show ?thesis using assms(2) unfolding spent_def v2_perm_def hm_perm_def by metis
qed

lemma spent_steps: "v2_step\<^sup>*\<^sup>* t t' \<Longrightarrow> spent req t \<Longrightarrow> spent req t'"
  by (induction rule: rtranclp_induct) (simp_all add: spent_step)

text \<open>
  C11. A command result takes effect at most once: once the result of an outstanding command
  has been handled, another result under the same request id changes nothing, whatever
  happened in between, from whichever worker and over whichever connection it comes. Only
  when the request counter has saturated are ids used twice.
\<close>

theorem v2_results_once:
  assumes "reachable v2_initial v2_step t" "worker_connection inst t = Some conn"
    "hm_contains (vt_pending_commands t) (cr_request_id result)" "vt_next_sfu_request_id t \<noteq> - 1"
    "v2_step\<^sup>*\<^sup>* (fst (handle_sfu_input (InputCommandResult conn inst result now) t)) t'"
    "cr_request_id result' = cr_request_id result"
  shows "fst (handle_sfu_input (InputCommandResult conn' inst' result' now') t') = t' \<and>
    (worker_connection inst' t' = Some conn' \<longrightarrow>
       snd (handle_sfu_input (InputCommandResult conn' inst' result' now') t') = Ok ())"
proof -
  have "cmds_ok t" using v2.inv_reachable [OF assms(1)] by (simp add: v2_inv_def)
  then have "spent (cr_request_id result) (forget_command (cr_request_id result) t)"
    using assms(3,4) by (auto simp: cmds_ok_def spent_def)
  then have "spent (cr_request_id result) (fst (handle_command_result conn inst result now t))"
    using spent.applied_result assms(2,3) by blast
  then have "\<not> hm_contains (vt_pending_commands t') (cr_request_id result')"
    using spent_steps [OF assms(5)] by (simp add: handle_sfu_input_def spent_def assms(6))
  then show ?thesis
    by (simp add: handle_sfu_input_def handle_command_result_def worker_connection_def split: option.split)
qed

definition sample_result :: "member_id \<Rightarrow> u64 \<Rightarrow> u64 \<Rightarrow> request_id \<Rightarrow> command_result" where
  "sample_result cid lifecycle epoch req =
     \<lparr>cr_request_id = req, cr_result = Inr (MemberJoined \<lparr>jm_room_id = sample_rid, jm_client_id = cid,
        jm_lifecycle_id = lifecycle, jm_assignment_epoch = epoch\<rparr>)\<rparr>"

theorem v2_results_once_witness:
  "fst (v2_exec 7 (sample_ack 10 2 1 1) (v2_run 6 [sample_ack 10 2 1 1, sample_ack 20 2 1 2] sample_upgrading)) =
    v2_run 6 [sample_ack 10 2 1 1, sample_ack 20 2 1 2] sample_upgrading"
proof -
  have s: "worker_connection ''w1'' sample_upgrading = Some 9"
    "hm_contains (vt_pending_commands sample_upgrading) 1 \<and> vt_next_sfu_request_id sample_upgrading = 2"
    by code_simp+
  have "v2_step\<^sup>*\<^sup>* (fst (v2_exec 6 (sample_ack 10 2 1 1) sample_upgrading))
      (v2_run 6 [sample_ack 10 2 1 1, sample_ack 20 2 1 2] sample_upgrading)"
    by (simp add: v2_run_def r_into_rtranclp v2_step.exec)
  then have "v2_step\<^sup>*\<^sup>* (fst (handle_sfu_input (InputCommandResult 9 ''w1'' (sample_result 10 2 1 1) 6) sample_upgrading))
      (v2_run 6 [sample_ack 10 2 1 1, sample_ack 20 2 1 2] sample_upgrading)"
    by (simp add: sample_ack_def sample_result_def)
  note once = v2_results_once [OF sample_reachable(3) s(1) _ _ this refl]
  show ?thesis
    using once [where inst' = "''w1''" and conn' = 9 and now' = 6] s(2) by (simp add: sample_ack_def sample_result_def)
qed

section \<open>Events are applied once\<close>

text \<open>Nothing but an event changes what a worker's entry remembers of its events.\<close>

definition newest :: "instance_id \<Rightarrow> u64 \<Rightarrow> nat \<Rightarrow> v2_table \<Rightarrow> bool" where
  "newest inst x n t \<longleftrightarrow> (\<exists>before after. seen_order inst t = before @ x # after \<and> length after \<le> n)"

lemma seen_order_frame [simp]:
  "seen_order inst (push_action a t) = seen_order inst t" "seen_order inst (put_room rid r t) = seen_order inst t"
  "seen_order inst (drop_room rid t) = seen_order inst t" "seen_order inst (forget_command req t) = seen_order inst t"
  "seen_order inst (issue_command i conn kind p t) = seen_order inst t"
  "seen_order inst (put_worker i w t) = (if i = inst then wk_seen_event_order w else seen_order inst t)"
  by (simp_all add: seen_order_def)

interpretation newest: frame_rule "newest inst x n" for inst x n
  by unfold_locales (auto simp: newest_def seen_order_def)

lemma remember_order:
  "wk_seen_event_order (remember_event y w) =
    (if length (wk_seen_event_order w) < EVENT_DEDUP_CAPACITY then wk_seen_event_order w @ [y]
     else tl (wk_seen_event_order w @ [y]))"
  by (auto simp: remember_event_def Let_def split: list.split)

lemma newest_remembered:
  assumes "worker_ok w" "map_of (vt_workers t) inst = Some w" "newest inst x n t" "n < 4095"
  shows "newest inst x (Suc n) (put_worker inst (remember_event y w) t)"
proof -
  obtain before "after" where o: "wk_seen_event_order w = before @ x # after" "length after \<le> n"
    using assms(2,3) by (auto simp: newest_def seen_order_def)
  have "length (wk_seen_event_order w) \<le> 4096" using assms(1) by (simp add: worker_ok_def EVENT_DEDUP_CAPACITY_def)
  then have "\<exists>before'. wk_seen_event_order (remember_event y w) = before' @ x # (after @ [y])"
    using o assms(4) by (cases before) (auto simp: remember_order EVENT_DEDUP_CAPACITY_def)
  with o(2) show ?thesis by (fastforce simp: newest_def)
qed

definition event_from :: "instance_id \<Rightarrow> v2_op \<Rightarrow> nat" where
  "event_from inst op = (case op of V2Input (InputEvent c i e) \<Rightarrow> if i = inst then 1 else 0 | _ \<Rightarrow> 0)"

text \<open>Any operations but a clear, with a given number of events from one worker among them.\<close>

inductive event_steps :: "instance_id \<Rightarrow> nat \<Rightarrow> v2_table \<Rightarrow> v2_table \<Rightarrow> bool" for inst where
  none: "event_steps inst 0 t t"
| exec: "event_steps inst n t t' \<Longrightarrow> op \<noteq> V2Clear \<Longrightarrow>
    event_steps inst (n + event_from inst op) t (fst (v2_exec now op t'))"
| rehash: "event_steps inst n t t' \<Longrightarrow> v2_perm t' t'' \<Longrightarrow> event_steps inst n t t''"

lemma newest_exec:
  assumes t: "v2_inv t" and new: "newest inst x n t" and n: "n + event_from inst op < 4096" and op: "op \<noteq> V2Clear"
  shows "newest inst x (n + event_from inst op) (fst (v2_exec now op t))"
proof -
  consider (event) c i e where "op = V2Input (InputEvent c i e)" | (poll) "op = V2PollAction"
    | (other) "\<And>c i e. op \<noteq> V2Input (InputEvent c i e)" "op \<noteq> V2PollAction"
    by blast
  then show ?thesis
  proof cases
    case event
    have mono: "newest inst x (n + event_from inst op) t"
      using new by (fastforce simp: newest_def)
    have "newest inst x (n + event_from inst op) (put_worker i (remember_event (ev_request_id e) w) t)"
      if "map_of (vt_workers t) i = Some w" for w
      using newest_remembered [OF v2_invD(2) [OF t that]] that new mono n
      by (cases "i = inst") (auto simp: event event_from_def newest_def)
    then show ?thesis
      using newest.handle_worker_event [OF mono] by (simp add: event handle_sfu_input_def)
  next
    case poll
    then show ?thesis using new by (simp add: v2_poll_action_def newest_def seen_order_def event_from_def split: list.split)
  next
    case other
    then have "event_from inst op = 0" by (auto simp: event_from_def split: v2_op.split sfu_input.split)
    with newest.exec [OF new other op] show ?thesis by simp
  qed
qed

lemma newest_perm: "v2_perm t t' \<Longrightarrow> newest inst x n t \<Longrightarrow> newest inst x n t'"
proof -
  assume p: "v2_perm t t'" and new: "newest inst x n t"
  have "rel_option worker_perm (map_of (vt_workers t) inst) (map_of (vt_workers t') inst)"
    using p unfolding v2_perm_def by blast
  then have "seen_order inst t' = seen_order inst t"
    by (cases "map_of (vt_workers t) inst"; cases "map_of (vt_workers t') inst")
      (auto simp: seen_order_def worker_perm_def, metis worker.select_convs(7) worker.surjective worker.update_convs(4,6))
  with new show ?thesis by (simp add: newest_def)
qed

lemma newest_steps:
  assumes "event_steps inst n t t'" "v2_inv t" "newest inst x 0 t" "n < 4096"
  shows "v2_inv t' \<and> newest inst x n t'"
  using assms
proof (induction rule: event_steps.induct)
  case (exec n t t' op now)
  then have "v2_inv t' \<and> newest inst x n t'" by simp
  then show ?case using newest_exec [of t' inst x n op now] exec v2_exec_inv by blast
next
  case (rehash n t t' t'')
  then show ?case using v2_inv_perm newest_perm by blast
qed simp

text \<open>
  C12. A worker event takes effect at most once while it is among the last 4096 events of its
  worker: after an event with a fresh, non-zero id was handled on the worker's connection,
  however that ended, and with at most 4095 further events of that worker and any other
  operations or rehashes in between, except a clear of the whole table (\<^verbatim>\<open>RoomTable::clear\<close>
  forgets the workers and their event ids), the same event sent again is acknowledged on the
  worker's current connection and changes nothing else.
\<close>

theorem v2_events_once:
  assumes "reachable v2_initial v2_step t" "worker_connection inst t = Some conn"
    "ev_request_id event \<noteq> 0" "ev_request_id event \<notin> set (seen_order inst t)"
    "event_steps inst n (fst (handle_sfu_input (InputEvent conn inst event) t)) t'" "n < 4096"
    "worker_connection inst t' = Some conn'" "ev_request_id event' = ev_request_id event"
  shows "handle_sfu_input (InputEvent conn' inst event') t' =
    (push_action (ActionSfu (OutputEventAck conn' (ev_request_id event))) t', Ok ())"
proof -
  note t = v2.inv_reachable [OF assms(1)]
  let ?x = "ev_request_id event"
  obtain w where w: "map_of (vt_workers t) inst = Some w" "wk_connection_id w = Some conn"
    using assms(2) by (auto simp: worker_connection_def split: option.splits)
  note ok = v2_invD(2) [OF t w(1)]
  have x: "?x \<notin> set (wk_seen_events w)" using assms(4) w ok by (simp add: seen_order_def worker_ok_def)
  have last: "newest inst ?x 0 t1" if "seen_order inst t1 = wk_seen_event_order (remember_event ?x w)" for t1
    using that by (auto simp: newest_def remember_order EVENT_DEDUP_CAPACITY_def tl_append split: list.split)
  have "newest inst ?x 0 (fst (handle_sfu_input (InputEvent conn inst event) t))"
    using newest.applied_event [OF last w assms(3) x] by (simp add: handle_sfu_input_def)
  then have "?x \<in> set (seen_order inst t') \<and> v2_inv t'"
    using newest_steps [OF assms(5) _ _ assms(6)] handle_sfu_input_inv [OF t] by (auto simp: newest_def)
  then show ?thesis
    using assms(3,7,8) v2_invD(2) [of t' inst]
    by (auto simp: handle_sfu_input_def handle_worker_event_def seen_order_def worker_ok_def worker_connection_def
        Let_def split: option.splits)
qed

definition sample_event :: sfu_event where
  "sample_event = \<lparr>ev_request_id = 2, ev_event = EventHealth sample_health\<rparr>"

definition sample_later :: v2_table where
  "sample_later = fst (v2_exec 7 (V2Admit 3 sample_rid 15 ''tok15'')
     (fst (handle_sfu_input (InputEvent 9 ''w1'' sample_event) sample_pair)))"

theorem v2_events_once_witness:
  "handle_sfu_input (InputEvent 9 ''w1'' sample_event) sample_later =
    (push_action (ActionSfu (OutputEventAck 9 2)) sample_later, Ok ())"
proof -
  have s: "worker_connection ''w1'' sample_pair = Some 9" "seen_order ''w1'' sample_pair = [1]"
    "worker_connection ''w1'' sample_later = Some 9"
    by code_simp+
  have "event_steps ''w1'' 0 (fst (handle_sfu_input (InputEvent 9 ''w1'' sample_event) sample_pair)) sample_later"
    using event_steps.exec [OF event_steps.none, where op = "V2Admit 3 sample_rid 15 ''tok15''"]
    by (simp add: event_from_def sample_later_def)
  from v2_events_once [OF sample_reachable(2) s(1) _ _ this _ s(3) refl] s(2) show ?thesis
    by (simp add: sample_event_def)
qed

text \<open>
  C32. The memory of worker events is bounded: in a reachable table each worker has at most
  4096 remembered ids, none twice, the set that is consulted and the queue that decides which
  id goes hold the same ids.
\<close>

theorem v2_dedup_bounds:
  assumes "reachable v2_initial v2_step t" "map_of (vt_workers t) inst = Some w"
  shows "length (wk_seen_events w) \<le> 4096 \<and> length (wk_seen_event_order w) \<le> 4096 \<and>
    distinct (wk_seen_event_order w) \<and> set (wk_seen_events w) = set (wk_seen_event_order w)"
proof -
  have "worker_ok w" by (rule v2_invD(2) [OF v2.inv_reachable [OF assms(1)] assms(2)])
  then have w: "distinct (wk_seen_events w)" "distinct (wk_seen_event_order w)"
      "set (wk_seen_events w) = set (wk_seen_event_order w)" "length (wk_seen_event_order w) \<le> 4096"
    by (simp_all add: worker_ok_def EVENT_DEDUP_CAPACITY_def)
  from this(1-3) have "length (wk_seen_events w) = length (wk_seen_event_order w)"
    by (metis distinct_card)
  with w show ?thesis by simp
qed

theorem v2_dedup_bounds_witness:
  "length (wk_seen_events (the (map_of (vt_workers sample_pair) ''w1''))) \<le> 4096"
proof -
  have "map_of (vt_workers sample_pair) ''w1'' \<noteq> None" by code_simp
  then show ?thesis using v2_dedup_bounds [OF sample_reachable(2)] by auto
qed

end
