(* ===== verification/V2_Resync.thy ===== *)
theory V2_Resync
  imports V2_Epochs
begin

text \<open>
  A worker that registers again is brought up to date: each of its rooms is synchronised, and
  once a synchronisation is acknowledged the commands it had left unacknowledged for that room
  are sent again.
\<close>

section \<open>Outstanding commands\<close>

definition outstanding :: "instance_id \<Rightarrow> uuid \<Rightarrow> v2_table \<Rightarrow> sfu_command set" where
  "outstanding inst rid t =
     {c. \<exists>k. map_of (vt_unacknowledged_commands t) k = Some c \<and> map_of (vt_command_workers t) k = Some inst \<and>
        \<not> is_sync (map_of (vt_pending_commands t) k) \<and> command_room_id c = Some rid}"

lemma replay_outstanding:
  assumes "hm_ok (vt_command_workers t)"
  shows "set (replay_for inst rid t) = outstanding inst rid t"
  using map_of_eq_Some_iff [OF assms]
  by (force simp: replay_for_def outstanding_def map_filter_def)

lemma outstanding_cong:
  "map_of (vt_unacknowledged_commands t) = map_of (vt_unacknowledged_commands t') \<Longrightarrow>
   map_of (vt_command_workers t) = map_of (vt_command_workers t') \<Longrightarrow>
   map_of (vt_pending_commands t) = map_of (vt_pending_commands t') \<Longrightarrow> outstanding inst rid t = outstanding inst rid t'"
  by (simp add: outstanding_def)

lemma outstanding_forget_sync:
  assumes "is_sync (map_of (vt_pending_commands t) k)"
  shows "outstanding inst rid (forget_command k t) = outstanding inst rid t"
  using assms by (auto simp: outstanding_def)

lemma outstanding_forget_syncs:
  assumes "\<And>k. k \<in> set reqs \<Longrightarrow> is_sync (map_of (vt_pending_commands t) k)" "distinct reqs"
  shows "outstanding inst rid (fold forget_command reqs t) = outstanding inst rid t"
  using assms
proof (induction reqs arbitrary: t)
  case (Cons k reqs)
  have "outstanding inst rid (fold forget_command reqs (forget_command k t)) = outstanding inst rid (forget_command k t)"
    using Cons.prems by (intro Cons.IH) auto
  then show ?case using Cons.prems by (simp add: outstanding_forget_sync)
qed simp

lemma outstanding_issue_sync:
  assumes "cmds_ok t" "vt_next_sfu_request_id t \<noteq> - 1" "is_sync (Some p)"
  shows "outstanding inst' rid' (issue_command inst conn kind p t) = outstanding inst' rid' t"
proof -
  have "\<not> hm_contains (vt_pending_commands t) (vt_next_sfu_request_id t)"
    using assms(1,2) unfolding cmds_ok_def by (metis order_less_irrefl)
  then have "map_of (vt_command_workers t) (vt_next_sfu_request_id t) = None"
    using assms(1) unfolding cmds_ok_def by (metis not_None_eq)
  with assms(3) show ?thesis
    unfolding outstanding_def by (intro Collect_cong ex_cong1) auto
qed

section \<open>Synchronisation\<close>

definition sync_of :: "uuid \<Rightarrow> v2_room \<Rightarrow> command_kind" where
  "sync_of rid r = SyncRoom
     \<lparr>sy_room_id = rid, sy_assignment_epoch = vr_assignment_epoch r,
      sy_members = map (\<lambda>(c, m). \<lparr>mp_client_id = c, mp_lifecycle_id = mb_lifecycle_id m\<rparr>) (vr_members r)\<rparr>"

definition sync_step :: "instance_id \<Rightarrow> connection_id \<Rightarrow> uuid \<Rightarrow> v2_room \<Rightarrow> v2_table \<Rightarrow> v2_table" where
  "sync_step inst conn rid r t =
     issue_command inst conn (sync_of rid r) (PendingSyncRoom inst rid (vr_assignment_epoch r) (replay_for inst rid t)) t"

lemma sync_rooms_step:
  "sync_rooms inst conn (rid # rids) t =
    (case map_of (vt_rooms t) rid of None \<Rightarrow> sync_rooms inst conn rids t
     | Some r \<Rightarrow> sync_rooms inst conn rids (sync_step inst conn rid r t))"
  by (simp add: sync_step_def sync_of_def split: option.split)

lemma sync_step_sel [simp]:
  "vt_rooms (sync_step inst conn rid r t) = vt_rooms t" "vt_workers (sync_step inst conn rid r t) = vt_workers t"
  "vt_next_sfu_request_id t \<le> vt_next_sfu_request_id (sync_step inst conn rid r t)"
  "cmds_ok t \<Longrightarrow> cmds_ok (sync_step inst conn rid r t)"
  using next_id_ge [of "vt_next_sfu_request_id t"] by (simp_all add: sync_step_def del: max_def)

lemma sync_rooms_mono:
  "vt_next_sfu_request_id t \<le> vt_next_sfu_request_id (sync_rooms inst conn rids t)"
  "vt_workers (sync_rooms inst conn rids t) = vt_workers t"
  "vt_rooms (sync_rooms inst conn rids t) = vt_rooms t"
proof (induction rids arbitrary: t)
  case (Cons rid rids)
  { case 1 then show ?case using Cons.IH(1)
      by (auto simp: sync_rooms_step simp del: sync_rooms.simps split: option.split intro: order_trans [OF sync_step_sel(3)]) }
  { case 2 then show ?case by (simp add: Cons.IH(2) sync_rooms_step del: sync_rooms.simps split: option.split) }
  { case 3 then show ?case by (simp add: Cons.IH(3) sync_rooms_step del: sync_rooms.simps split: option.split) }
qed simp_all

lemma not_saturated:
  "vt_next_sfu_request_id (sync_rooms inst conn rids t) \<noteq> - 1 \<Longrightarrow> vt_next_sfu_request_id t \<noteq> - 1"
  using sync_rooms_mono(1) [of t inst conn rids] by (metis max_word_max order_antisym)

definition synced :: "instance_id \<Rightarrow> connection_id \<Rightarrow> uuid \<Rightarrow> v2_room \<Rightarrow> sfu_command set \<Rightarrow> v2_table \<Rightarrow> bool" where
  "synced inst conn rid r cs t \<longleftrightarrow> (\<exists>k replay.
     k < vt_next_sfu_request_id t \<and> set replay = cs \<and>
     map_of (vt_pending_commands t) k = Some (PendingSyncRoom inst rid (vr_assignment_epoch r) replay) \<and>
     ActionSfu (OutputCommand conn \<lparr>cm_request_id = k, cm_command = sync_of rid r\<rparr>) \<in> set (vt_actions t))"

lemma sync_step_synced:
  assumes "cmds_ok t" "vt_next_sfu_request_id t \<noteq> - 1"
  shows "synced inst conn rid r (outstanding inst rid t) (sync_step inst conn rid r t)"
    "outstanding inst rid' (sync_step inst conn rid r t) = outstanding inst rid' t"
    "synced inst' conn' rid' r' cs t \<Longrightarrow> synced inst' conn' rid' r' cs (sync_step inst conn rid r t)"
proof -
  let ?n = "vt_next_sfu_request_id t"
  have n: "?n < max (sat_add ?n 1) 1"
    using assms next_id_bound [of ?n] unfolding cmds_ok_def
    by (metis sat_add_one_gt less_max_iff_disj word_order.not_eq_extremum)
  have "hm_ok (vt_command_workers t)" using assms(1) by (simp add: cmds_ok_def)
  note replay = replay_outstanding [OF this]
  show "synced inst conn rid r (outstanding inst rid t) (sync_step inst conn rid r t)"
    unfolding synced_def by (rule exI [of _ ?n]) (use n in \<open>simp add: sync_step_def replay del: max_def\<close>)
  show "outstanding inst rid' (sync_step inst conn rid r t) = outstanding inst rid' t"
    unfolding sync_step_def by (rule outstanding_issue_sync [OF assms]) (simp add: is_sync_def)
  show "synced inst' conn' rid' r' cs (sync_step inst conn rid r t)" if old: "synced inst' conn' rid' r' cs t"
  proof -
    obtain k replay where k: "k < ?n" "set replay = cs"
      "map_of (vt_pending_commands t) k = Some (PendingSyncRoom inst' rid' (vr_assignment_epoch r') replay)"
      "ActionSfu (OutputCommand conn' \<lparr>cm_request_id = k, cm_command = sync_of rid' r'\<rparr>) \<in> set (vt_actions t)"
      using old unfolding synced_def by blast
    with n show ?thesis
      unfolding synced_def by (intro exI [of _ k] exI [of _ replay]) (auto simp: sync_step_def simp del: max_def)
  qed
qed

lemma sync_rooms_kept:
  assumes "synced inst' conn' rid' r' cs t" "cmds_ok t" "vt_next_sfu_request_id (sync_rooms inst conn rids t) \<noteq> - 1"
  shows "synced inst' conn' rid' r' cs (sync_rooms inst conn rids t)"
  using assms
proof (induction rids arbitrary: t)
  case (Cons rid rids)
  have n: "vt_next_sfu_request_id t \<noteq> - 1" using not_saturated Cons.prems(3) by blast
  show ?case
  proof (cases "map_of (vt_rooms t) rid")
    case None
    with Cons show ?thesis by simp
  next
    case (Some r)
    then have "sync_rooms inst conn (rid # rids) t = sync_rooms inst conn rids (sync_step inst conn rid r t)"
      by (simp only: sync_rooms_step option.case)
    with Cons.IH sync_step_synced(3) [OF Cons.prems(2) n Cons.prems(1)] Cons.prems(2,3) show ?thesis by simp
  qed
qed simp

lemma sync_rooms_synced:
  assumes "cmds_ok t" "vt_next_sfu_request_id (sync_rooms inst conn rids t) \<noteq> - 1"
    "rid \<in> set rids" "map_of (vt_rooms t) rid = Some r"
  shows "synced inst conn rid r (outstanding inst rid t) (sync_rooms inst conn rids t)"
  using assms
proof (induction rids arbitrary: t)
  case (Cons rid' rids)
  have n: "vt_next_sfu_request_id t \<noteq> - 1" using not_saturated Cons.prems(2) by blast
  show ?case
  proof (cases "map_of (vt_rooms t) rid'")
    case None
    with Cons show ?thesis by auto
  next
    case (Some r')
    let ?t = "sync_step inst conn rid' r' t"
    note step = sync_step_synced [OF Cons.prems(1) n]
    have t: "sync_rooms inst conn (rid' # rids) t = sync_rooms inst conn rids ?t"
      using Some by (simp only: sync_rooms_step option.case)
    have m: "cmds_ok ?t" "vt_next_sfu_request_id (sync_rooms inst conn rids ?t) \<noteq> - 1"
      using Cons.prems unfolding t by simp_all
    show ?thesis
      unfolding t using Cons.IH [OF m] sync_rooms_kept [OF step(1) m] Cons.prems(3,4) Some step(2)
      by (cases "rid' = rid") auto
  qed
qed simp

section \<open>The return of a worker\<close>

lemma register_known_worker:
  assumes "v2_inv t" "map_of (vt_workers t) inst = Some w"
    "inst \<noteq> []" "req \<noteq> 0" "max_rooms cap \<noteq> 0" "max_clients cap \<noteq> 0"
  shows "\<exists>t'. fst (register_worker conn inst req cap t) = sync_rooms inst conn (sort (wk_assigned_rooms w)) t' \<and>
    cmds_ok t' \<and> vt_rooms t' = vt_rooms t \<and> worker_connection inst t' = Some conn \<and>
    (\<forall>rid. outstanding inst rid t' = outstanding inst rid t)"
proof -
  let ?w = "w\<lparr>wk_connection_id := Some conn, wk_capacity := cap, wk_health := None, wk_disconnect_deadline := None\<rparr>"
  define as where "as = vt_actions t @ (case worker_connection inst t of
      Some old \<Rightarrow> if old \<noteq> conn then [ActionSfu (OutputClose old)] else [] | None \<Rightarrow> []) @
    [ActionSfu (OutputRegistered conn req HEALTH_INTERVAL_MS True)]"
  have as: "fst (register_worker conn inst req cap t) =
      sync_rooms inst conn (sort (wk_assigned_rooms w))
        (fold forget_command (map fst (filter (\<lambda>(r, p). is_sync_for inst p) (vt_pending_commands t)))
          (put_worker inst ?w t\<lparr>vt_actions := as\<rparr>))"
    using assms(2-6) by (cases "worker_connection inst t")
      (simp_all add: as_def register_worker_def Let_def push_action_def put_worker_def)
  let ?old = "map fst (filter (\<lambda>(r, p). is_sync_for inst p) (vt_pending_commands t))"
  let ?t = "put_worker inst ?w t\<lparr>vt_actions := as\<rparr>"
  have c: "cmds_ok t" using assms(1) by (simp add: v2_inv_def)
  then have ok: "hm_ok (vt_pending_commands t)" by (simp add: cmds_ok_def)
  have sync: "is_sync (map_of (vt_pending_commands ?t) k)" if "k \<in> set ?old" for k
    using that map_of_is_SomeI [OF ok] by (auto simp: is_sync_def is_sync_for_def split: pending_command.splits)
  have old: "distinct ?old" using ok by (simp add: distinct_map_filter)
  have "cmds_ok ?t" using c by (simp add: cmds_ok_def)
  moreover have "outstanding inst rid (fold forget_command ?old ?t) = outstanding inst rid t" for rid
    using outstanding_forget_syncs [OF sync old] by (simp add: outstanding_def)
  moreover have "vt_workers (fold forget_command reqs t') = vt_workers t'" for reqs t'
    by (induction reqs arbitrary: t') auto
  ultimately show ?thesis
    by (intro exI [of _ "fold forget_command ?old ?t"])
      (simp add: as worker_connection_def put_worker_def)
qed

text \<open>
  C13. A worker that registers again gets back what it may have missed. For every room assigned
  to it the authority sends a synchronisation with the room's current members on the new
  connection, and when the worker acknowledges it, exactly the commands for that room which
  the worker had left unacknowledged when it came back are sent again, in some order, with
  nothing else changed in the rooms; as long as the request counter has not saturated.
\<close>

theorem worker_resync:
  assumes "reachable v2_initial v2_step t" "map_of (vt_workers t) inst = Some w"
    "rid \<in> set (wk_assigned_rooms w)" "map_of (vt_rooms t) rid = Some r"
    "inst \<noteq> []" "req \<noteq> 0" "max_rooms cap \<noteq> 0" "max_clients cap \<noteq> 0"
    "fst (handle_sfu_input (InputRegister conn inst req cap) t) = t1" "vt_next_sfu_request_id t1 \<noteq> - 1"
  shows "\<exists>k replay t2. set replay = outstanding inst rid t \<and>
    ActionSfu (OutputCommand conn \<lparr>cm_request_id = k, cm_command = sync_of rid r\<rparr>) \<in> set (vt_actions t1) \<and>
    handle_sfu_input (InputCommandResult conn inst \<lparr>cr_request_id = k, cr_result = Inr (RoomSynced
      \<lparr>rs_room_id = rid, rs_assignment_epoch = vr_assignment_epoch r\<rparr>)\<rparr> now) t1 = (t2, Ok ()) \<and>
    vt_actions t2 = vt_actions t1 @ map (\<lambda>c. ActionSfu (OutputCommand conn c)) replay \<and>
    vt_rooms t2 = vt_rooms t"
proof -
  obtain t' where t': "t1 = sync_rooms inst conn (sort (wk_assigned_rooms w)) t'" "cmds_ok t'"
      "vt_rooms t' = vt_rooms t" "worker_connection inst t' = Some conn" "outstanding inst rid t' = outstanding inst rid t"
    using register_known_worker [OF v2.inv_reachable [OF assms(1)] assms(2,5-8), of conn] assms(9)
    by (auto simp: handle_sfu_input_def)
  have "synced inst conn rid r (outstanding inst rid t) t1"
    using sync_rooms_synced [OF t'(2), of inst conn "sort (wk_assigned_rooms w)" rid r] assms(3,4,10) t' by simp
  then obtain k replay where k: "set replay = outstanding inst rid t"
      "map_of (vt_pending_commands t1) k = Some (PendingSyncRoom inst rid (vr_assignment_epoch r) replay)"
      "ActionSfu (OutputCommand conn \<lparr>cm_request_id = k, cm_command = sync_of rid r\<rparr>) \<in> set (vt_actions t1)"
    by (auto simp: synced_def)
  have push: "vt_actions (fold (\<lambda>c. push_action (f c)) cs t2) = vt_actions t2 @ map f cs" for f cs t2
    by (induction cs arbitrary: t2) simp_all
  have "worker_connection inst t1 = Some conn" "vt_rooms t1 = vt_rooms t"
    using t' by (simp_all add: worker_connection_def sync_rooms_mono)
  with k show ?thesis
    by (intro exI [of _ k] exI [of _ replay]
        exI [of _ "fold (\<lambda>c. push_action (ActionSfu (OutputCommand conn c))) replay (forget_command k t1)"])
      (auto simp: handle_sfu_input_def handle_command_result_def worker_connection_def Let_def
        sync_acknowledged_def push push_actions_rooms split: option.splits)
qed

definition sample_back :: v2_table where
  "sample_back = fst (handle_sfu_input (InputRegister 11 ''w1'' 4 sample_cap) sample_upgrading)"

theorem worker_resync_witness:
  "\<exists>k c t2. handle_sfu_input (InputCommandResult 11 ''w1'' \<lparr>cr_request_id = k, cr_result = Inr (RoomSynced
      \<lparr>rs_room_id = sample_rid, rs_assignment_epoch = 1\<rparr>)\<rparr> 7) sample_back = (t2, Ok ()) \<and>
    vt_unacknowledged_commands sample_upgrading = [(1, c)] \<and>
    ActionSfu (OutputCommand 11 c) \<in> set (drop (length (vt_actions sample_back)) (vt_actions t2))"
proof -
  let ?w = "the (map_of (vt_workers sample_upgrading) ''w1'')"
  let ?r = "the (map_of (vt_rooms sample_upgrading) sample_rid)"
  obtain c where c: "vt_unacknowledged_commands sample_upgrading = [(1, c)]" "replay_for ''w1'' sample_rid sample_upgrading = [c]"
  proof -
    have "map fst (vt_unacknowledged_commands sample_upgrading) = [1] \<and>
      replay_for ''w1'' sample_rid sample_upgrading = map snd (vt_unacknowledged_commands sample_upgrading)" by code_simp
    then show thesis by (cases "vt_unacknowledged_commands sample_upgrading") (auto intro: that)
  qed
  have s: "map_of (vt_workers sample_upgrading) ''w1'' = Some ?w" "sample_rid \<in> set (wk_assigned_rooms ?w)"
    "map_of (vt_rooms sample_upgrading) sample_rid = Some ?r" "vr_assignment_epoch ?r = 1"
    "vt_next_sfu_request_id sample_back = 3" "max_rooms sample_cap = 4" "max_clients sample_cap = 12"
    by code_simp+
  have "hm_ok (vt_command_workers sample_upgrading)" using sample_inv(3) by (simp add: v2_inv_def cmds_ok_def)
  then have "outstanding ''w1'' sample_rid sample_upgrading = {c}" using c(2) by (simp add: replay_outstanding [symmetric])
  with worker_resync [OF sample_reachable(3) s(1-3) _ _ _ _ sample_back_def [symmetric], where now = 7] s(4-7)
  obtain k replay t2 where r: "set replay = {c}"
      "handle_sfu_input (InputCommandResult 11 ''w1'' \<lparr>cr_request_id = k, cr_result = Inr (RoomSynced
        \<lparr>rs_room_id = sample_rid, rs_assignment_epoch = 1\<rparr>)\<rparr> 7) sample_back = (t2, Ok ())"
      "vt_actions t2 = vt_actions sample_back @ map (\<lambda>c. ActionSfu (OutputCommand 11 c)) replay"
    by auto
  then have "ActionSfu (OutputCommand 11 c) \<in> set (drop (length (vt_actions sample_back)) (vt_actions t2))" by simp
  with r(2) c(1) show ?thesis by blast
qed

end
