(* ===== verification/V2_Registrations.thy ===== *)
theory V2_Registrations
  imports V2_Epochs
begin

text \<open>
  Which V2 members are registered: of all operations of the authority only a registration
  with the right token makes a member registered.
\<close>

section \<open>Registered members\<close>

definition member_registered :: "v2_room \<Rightarrow> member_id \<Rightarrow> bool" where
  "member_registered r k = (case map_of (vr_members r) k of None \<Rightarrow> False | Some m \<Rightarrow> mb_registered m)"

definition v2_registered :: "v2_table \<Rightarrow> uuid \<Rightarrow> member_id \<Rightarrow> bool" where
  "v2_registered t rid k =
     (case map_of (vt_rooms t) rid of None \<Rightarrow> False | Some r \<Rightarrow> member_registered r k)"

text \<open>Nobody is registered in the new state who was not before.\<close>

definition no_new :: "(member_id \<Rightarrow> bool) \<Rightarrow> v2_room \<Rightarrow> bool" where
  "no_new reg r \<longleftrightarrow> (\<forall>k. member_registered r k \<longrightarrow> reg k)"

definition none_new :: "(uuid \<Rightarrow> member_id \<Rightarrow> bool) \<Rightarrow> v2_table \<Rightarrow> bool" where
  "none_new reg t \<longleftrightarrow> (\<forall>rid. case map_of (vt_rooms t) rid of None \<Rightarrow> True | Some r \<Rightarrow> no_new (reg rid) r)"

lemma none_new_iff: "none_new reg t \<longleftrightarrow> (\<forall>rid k. v2_registered t rid k \<longrightarrow> reg rid k)"
  by (auto simp: none_new_def no_new_def v2_registered_def split: option.splits)

lemma none_newD: "none_new reg t \<Longrightarrow> map_of (vt_rooms t) rid = Some r \<Longrightarrow> no_new (reg rid) r"
  unfolding none_new_def by (metis option.simps(5))

text \<open>Changes of a room.\<close>

lemma no_new_sel [simp]:
  "no_new reg (r\<lparr>vr_mode := x1\<rparr>) = no_new reg r" "no_new reg (r\<lparr>vr_signal_epoch := x2\<rparr>) = no_new reg r"
  "no_new reg (r\<lparr>vr_assignment_epoch := x2\<rparr>) = no_new reg r"
  "no_new reg (r\<lparr>vr_assigned_instance := x3\<rparr>) = no_new reg r" "no_new reg (r\<lparr>vr_upgrade := x4\<rparr>) = no_new reg r"
  "no_new reg (r\<lparr>vr_pending_join := x5\<rparr>) = no_new reg r" "no_new reg (r\<lparr>vr_pending_leave := x6\<rparr>) = no_new reg r"
  "no_new reg (r\<lparr>vr_downgrade_deadline := x7\<rparr>) = no_new reg r"
  by (simp_all add: no_new_def member_registered_def)

lemma no_new_put [simp]:
  "no_new reg r \<Longrightarrow> mb_registered m \<Longrightarrow> map_of (vr_members r) k = Some m' \<Longrightarrow> mb_registered m' \<Longrightarrow> no_new reg (put_member k m r)"
  "no_new reg r \<Longrightarrow> \<not> mb_registered m \<Longrightarrow> no_new reg (put_member k m r)"
  by (auto simp: no_new_def member_registered_def)

lemma no_new_put_same:
  "no_new reg r \<Longrightarrow> map_of (vr_members r) k = Some m' \<Longrightarrow> mb_registered m = mb_registered m' \<Longrightarrow> no_new reg (put_member k m r)"
  by (cases "mb_registered m") simp_all

lemma no_new_remove [simp]: "no_new reg r \<Longrightarrow> no_new reg (remove_member k r)"
  by (auto simp: no_new_def member_registered_def)

lemma map_of_map_entries: "map_of (map (\<lambda>(k, v). (k, f k v)) m) k = map_option (f k) (map_of m k)"
  by (induction m) auto

lemma no_new_map:
  "no_new reg r \<Longrightarrow> (\<And>k m. mb_registered (f k m) = mb_registered m) \<Longrightarrow>
     no_new reg (r\<lparr>vr_members := map (\<lambda>(k, m). (k, f k m)) (vr_members r)\<rparr>)"
  by (auto simp: no_new_def member_registered_def map_of_map_entries split: option.split)

text \<open>Changes of the table.\<close>

lemma none_new_same: "vt_rooms t' = vt_rooms t \<Longrightarrow> none_new reg t' = none_new reg t"
  by (simp add: none_new_def)

lemma none_new_put_room: "none_new reg t \<Longrightarrow> no_new (reg rid) r \<Longrightarrow> none_new reg (put_room rid r t)"
  by (auto simp: none_new_def)

lemma none_new_drop_room: "none_new reg t \<Longrightarrow> none_new reg (drop_room rid t)"
  by (auto simp: none_new_def)

lemma none_new_frame [simp]:
  "none_new reg (push_action a t) = none_new reg t"
  "none_new reg (issue_command inst conn kind p t) = none_new reg t"
  "none_new reg (put_worker inst w t) = none_new reg t"
  "none_new reg (on_worker inst f t) = none_new reg t"
  "none_new reg (forget_command req t) = none_new reg t"
  by (simp_all add: none_new_def)

lemma none_new_next_lifecycle: "next_lifecycle rid k t = (t1, l) \<Longrightarrow> none_new reg t1 = none_new reg t"
  by (rule none_new_same) (simp add: next_lifecycle_put_room)

lemmas none_new_rules = none_new_put_room none_new_drop_room none_newD no_new_put_same

section \<open>Browser operations\<close>

lemma issue_next_upgrade_join_new: "none_new reg t \<Longrightarrow> none_new reg (fst (issue_next_upgrade_join rid t))"
  by (auto simp: issue_next_upgrade_join_def Let_def split: option.split)

lemma refresh_lifecycles_new: "none_new reg t \<Longrightarrow> none_new reg (fst (refresh_lifecycles rid cids t))"
proof (induction cids arbitrary: t)
  case Nil
  then show ?case by simp
next
  case (Cons c cids)
  obtain t1 l where l: "next_lifecycle rid c t = (t1, l)" by force
  have t1: "none_new reg t1" using Cons.prems none_new_next_lifecycle [OF l] by simp
  have "none_new reg (put_room rid (put_member c (m\<lparr>mb_lifecycle_id := l\<rparr>) r) t1)"
    if "map_of (vt_rooms t1) rid = Some r" "map_of (vr_members r) c = Some m" for r m
    by (intro none_new_put_room [OF t1] no_new_put_same [OF none_newD [OF t1 that(1)] that(2)]) simp
  with Cons.IH t1 show ?case by (auto simp: l split: option.split)
qed

lemma begin_upgrade_new:
  assumes t: "none_new reg t" and r: "map_of (vt_rooms t) rid = Some room"
  shows "none_new reg (fst (begin_upgrade areq now rid cid token inst room t))"
proof -
  obtain t1 l where l: "next_lifecycle rid cid t = (t1, l)" by force
  have t1: "none_new reg t1" using t none_new_next_lifecycle [OF l] by simp
  define room1 where "room1 = (put_member cid (new_member now (vt_reconnect_grace t) token False l) room)
      \<lparr>vr_mode := Upgrading, vr_assignment_epoch := sat_add (vr_assignment_epoch room) 1,
       vr_assigned_instance := Some inst\<rparr>"
  have "none_new reg (put_room rid room1 t1)"
    using none_newD [OF t r] by (intro none_new_put_room [OF t1]) (simp add: room1_def new_member_def)
  note t2 = refresh_lifecycles_new [OF this]
  have "none_new reg t2" if "refresh_lifecycles rid cids (put_room rid room1 t1) = (t2, res)" for cids t2 res
    using t2 [of rid cids] that by simp
  moreover have "none_new reg t4" if "issue_next_upgrade_join rid t3 = (t4, res)" "none_new reg t3" for t3 t4 res
    using issue_next_upgrade_join_new [OF that(2), of rid] that(1) by simp
  moreover have "none_new reg (put_room rid (r2\<lparr>vr_upgrade := u\<rparr>) t2)"
    if "none_new reg t2" "map_of (vt_rooms t2) rid = Some r2" for t2 r2 u
    using none_newD [OF that] by (intro none_new_put_room [OF that(1)]) simp
  ultimately show ?thesis
    unfolding begin_upgrade_def l prod.case room1_def [symmetric] Let_def
    by (auto split: prod.split sum.split option.split)
qed

lemma admit_new:
  assumes t: "none_new reg t"
  shows "none_new reg (fst (admit areq now rid cid token t))"
proof (cases "map_of (vt_rooms t) rid")
  case None
  obtain t1 l where l: "next_lifecycle rid cid t = (t1, l)" by force
  have "no_new (reg rid) (new_v2_room [(cid, new_member now d token True l)])" for d
    by (simp add: no_new_def member_registered_def new_v2_room_def new_member_def)
  with None t show ?thesis by (simp add: admit_def l none_new_put_room none_new_next_lifecycle [OF l])
next
  case (Some room)
  obtain t1 l where l: "next_lifecycle rid cid t = (t1, l)" by force
  have "no_new (reg rid) (put_member cid (new_member now d token False l) room)" for d
    using none_newD [OF t Some] by (simp add: new_member_def)
  with t begin_upgrade_new [OF t Some] show ?thesis
    by (simp add: admit_def admit_to_sfu_def Some l Let_def none_new_put_room none_new_next_lifecycle [OF l]
        split: option.split room_mode.split)
qed

lemma issue_sfu_leave_new: "none_new reg t \<Longrightarrow> none_new reg (fst (issue_sfu_leave rid cid reason t))"
  by (auto simp: issue_sfu_leave_def split: option.split intro!: none_new_put_room dest: none_newD)

lemma arm_reconnect_new: "none_new reg t \<Longrightarrow> none_new reg (arm_reconnect now rid cid t)"
  by (auto simp: arm_reconnect_def split: option.split intro!: none_new_put_room no_new_put_same dest: none_newD)

lemma leave_or_arm_new:
  assumes "none_new reg t"
  shows "none_new reg (case issue_sfu_leave rid cid reason t of
     (t1, True) \<Rightarrow> t1 | (t1, False) \<Rightarrow> arm_reconnect now rid cid t1)"
  using issue_sfu_leave_new [OF assms, of rid cid reason]
  by (auto split: prod.split bool.split intro: arm_reconnect_new)

text \<open>A dropped connection takes the registration away.\<close>

lemma v2_deregister_new:
  assumes t: "none_new reg t"
  shows "none_new (\<lambda>rid' k. reg rid' k \<and> \<not> (rid' = rid \<and> k = cid)) (v2_deregister now rid cid t)"
proof -
  let ?reg = "\<lambda>rid' k. reg rid' k \<and> \<not> (rid' = rid \<and> k = cid)"
  have put: "none_new ?reg (put_room rid (put_member cid (m\<lparr>mb_registered := False\<rparr>) r) t)"
    if "map_of (vt_rooms t) rid = Some r" for r m
    using t none_newD [OF t that]
    by (auto simp: none_new_iff v2_registered_def no_new_def member_registered_def split: if_splits)
  show ?thesis
  proof (cases "v2_registered t rid cid")
    case True
    then show ?thesis
      using put leave_or_arm_new arm_reconnect_new
      by (auto simp: v2_deregister_def Let_def v2_registered_def member_registered_def split: option.splits)
  next
    case False
    then have "v2_deregister now rid cid t = t"
      by (auto simp: v2_deregister_def v2_registered_def member_registered_def split: option.split)
    with t False show ?thesis by (auto simp: none_new_iff)
  qed
qed

lemma queue_for_peer_new:
  "none_new reg t \<Longrightarrow> no_new (reg rid) r \<Longrightarrow> none_new reg (fst (queue_for_peer rid cid msg r t))"
  by (auto simp: queue_for_peer_def push_queued_def split: option.split prod.split sum.split if_splits
      intro!: none_new_put_room no_new_put_same)

lemma v2_send_new: "none_new reg t \<Longrightarrow> none_new reg (fst (v2_send rid cid epoch msg t))"
  by (auto simp: v2_send_def split: option.split intro!: queue_for_peer_new dest: none_newD)

lemma no_new_promote: "no_new reg r \<Longrightarrow> promote_survivor rid r = (r', p) \<Longrightarrow> no_new reg r'"
  by (auto simp: promote_survivor_def Let_def no_new_def member_registered_def split: if_splits list.splits)

lemma v2_remove_new:
  assumes t: "none_new reg t"
  shows "none_new reg (fst (v2_remove areq rid cid token t))"
proof (cases "map_of (vt_rooms t) rid")
  case None
  with t show ?thesis by (simp add: v2_remove_def)
next
  case (Some r)
  have r: "no_new (reg rid) (remove_member cid r)" "no_new (reg rid) r" using none_newD [OF t Some] by simp_all
  from no_new_promote [OF r(1), of rid] t r show ?thesis
    by (auto simp: v2_remove_def Some Let_def none_new_put_room none_new_drop_room split: option.split prod.split)
qed

text \<open>A removal that completes at once leaves no member behind.\<close>

lemma v2_remove_gone:
  assumes "v2_remove areq rid cid token t = (t', Inr (RemovalComplete p))"
  shows "\<not> v2_registered t' rid cid"
proof -
  have gone: "\<not> member_registered (remove_member cid r) cid" for r
    by (simp add: member_registered_def)
  moreover from this have "\<not> member_registered r' cid" if "promote_survivor rid (remove_member cid r) = (r', q)" for r r' q
    using no_new_promote [where reg = "member_registered (remove_member cid r)", OF _ that]
    by (auto simp: no_new_def)
  ultimately show ?thesis
    using assms by (auto simp: v2_remove_def Let_def v2_registered_def split: option.splits if_splits prod.splits)
qed

section \<open>Worker operations\<close>

lemma fail_room_new: "none_new reg t \<Longrightarrow> none_new reg (fail_room rid reason t)"
  by (auto simp: fail_room_def split: option.split intro!: none_new_put_room dest: none_newD)

lemma no_new_hm_map:
  "no_new reg r \<Longrightarrow> (\<And>m. mb_registered (f m) = mb_registered m) \<Longrightarrow> no_new reg (r\<lparr>vr_members := hm_map f (vr_members r)\<rparr>)"
  unfolding hm_map_def by (rule no_new_map)

lemma commit_upgrade_new:
  assumes t: "none_new reg t"
  shows "none_new reg (fst (commit_upgrade rid t))"
proof (cases "map_of (vt_rooms t) rid")
  case None
  with t show ?thesis by (simp add: commit_upgrade_def)
next
  case (Some r)
  have "no_new (reg rid) (r\<lparr>vr_members := hm_map (\<lambda>m. m\<lparr>mb_queued_messages := [], mb_is_initiator := False\<rparr>) (vr_members r)\<rparr>)"
    by (rule no_new_hm_map [OF none_newD [OF t Some]]) simp
  then have "no_new (reg rid) (r\<lparr>vr_upgrade := None, vr_mode := Sfu, vr_signal_epoch := e,
      vr_members := hm_map (\<lambda>m. m\<lparr>mb_queued_messages := [], mb_is_initiator := False\<rparr>) (vr_members r)\<rparr>)" for e
    by (simp add: no_new_def member_registered_def)
  with t show ?thesis
    by (auto simp: commit_upgrade_def Some Let_def split: option.split intro!: none_new_put_room)
qed

lemma cleanup_joined_new: "none_new reg t \<Longrightarrow> none_new reg (fst (cleanup_joined inst conn rid epoch cids t))"
  by (induction cids arbitrary: t) (auto split: option.split)

lemma abort_upgrade_new:
  assumes t: "none_new reg t"
  shows "none_new reg (fst (abort_upgrade rid reason t))"
proof -
  have clean: "none_new reg (fst (case conn of None \<Rightarrow> (t1, Ok ()) | Some c \<Rightarrow> cleanup_joined inst c rid e cs t1))"
    if "none_new reg t1" for conn inst e cs t1
    using that by (cases conn) (simp_all add: cleanup_joined_new)
  have finish: "none_new reg (fst (case x of (t2, Inl e) \<Rightarrow> (t2, Inl e) | (t2, Inr _) \<Rightarrow> (push_action a t2, Ok ())))"
    if "none_new reg (fst x)" for x :: "v2_table \<times> unit result" and a
    using that by (auto split: prod.split sum.split)
  have put: "none_new reg (put_room rid r' t)" if "map_of (vt_rooms t) rid = Some r" "no_new (reg rid) r \<Longrightarrow> no_new (reg rid) r'" for r r'
    using none_newD [OF t that(1)] that(2) by (intro none_new_put_room [OF t])
  show ?thesis
    unfolding abort_upgrade_def Let_def
    by (split option.split, intro conjI allI impI, simp add: t, split option.split, intro conjI allI impI,
        simp add: t, split option.split, intro conjI allI impI)
      (simp add: put, intro finish clean, simp add: put)
qed

lemma arm_downgrade_new: "none_new reg t \<Longrightarrow> none_new reg (arm_downgrade rid now t)"
  by (auto simp: arm_downgrade_def split: option.split intro!: none_new_put_room dest: none_newD)

lemma leave_all_new: "none_new reg (leave_all inst conn rid epoch leaving t) = none_new reg t"
  by (rule none_new_same [OF leave_all_rooms])

lemma commit_downgrade_new:
  assumes t: "none_new reg t"
  shows "none_new reg (fst (commit_downgrade rid t))"
proof (cases "map_of (vt_rooms t) rid")
  case None
  with t show ?thesis by (simp add: commit_downgrade_def)
next
  case (Some r)
  note r = none_newD [OF t Some]
  have "no_new (reg rid) (r\<lparr>vr_members := map (\<lambda>(c, m). (c, m\<lparr>mb_is_initiator := (c = i), mb_queued_messages := []\<rparr>)) (vr_members r)\<rparr>)" for i
    by (rule no_new_map [OF r]) simp
  then have "no_new (reg rid) (r\<lparr>vr_mode := P2p, vr_signal_epoch := e, vr_downgrade_deadline := None,
      vr_assigned_instance := None,
      vr_members := map (\<lambda>(c, m). (c, m\<lparr>mb_is_initiator := (c = i), mb_queued_messages := []\<rparr>)) (vr_members r)\<rparr>)" for i e
    by (simp add: no_new_def member_registered_def)
  with t r show ?thesis
    by (auto simp: commit_downgrade_def Some Let_def leave_all_new split: option.split list.split
        intro!: none_new_put_room)
qed

lemma handle_worker_event_new:
  assumes t: "none_new reg t"
  shows "none_new reg (fst (handle_worker_event conn inst event t))"
proof -
  have signal: "none_new reg (fst (worker_signal inst s (put_worker inst w t)))" for s w
    using t none_new_same [OF worker_signal_rooms, of reg inst s "put_worker inst w t"] by simp
  have finish: "none_new reg (fst (case x of (t2, Inl e) \<Rightarrow> (t2, Inl e) | (t2, Inr _) \<Rightarrow> (push_action a t2, Ok ())))"
    if "none_new reg (fst x)" for x :: "v2_table \<times> unit result" and a
    using that by (auto split: prod.split sum.split)
  have fail: "none_new reg (fail_room r reason (put_worker inst w t))" for r reason w
    using t by (intro fail_room_new) simp
  show ?thesis
    by (cases "map_of (vt_workers t) inst"; cases "ev_event event")
      (simp_all add: handle_worker_event_def Let_def t finish signal fail split: option.split)
qed

lemma upgrade_join_result_new:
  assumes t: "none_new reg t"
  shows "none_new reg (fst (upgrade_join_result rid cid valid reason t))"
proof -
  have "none_new reg (put_room rid (r\<lparr>vr_upgrade := u\<rparr>) t)" if "map_of (vt_rooms t) rid = Some r" for r u
    using none_newD [OF t that] by (intro none_new_put_room [OF t]) simp
  with t show ?thesis
    by (auto simp: upgrade_join_result_def Let_def split: option.split
        intro!: abort_upgrade_new commit_upgrade_new issue_next_upgrade_join_new)
qed

lemma sfu_join_result_new:
  assumes t: "none_new reg t"
  shows "none_new reg (fst (sfu_join_result inst rid cid valid reason t))"
  using none_newD [OF t] t
  by (auto simp: sfu_join_result_def Let_def split: option.split intro!: none_new_put_room)

lemma sfu_leave_result_new:
  assumes t: "none_new reg t"
  shows "none_new reg (fst (sfu_leave_result now inst rid cid valid reason t))"
proof -
  have complete: "none_new reg ((case q of None \<Rightarrow> id | Some areq \<Rightarrow> push_action (h areq)) t') = none_new reg t'"
    for q :: "u64 option" and h t' by (simp split: option.split)
  show ?thesis
    using none_newD [OF t] t
    by (auto simp: sfu_leave_result_def Let_def complete split: option.split
        intro!: none_new_put_room none_new_drop_room arm_downgrade_new)
qed

lemma handle_sfu_input_new:
  assumes t: "none_new reg t"
  shows "none_new reg (fst (handle_sfu_input input t))"
proof -
  have "none_new reg (fold (\<lambda>c. push_action (f c)) cs t)" if "none_new reg t" for f cs and t :: v2_table
    using none_new_same [OF push_actions_rooms, of reg] that by blast
  note replay = this
  have "none_new reg (fst (handle_command_result conn inst result now t))" for conn inst result now
    using t
    by (auto simp: handle_command_result_def Let_def split: option.split pending_command.split
        intro!: upgrade_join_result_new sfu_join_result_new sfu_leave_result_new fail_room_new replay)
  moreover have "none_new reg (worker_disconnected conn inst now t)" for conn inst now
    using t by (auto simp: worker_disconnected_def split: option.split)
  moreover have "none_new reg (fst (register_worker conn inst req cap t))" for conn inst req cap
    using t none_new_same [OF register_worker_rooms] by blast
  ultimately show ?thesis
    using handle_worker_event_new [OF t] by (auto simp: handle_sfu_input_def split: sfu_input.split)
qed

section \<open>Timeouts\<close>

lemma expire_assigned_room_new:
  assumes t: "none_new reg t"
  shows "none_new reg (expire_assigned_room rid t)"
  using none_newD [OF t] t
  by (auto simp: expire_assigned_room_def Let_def split: option.split
      intro!: none_new_put_room abort_upgrade_new)

lemma expire_worker_new: "none_new reg t \<Longrightarrow> none_new reg (expire_worker inst t)"
proof -
  assume t: "none_new reg t"
  have rooms: "none_new reg (fold expire_assigned_room rids t)" for rids
    using t by (induction rids arbitrary: t) (auto intro: expire_assigned_room_new)
  have "none_new reg (fold forget_command reqs t')" if "none_new reg t'" for reqs t'
    using that none_new_same [OF forget_commands_rooms] by blast
  with rooms show ?thesis by (simp add: expire_worker_def Let_def)
qed

lemma expire_workers_new: "none_new reg t \<Longrightarrow> none_new reg (fold expire_worker insts t)"
  by (induction insts arbitrary: t) (auto intro: expire_worker_new)

lemma no_new_removes: "no_new reg r \<Longrightarrow> no_new reg (fold remove_member cs r)"
  by (induction cs arbitrary: r) auto

lemma sweep_room_new:
  assumes t: "none_new reg t"
  shows "none_new reg (fst (sweep_room now rid t))"
proof (cases "map_of (vt_rooms t) rid")
  case None
  with t show ?thesis by (simp add: sweep_room_def)
next
  case (Some r)
  note r = none_newD [OF t Some]
  have "none_new reg (put_room rid (r\<lparr>vr_downgrade_deadline := None\<rparr>) t)"
    using r by (intro none_new_put_room [OF t]) simp
  moreover have "none_new reg (fst (case issue_sfu_leave rid cid reason t of
      (t1, True) \<Rightarrow> (t1, p) | (t1, False) \<Rightarrow> (arm_reconnect now rid cid t1, p)))" for cid reason and p :: "promotion option"
    using leave_or_arm_new [OF t, where now = now and rid = rid and cid = cid and reason = reason] by (auto split: prod.splits bool.splits)
  moreover have "none_new reg (fst (sweep_p2p now rid r t))"
    using no_new_removes [OF r] no_new_promote [OF no_new_removes [OF r]] t r
    by (auto simp: sweep_p2p_def Let_def split: prod.split if_splits intro!: none_new_drop_room none_new_put_room)
  ultimately show ?thesis
    using commit_downgrade_new [OF t, of rid] t by (simp add: sweep_room_def Some split: option.split)
qed

lemma sweep_rooms_new: "none_new reg t \<Longrightarrow> none_new reg (fst (sweep_rooms now rids t))"
  by (induction rids arbitrary: t) (auto simp: case_prod_beta intro: sweep_room_new)

lemma v2_handle_timeout_new: "none_new reg t \<Longrightarrow> none_new reg (fst (v2_handle_timeout now t))"
  by (simp add: v2_handle_timeout_def Let_def sweep_rooms_new expire_workers_new)

end
