(* ===== verification/V2_Relay.thy ===== *)
theory V2_Relay
  imports V2_Registrations V2_Signaling V2_Transitions
begin

text \<open>
  The signaling between two members of a V2 room refines a pair of FIFO channels. While the
  room stays under its signal epoch, peer to peer or upgrading, and keeps both members, whatever
  else the authority does, upgrades that are aborted included, the messages it accepts from one
  member are those it hands to the other, in the order they were sent, and then those queued.
\<close>

section \<open>What other operations do to a member\<close>

definition member_kept :: "member_id \<Rightarrow> v2_room \<Rightarrow> v2_room \<Rightarrow> bool" where
  "member_kept c r r' \<longleftrightarrow>
     (\<exists>m m'. map_of (vr_members r) c = Some m \<and> map_of (vr_members r') c = Some m' \<and>
        mb_queued_messages m' = mb_queued_messages m \<and> (mb_registered m' \<longrightarrow> mb_registered m))"

text \<open>
  Within one signal epoch (unless it has saturated), a room with both members outside the SFU
  phase had both before, and neither lost or got a queued message or became registered.
\<close>

definition pair_kept :: "member_id \<Rightarrow> member_id \<Rightarrow> v2_room \<Rightarrow> v2_room \<Rightarrow> bool" where
  "pair_kept a b r r' \<longleftrightarrow>
     vr_signal_epoch r \<le> vr_signal_epoch r' \<and>
     (vr_signal_epoch r' = vr_signal_epoch r \<and> vr_signal_epoch r \<noteq> - 1 \<and> \<not> sfu_side r' \<and> a \<noteq> b \<and>
      hm_contains (vr_members r') a \<and> hm_contains (vr_members r') b \<longrightarrow>
      \<not> sfu_side r \<and> member_kept a r r' \<and> member_kept b r r')"

lemma member_keptD: "member_kept c r r' \<Longrightarrow> hm_contains (vr_members r) c"
  by (auto simp: member_kept_def)

lemma member_kept_same: "vr_members r' = vr_members r \<Longrightarrow> hm_contains (vr_members r') c \<Longrightarrow> member_kept c r r'"
  by (auto simp: member_kept_def)

lemma member_kept_trans: "member_kept c r r' \<Longrightarrow> member_kept c r' r'' \<Longrightarrow> member_kept c r r''"
  by (auto simp: member_kept_def)

lemma pair_kept_trans:
  assumes "pair_kept a b r r'" "pair_kept a b r' r''"
  shows "pair_kept a b r r''"
  unfolding pair_kept_def
proof (intro conjI impI; (elim conjE)?)
  have le: "vr_signal_epoch r \<le> vr_signal_epoch r'" "vr_signal_epoch r' \<le> vr_signal_epoch r''"
    using assms by (simp_all add: pair_kept_def)
  then show "vr_signal_epoch r \<le> vr_signal_epoch r''" by (rule order_trans)
  assume e: "vr_signal_epoch r'' = vr_signal_epoch r" "vr_signal_epoch r \<noteq> - 1" "\<not> sfu_side r''" "a \<noteq> b"
    "hm_contains (vr_members r'') a" "hm_contains (vr_members r'') b"
  have same: "vr_signal_epoch r' = vr_signal_epoch r" using le e(1) by simp
  with assms(2) e have later: "\<not> sfu_side r'" "member_kept a r' r''" "member_kept b r' r''"
    by (auto simp: pair_kept_def)
  with assms(1) e same have "\<not> sfu_side r" "member_kept a r r'" "member_kept b r r'"
    by (auto simp: pair_kept_def dest: member_keptD)
  with later show "\<not> sfu_side r" "member_kept a r r''" "member_kept b r r''"
    by (auto intro: member_kept_trans)
qed

lemma member_kept_removed:
  "vr_members r' = hm_remove k (vr_members r) \<Longrightarrow> hm_contains (vr_members r') c \<Longrightarrow> member_kept c r r'"
  by (auto simp: member_kept_def)

lemma member_kept_put:
  "map_of (vr_members r) k = Some m \<Longrightarrow> mb_queued_messages m' = mb_queued_messages m \<Longrightarrow>
     (mb_registered m' \<Longrightarrow> mb_registered m) \<Longrightarrow> hm_contains (vr_members (put_member k m' r)) c \<Longrightarrow>
     member_kept c r (put_member k m' r)"
  by (auto simp: member_kept_def split: if_splits)

interpretation pair: room_rule "pair_kept a b" for a b
proof (unfold_locales, goal_cases)
  case 2
  then show ?case by (rule pair_kept_trans)
next
  case (3 r' r)
  then show ?case
    using sat_add_ge [of "vr_signal_epoch r" 1] sat_add_one_gt [of "vr_signal_epoch r"]
    by (auto simp: pair_kept_def)
next
  case (9 rid r)
  show ?case
    by (auto simp: promote_survivor_def pair_kept_def Let_def length_Suc_conv member_kept_same split: list.split if_splits)
qed (auto simp: pair_kept_def sfu_side_def member_kept_same member_kept_removed member_kept_put)

section \<open>The link\<close>

text \<open>
  A table with two logs for one room: the messages accepted from a member, and the messages
  handed to a member, by a delivery or as what was queued for it when it registers.
\<close>

record v2_link =
  vl_table :: v2_table
  vl_accepted :: "(member_id \<times> string) list"
  vl_delivered :: "(member_id \<times> string) list"

definition log_send :: "member_id \<Rightarrow> string \<Rightarrow> send_result result \<Rightarrow> v2_link \<Rightarrow> v2_link" where
  "log_send cid msg res s =
     (case res of
        Inr (SendP2p None) \<Rightarrow> s\<lparr>vl_accepted := vl_accepted s @ [(cid, msg)]\<rparr>
      | Inr (SendP2p (Some d)) \<Rightarrow> s\<lparr>vl_accepted := vl_accepted s @ [(cid, msg)],
          vl_delivered := vl_delivered s @ [(de_client_id d, de_message d)]\<rparr>
      | _ \<Rightarrow> s)"

definition log_register :: "member_id \<Rightarrow> registration result \<Rightarrow> v2_link \<Rightarrow> v2_link" where
  "log_register cid res s =
     (case res of
        Inr reg \<Rightarrow> s\<lparr>vl_delivered := vl_delivered s @ map (Pair cid) (rg_queued_messages reg)\<rparr>
      | Inl _ \<Rightarrow> s)"

definition log_op :: "uuid \<Rightarrow> v2_op \<Rightarrow> v2_table \<Rightarrow> v2_link \<Rightarrow> v2_link" where
  "log_op rid op t s =
     (case op of
        V2Send rid' cid epoch msg \<Rightarrow> if rid' = rid then log_send cid msg (snd (v2_send rid' cid epoch msg t)) s else s
      | V2Register rid' cid token \<Rightarrow> if rid' = rid then log_register cid (snd (v2_register rid' cid token t)) s else s
      | _ \<Rightarrow> s)"

definition v2_link_step :: "uuid \<Rightarrow> instant \<Rightarrow> v2_op \<Rightarrow> v2_link \<Rightarrow> v2_link" where
  "v2_link_step rid now op s =
     log_op rid op (vl_table s) (s\<lparr>vl_table := fst (v2_exec now op (vl_table s))\<rparr>)"

definition v2_link_start :: "v2_table \<Rightarrow> v2_link" where
  "v2_link_start t = \<lparr>vl_table = t, vl_accepted = [], vl_delivered = []\<rparr>"

text \<open>The room is up: under the given epoch, P2P or upgrading, with both members.\<close>

definition link_up :: "uuid \<Rightarrow> u64 \<Rightarrow> member_id \<Rightarrow> member_id \<Rightarrow> v2_table \<Rightarrow> bool" where
  "link_up rid epoch a b t =
     (case map_of (vt_rooms t) rid of
        None \<Rightarrow> False
      | Some r \<Rightarrow> vr_signal_epoch r = epoch \<and> (vr_mode r = P2p \<or> vr_mode r = Upgrading) \<and>
          hm_contains (vr_members r) a \<and> hm_contains (vr_members r) b)"

definition queued_at :: "uuid \<Rightarrow> member_id \<Rightarrow> v2_table \<Rightarrow> string list" where
  "queued_at rid c t =
     (case map_of (vt_rooms t) rid of
        None \<Rightarrow> []
      | Some r \<Rightarrow> (case map_of (vr_members r) c of None \<Rightarrow> [] | Some m \<Rightarrow> mb_queued_messages m))"

definition messages_of :: "member_id \<Rightarrow> (member_id \<times> string) list \<Rightarrow> string list" where
  "messages_of c log = map snd (filter (\<lambda>(k, _). k = c) log)"

lemma messages_of_simps [simp]:
  "messages_of c [] = []" "messages_of c (xs @ ys) = messages_of c xs @ messages_of c ys"
  "messages_of c ((k, m) # xs) = (if k = c then m # messages_of c xs else messages_of c xs)"
  "messages_of c (map (Pair k) ms) = (if k = c then ms else [])"
  by (simp_all add: messages_of_def comp_def)

text \<open>Runs of the authority during which the room stays up.\<close>

inductive relaying :: "uuid \<Rightarrow> u64 \<Rightarrow> member_id \<Rightarrow> member_id \<Rightarrow> v2_link \<Rightarrow> v2_link \<Rightarrow> bool"
  for rid epoch a b where
  start: "link_up rid epoch a b (vl_table s) \<Longrightarrow> relaying rid epoch a b s s"
| exec: "relaying rid epoch a b s s' \<Longrightarrow> link_up rid epoch a b (vl_table (v2_link_step rid now op s')) \<Longrightarrow>
    relaying rid epoch a b s (v2_link_step rid now op s')"
| rehash: "relaying rid epoch a b s s' \<Longrightarrow> v2_perm (vl_table s') t \<Longrightarrow>
    relaying rid epoch a b s (s'\<lparr>vl_table := t\<rparr>)"

section \<open>The channel from one member to the other\<close>

text \<open>
  What was queued at the start and what was accepted is what was handed over and what is still
  queued; and nothing is queued for a registered member.
\<close>

definition channel :: "uuid \<Rightarrow> member_id \<Rightarrow> member_id \<Rightarrow> string list \<Rightarrow> v2_link \<Rightarrow> bool" where
  "channel rid a b q s \<longleftrightarrow>
     q @ messages_of a (vl_accepted s) = messages_of b (vl_delivered s) @ queued_at rid a (vl_table s) \<and>
     (v2_registered (vl_table s) rid b \<longrightarrow> queued_at rid a (vl_table s) = [])"

lemma link_upE:
  assumes "link_up rid epoch a b t"
  obtains r ma mb where "map_of (vt_rooms t) rid = Some r" "vr_signal_epoch r = epoch"
    "vr_mode r = P2p \<or> vr_mode r = Upgrading" "map_of (vr_members r) a = Some ma" "map_of (vr_members r) b = Some mb"
  using assms by (auto simp: link_up_def split: option.splits)

lemma link_up_commute: "link_up rid epoch a b t = link_up rid epoch b a t"
  by (auto simp: link_up_def split: option.split)

lemma v2_registered_at: "map_of (vt_rooms t) rid = Some r \<Longrightarrow> v2_registered t rid c = member_registered r c"
  by (simp add: v2_registered_def)

text \<open>Keeping both members keeps the channel.\<close>

lemma channel_kept:
  assumes "channel rid a b q s" "map_of (vt_rooms (vl_table s)) rid = Some r" "map_of (vt_rooms t) rid = Some r'"
    "member_kept a r r'" "member_kept b r r'"
  shows "channel rid a b q (s\<lparr>vl_table := t\<rparr>)"
  using assms
  by (auto simp: channel_def queued_at_def v2_registered_def member_registered_def member_kept_def)

lemma log_op_other: "\<not> joins_or_sends op \<Longrightarrow> log_op rid op t s = s"
  by (cases op) (simp_all add: log_op_def)

lemma log_op_elsewhere:
  "rid' \<noteq> rid \<Longrightarrow> log_op rid (V2Send rid' cid epoch msg) t s = s" "log_op rid (V2Admit areq rid'' cid token) t s = s"
  "rid' \<noteq> rid \<Longrightarrow> log_op rid (V2Register rid' cid token) t s = s"
  by (simp_all add: log_op_def)

subsection \<open>Admissions\<close>

lemma admit_elsewhere:
  assumes "v2_inv t" "rid' \<noteq> rid"
  shows "map_of (vt_rooms (fst (admit areq now rid' cid token t))) rid = map_of (vt_rooms t) rid"
proof -
  have up: "map_of (vt_rooms (fst (begin_upgrade areq now rid' cid token inst r t))) rid = map_of (vt_rooms t) rid"
    if "map_of (vt_rooms t) rid' = Some r" "map_of (vr_members r) cid = None" "select_worker 3 t = Some inst" for r inst
  proof -
    have ok: "hm_ok (vr_members r)" using v2_invD(1) [OF assms(1) that(1)] by (simp add: room_good_def hm_all_def)
    note new = that(2) and known = select_worker_known [OF that(3)]
    obtain w where w: "map_of (vt_workers t) inst = Some w" using known by auto
    show ?thesis
      by (rule begin_upgrade_rooms [OF ok new w, of areq now rid' token]) (use assms(2) in simp)
  qed
  show ?thesis
    using assms(2) up
    by (auto simp: admit_def admit_to_sfu_def next_lifecycle_eq Let_def split: option.split room_mode.split)
qed

lemma admit_keeps:
  assumes t: "v2_inv t" and r: "map_of (vt_rooms t) rid = Some r" "vr_mode r = P2p \<or> vr_mode r = Upgrading"
    and c: "hm_contains (vr_members r) a" "hm_contains (vr_members r) b" "a \<noteq> b"
    and r': "map_of (vt_rooms (fst (admit areq now rid cid token t))) rid = Some r'"
  shows "member_kept a r r'"
proof (cases "fst (admit areq now rid cid token t) = t")
  case True
  with r r' c show ?thesis by (simp add: member_kept_same)
next
  case False
  have good: "hm_ok (vr_members r)" "vr_mode r = P2p \<Longrightarrow> length (vr_members r) \<le> 2"
    using v2_invD(1) [OF t r(1)] by (auto simp: room_good_def hm_all_def v2_room_ok_def mode_ok_def MAX_P2P_MEMBERS_def)
  have "length (vr_members r) \<noteq> 1" "length (vr_members r) \<noteq> 0" 
    using c by (auto simp: length_Suc_conv split: if_splits)
  with good(2) have full: "vr_mode r = P2p \<Longrightarrow> length (vr_members r) = 2" by linarith
  from False r full obtain inst where new: "map_of (vr_members r) cid = None" "select_worker 3 t = Some inst"
      "admit areq now rid cid token t = begin_upgrade areq now rid cid token inst r t"
    by (auto simp: admit_def MAX_P2P_MEMBERS_def split: option.splits if_splits room_mode.splits)
  obtain w where "map_of (vt_workers t) inst = Some w" using select_worker_known [OF new(2)] by auto
  from begin_upgrade_rooms [OF good(1) new(1) this, of areq now rid token] obtain M' where
    "vt_rooms (fst (begin_upgrade areq now rid cid token inst r t)) =
       hm_insert rid (upgrading_room areq cid inst M' r) (vt_rooms t)"
    and M': "\<And>c. c \<noteq> cid \<Longrightarrow> map_of M' c =
       map_option (\<lambda>m. m\<lparr>mb_lifecycle_id := bumped (vt_lifecycle_ids t) (rid, c)\<rparr>) (map_of (vr_members r) c)"
    by blast
  then have "r' = upgrading_room areq cid inst M' r" using r' new(3) by simp
  moreover have "a \<noteq> cid" using c(1) new(1) by auto
  ultimately show ?thesis using c(1) M' [of a] by (auto simp: member_kept_def upgrading_room_def)
qed

subsection \<open>Sends and registrations\<close>

lemma link_up_paired:
  assumes "v2_inv t" "a \<noteq> b" "map_of (vt_rooms t) rid = Some r" "vr_mode r = P2p"
    "hm_contains (vr_members r) a" "hm_contains (vr_members r) b"
  shows "v2_paired t rid a b r" "v2_paired t rid b a r" "hm_contains (vr_members r) c \<Longrightarrow> c = a \<or> c = b"
proof -
  show p: "v2_paired t rid a b r" "v2_paired t rid b a r" using assms by (simp_all add: v2_paired_def)
  show "hm_contains (vr_members r) c \<Longrightarrow> c = a \<or> c = b"
  proof -
    obtain ma mb where "map_of (vr_members r) a = Some ma" "map_of (vr_members r) b = Some mb" using assms(5,6) by auto
    from v2_paired_members [OF p(1) this] show "hm_contains (vr_members r) c \<Longrightarrow> c = a \<or> c = b"
      by (auto split: if_splits)
  qed
qed

lemma channel_send:
  assumes t: "v2_inv (vl_table s)" and d: "a \<noteq> b" and up: "link_up rid epoch a b (vl_table s)"
    and ch: "channel rid a b q s"
  shows "channel rid a b q (v2_link_step rid now (V2Send rid cid epoch' msg) s)"
proof -
  let ?t = "vl_table s"
  obtain r ma mb where r: "map_of (vt_rooms ?t) rid = Some r" "vr_mode r = P2p \<or> vr_mode r = Upgrading"
    and m: "map_of (vr_members r) a = Some ma" "map_of (vr_members r) b = Some mb"
    using up by (elim link_upE)
  consider "vr_mode r = Upgrading \<or> vr_signal_epoch r \<noteq> epoch'" | "vr_mode r = P2p" "vr_signal_epoch r = epoch'"
    using r(2) by auto
  then show ?thesis
  proof cases
    case 1
    then have "v2_send rid cid epoch' msg ?t = (?t, Ok SendDropped)" using r(1) by (auto simp: v2_send_def)
    with ch show ?thesis by (simp add: v2_link_step_def log_op_def log_send_def)
  next
    case 2
    note p = link_up_paired [OF t d r(1) 2(1), unfolded m, simplified]
    consider "cid = a" | "cid = b" | "map_of (vr_members r) cid = None" using p(3) [of cid] by auto
    then show ?thesis
    proof cases
      assume c: "cid = a"
      with v2_paired_send [OF p(1) m, of msg] 2(2) ch d r(1) m show ?thesis
        by (auto simp: v2_link_step_def log_op_def log_send_def channel_def queued_at_def v2_registered_def member_registered_def)
    next
      assume c: "cid = b"
      with v2_paired_send [OF p(2) m(2,1), of msg] 2(2) ch d r(1) m show ?thesis
        by (auto simp: v2_link_step_def log_op_def log_send_def channel_def queued_at_def v2_registered_def member_registered_def)
    next
      assume "map_of (vr_members r) cid = None"
      then have "v2_send rid cid epoch' msg ?t = (?t, Err ''CLIENT_NOT_FOUND'')" using r(1) 2 by (simp add: v2_send_def)
      with ch show ?thesis by (simp add: v2_link_step_def log_op_def log_send_def)
    qed
  qed
qed

lemma v2_register_refused: "v2_register rid cid token t = (t', Inl e) \<Longrightarrow> t' = t"
  by (auto simp: v2_register_def Let_def split: option.splits if_splits)

lemma channel_register:
  assumes t: "v2_inv (vl_table s)" and d: "a \<noteq> b" and up: "link_up rid epoch a b (vl_table s)"
    and ch: "channel rid a b q s"
  shows "channel rid a b q (v2_link_step rid now (V2Register rid cid token) s)"
proof -
  let ?t = "vl_table s"
  obtain r ma mb where r: "map_of (vt_rooms ?t) rid = Some r" "vr_mode r = P2p \<or> vr_mode r = Upgrading"
    and m: "map_of (vr_members r) a = Some ma" "map_of (vr_members r) b = Some mb"
    using up by (elim link_upE)
  obtain t' res where reg: "v2_register rid cid token ?t = (t', res)" by force
  show ?thesis
  proof (cases res)
    case (Inl e)
    with reg have "t' = ?t" by (auto dest: v2_register_refused)
    with ch reg Inl show ?thesis by (simp add: v2_link_step_def log_op_def log_register_def)
  next
    case (Inr g)
    with reg r obtain mc where c: "map_of (vr_members r) cid = Some mc" "\<not> mb_registered mc" "token = mb_token mc"
        "vr_mode r = P2p"
      by (auto simp: v2_register_def constant_time_eq_iff as_bytes_inj split: option.splits if_splits)
    note p = link_up_paired [OF t d r(1) c(4), unfolded m, simplified]
    have "cid = a \<or> cid = b" using p(3) [of cid] c(1) by simp
    then show ?thesis
    proof
      assume "cid = b"
      with v2_paired_register [OF p(1) m] c ch d r(1) m show ?thesis
        by (auto simp: v2_link_step_def log_op_def log_register_def channel_def queued_at_def v2_registered_def
            member_registered_def drain_others_def map_of_map_pair)
    next
      assume "cid = a"
      with v2_paired_register [OF p(2) m(2,1)] c ch d r(1) m show ?thesis
        by (auto simp: v2_link_step_def log_op_def log_register_def channel_def queued_at_def v2_registered_def
            member_registered_def drain_others_def map_of_map_pair)
    qed
  qed
qed

section \<open>The simulation\<close>

lemma channel_step:
  assumes t: "v2_inv (vl_table s)" and d: "a \<noteq> b" and e: "epoch \<noteq> - 1"
    and up: "link_up rid epoch a b (vl_table s)" "link_up rid epoch a b (vl_table (v2_link_step rid now op s))"
    and ch: "channel rid a b q s"
  shows "channel rid a b q (v2_link_step rid now op s)"
proof -
  let ?t' = "fst (v2_exec now op (vl_table s))"
  have tab: "vl_table (v2_link_step rid now op s) = ?t'"
    by (auto simp: v2_link_step_def log_op_def log_send_def log_register_def
        split: v2_op.split sum.split send_result.split option.split)
  obtain r where r: "map_of (vt_rooms (vl_table s)) rid = Some r" "vr_signal_epoch r = epoch"
    "vr_mode r = P2p \<or> vr_mode r = Upgrading" "hm_contains (vr_members r) a" "hm_contains (vr_members r) b"
    using up(1) by (elim link_upE) simp
  obtain r' where r': "map_of (vt_rooms ?t') rid = Some r'" "vr_signal_epoch r' = epoch"
    "vr_mode r' = P2p \<or> vr_mode r' = Upgrading" "hm_contains (vr_members r') a" "hm_contains (vr_members r') b"
    using up(2) unfolding tab by (elim link_upE) simp
  note kept = channel_kept [OF ch r(1) r'(1)]
  show ?thesis
  proof (cases "joins_or_sends op")
    case False
    from rooms_relD [OF pair.exec [OF t this] r(1) r'(1), of a b] have "member_kept a r r'" "member_kept b r r'"
      using r r' d e by (auto simp: pair_kept_def sfu_side_def)
    then show ?thesis using kept False by (simp add: v2_link_step_def log_op_other)
  next
    case True
    show ?thesis
    proof (cases op)
      case (V2Admit areq rid' cid token)
      have "member_kept a r r' \<and> member_kept b r r'"
      proof (cases "rid' = rid")
        case True
        then show ?thesis
          using r' admit_keeps [OF t r(1,3-5) d, of areq now cid token r']
            admit_keeps [OF t r(1,3,5,4) d [symmetric], of areq now cid token r'] by (simp add: V2Admit)
      next
        case False
        from admit_elsewhere [OF t this, of areq now cid token] have "r' = r" using r(1) r'(1) by (simp add: V2Admit)
        with r(4,5) show ?thesis by (simp add: member_kept_same)
      qed
      then show ?thesis using kept by (simp add: V2Admit v2_link_step_def log_op_elsewhere)
    next
      case (V2Register rid' cid token)
      show ?thesis
      proof (cases "rid' = rid")
        case True
        then show ?thesis using channel_register [OF t d up(1) ch] by (simp add: V2Register)
      next
        case False
        then have "r' = r" using r(1) r'(1) by (auto simp: V2Register v2_register_def Let_def split: option.splits if_splits)
        with r(4,5) kept False show ?thesis
          by (simp add: V2Register v2_link_step_def log_op_elsewhere member_kept_same)
      qed
    next
      case (V2Send rid' cid epoch' msg)
      show ?thesis
      proof (cases "rid' = rid")
        case True
        then show ?thesis using channel_send [OF t d up(1) ch] by (simp add: V2Send)
      next
        case False
        then have "r' = r" using r(1) r'(1)
          by (auto simp: V2Send v2_send_def queue_for_peer_def split: option.splits if_splits prod.splits sum.splits)
        with r(4,5) kept False show ?thesis
          by (simp add: V2Send v2_link_step_def log_op_elsewhere member_kept_same)
      qed
    qed (use True in simp_all)
  qed
qed

text \<open>A rehash changes neither the members nor the queues.\<close>

lemma rehash_room:
  assumes "v2_perm t t'" "map_of (vt_rooms t) rid = Some r"
  obtains r' where "map_of (vt_rooms t') rid = Some r'" "\<And>c. map_of (vr_members r') c = map_of (vr_members r) c"
    "vr_signal_epoch r' = vr_signal_epoch r" "vr_mode r' = vr_mode r"
proof -
  have "rel_option v2_room_perm (Some r) (map_of (vt_rooms t') rid)"
    using assms unfolding v2_perm_def by metis
  then obtain r' where r': "map_of (vt_rooms t') rid = Some r'" "v2_room_perm r r'"
    by (cases "map_of (vt_rooms t') rid") simp_all
  then have "hm_perm (vr_members r) (vr_members r')" "r' = r\<lparr>vr_members := vr_members r'\<rparr>"
    by (simp_all add: v2_room_perm_def)
  then have "map_of (vr_members r') c = map_of (vr_members r) c" "vr_signal_epoch r' = vr_signal_epoch r"
    "vr_mode r' = vr_mode r" for c
    by (simp, metis v2_room.select_convs(3) v2_room.surjective v2_room.update_convs(1),
        metis v2_room.select_convs(2) v2_room.surjective v2_room.update_convs(1))
  with r'(1) show ?thesis by (rule that)
qed

lemma relaying_up:
  assumes "relaying rid epoch a b s s'" "v2_inv (vl_table s)"
  shows "v2_inv (vl_table s') \<and> link_up rid epoch a b (vl_table s')"
  using assms
proof induction
  case (start s)
  then show ?case by simp
next
  case (exec s s' now op)
  have "vl_table (v2_link_step rid now op s') = fst (v2_exec now op (vl_table s'))"
    by (auto simp: v2_link_step_def log_op_def log_send_def log_register_def
        split: v2_op.split sum.split send_result.split option.split)
  with exec show ?case using v2_exec_inv [of "vl_table s'" now op] by simp
next
  case (rehash s s' t)
  then have inv: "v2_inv t" and up: "link_up rid epoch a b (vl_table s')" using v2_inv_perm by auto
  from up obtain r where r: "map_of (vt_rooms (vl_table s')) rid = Some r"
    by (elim link_upE) simp
  obtain r' where "map_of (vt_rooms t) rid = Some r'" "\<And>c. map_of (vr_members r') c = map_of (vr_members r) c"
    "vr_signal_epoch r' = vr_signal_epoch r" "vr_mode r' = vr_mode r"
    using rehash_room [OF rehash.hyps(2) r] by blast
  with up r inv show ?case by (simp add: link_up_def)
qed

lemma relaying_channel:
  assumes "relaying rid epoch a b s s'" "v2_inv (vl_table s)" "a \<noteq> b" "epoch \<noteq> - 1" "channel rid a b q s"
  shows "channel rid a b q s'"
  using assms
proof induction
  case (start s)
  then show ?case by simp
next
  case (exec s s' now op)
  have "v2_inv (vl_table s')" "link_up rid epoch a b (vl_table s')"
    using relaying_up [OF exec.hyps(1) exec.prems(1)] by simp_all
  with exec show ?case by (intro channel_step) simp_all
next
  case (rehash s s' t)
  have up: "link_up rid epoch a b (vl_table s')"
    using relaying_up [OF rehash.hyps(1) rehash.prems(1)] by simp
  then obtain r where r: "map_of (vt_rooms (vl_table s')) rid = Some r" "hm_contains (vr_members r) a" "hm_contains (vr_members r) b"
    by (elim link_upE) simp
  obtain r' where r': "map_of (vt_rooms t) rid = Some r'" "\<And>c. map_of (vr_members r') c = map_of (vr_members r) c"
    using rehash_room [OF rehash.hyps(2) r(1)] by blast
  then have "member_kept a r r'" "member_kept b r r'" using r(2,3) by (auto simp: member_kept_def)
  with channel_kept [OF _ r(1) r'(1)] rehash show ?case by simp
qed

lemma relaying_commute: "relaying rid epoch a b s s' \<Longrightarrow> relaying rid epoch b a s s'"
  by (induction rule: relaying.induct) (auto intro: relaying.intros simp: link_up_commute [of rid epoch b a])

text \<open>Runs given by their operations.\<close>

fun v2_link_run :: "uuid \<Rightarrow> (instant \<times> v2_op) list \<Rightarrow> v2_link \<Rightarrow> v2_link" where
  "v2_link_run rid [] s = s"
| "v2_link_run rid ((now, op) # ops) s = v2_link_run rid ops (v2_link_step rid now op s)"

fun stays_up :: "uuid \<Rightarrow> u64 \<Rightarrow> member_id \<Rightarrow> member_id \<Rightarrow> (instant \<times> v2_op) list \<Rightarrow> v2_link \<Rightarrow> bool" where
  "stays_up rid epoch a b [] s \<longleftrightarrow> link_up rid epoch a b (vl_table s)"
| "stays_up rid epoch a b ((now, op) # ops) s \<longleftrightarrow>
     link_up rid epoch a b (vl_table s) \<and> stays_up rid epoch a b ops (v2_link_step rid now op s)"

lemma v2_link_run_relaying:
  "stays_up rid epoch a b ops s \<Longrightarrow> relaying rid epoch a b s0 s \<Longrightarrow> relaying rid epoch a b s0 (v2_link_run rid ops s)"
proof (induction ops arbitrary: s)
  case (Cons x ops)
  obtain now op where x: "x = (now, op)" by (cases x)
  have "stays_up rid epoch a b ops s' \<Longrightarrow> link_up rid epoch a b (vl_table s')" for s'
    by (cases ops) auto
  with Cons x show ?case by (auto intro: relaying.exec)
qed simp

text \<open>
  C24. Signaling in a P2P room is lossless and ordered. Start from any reachable table with two
  members of a room and nothing queued for one that is registered. Whatever the authority does
  then (sends, registrations and dropped connections of either, admissions, upgrades that start
  or are aborted, workers, timeouts, other rooms, rehashes), as long as the room stays P2P or
  upgrading under its signal epoch with both members: what was queued at the start and the
  messages accepted from one, in the order they were sent, are exactly those handed to the other,
  in that order, followed by those still queued; and nothing is queued for a member that is
  registered. So no message between the two is lost, duplicated or reordered.
\<close>

theorem v2_lossless_relay:
  assumes "reachable v2_initial v2_step t" "a \<noteq> b" "epoch \<noteq> - 1"
    "v2_registered t rid b \<Longrightarrow> queued_at rid a t = []" "v2_registered t rid a \<Longrightarrow> queued_at rid b t = []"
    "relaying rid epoch a b (v2_link_start t) s"
  shows "queued_at rid a t @ messages_of a (vl_accepted s) =
      messages_of b (vl_delivered s) @ queued_at rid a (vl_table s) \<and>
    queued_at rid b t @ messages_of b (vl_accepted s) =
      messages_of a (vl_delivered s) @ queued_at rid b (vl_table s) \<and>
    (v2_registered (vl_table s) rid b \<longrightarrow> queued_at rid a (vl_table s) = []) \<and>
    (v2_registered (vl_table s) rid a \<longrightarrow> queued_at rid b (vl_table s) = [])"
proof -
  have t: "v2_inv (vl_table (v2_link_start t))" using v2.inv_reachable [OF assms(1)] by (simp add: v2_link_start_def)
  have "channel rid a b (queued_at rid a t) (v2_link_start t)" "channel rid b a (queued_at rid b t) (v2_link_start t)"
    using assms(4,5) by (simp_all add: channel_def v2_link_start_def)
  from relaying_channel [OF assms(6) t assms(2,3) this(1)]
    relaying_channel [OF relaying_commute [OF assms(6)] t assms(2) [symmetric] assms(3) this(2)]
  show ?thesis by (simp add: channel_def)
qed

text \<open>
  An offer is sent before the peer connects, an upgrade starts and is aborted, the peer
  registers and gets the offer, and the next message is delivered at once.
\<close>

definition sample_relay :: "(instant \<times> v2_op) list" where
  "sample_relay =
     [(5, V2Send sample_rid 20 0 ''offer''), (6, V2Admit 3 sample_rid 15 ''tok15''),
      (7, V2Send sample_rid 20 0 ''dropped''),
      (8, V2Input (InputCommandResult 9 ''w1''
         \<lparr>cr_request_id = 1, cr_result = Inl \<lparr>er_reason = ''full'', er_retryable = False\<rparr>\<rparr> 8)),
      (9, V2Register sample_rid 10 ''tok10''), (10, V2Send sample_rid 20 0 ''ice'')]"

lemma sample_relay_eval:
  "stays_up sample_rid 0 20 10 sample_relay (v2_link_start sample_pair) \<and>
   queued_at sample_rid 20 sample_pair = [] \<and> queued_at sample_rid 10 sample_pair = [] \<and>
   (let s = v2_link_run sample_rid sample_relay (v2_link_start sample_pair) in
    messages_of 20 (vl_accepted s) = [''offer'', ''ice''] \<and> v2_registered (vl_table s) sample_rid 10)"
  by code_simp

theorem v2_lossless_relay_witness:
  "messages_of 10 (vl_delivered (v2_link_run sample_rid sample_relay (v2_link_start sample_pair))) = [''offer'', ''ice'']"
proof -
  let ?s = "v2_link_run sample_rid sample_relay (v2_link_start sample_pair)"
  have "relaying sample_rid 0 20 10 (v2_link_start sample_pair) (v2_link_start sample_pair)"
    using sample_relay_eval by (intro relaying.start) (simp add: sample_relay_def)
  then have "relaying sample_rid 0 20 10 (v2_link_start sample_pair) ?s"
    using sample_relay_eval by (intro v2_link_run_relaying) auto
  from v2_lossless_relay [OF sample_reachable(2) _ _ _ _ this] show ?thesis
    using sample_relay_eval unfolding Let_def by simp
qed

end
