(* ===== verification/V2_Grace.thy ===== *)
theory V2_Grace
  imports V2_Downgrade
begin

text \<open>
  The reconnect grace of P2P rooms: the exact effect of a timeout on such a room, the removal
  of the members whose grace is over and the promotion of the one that is left.
\<close>

text \<open>The members whose reconnect deadline has not passed.\<close>

definition remaining :: "instant \<Rightarrow> v2_room \<Rightarrow> (member_id \<times> member) list" where
  "remaining now r =
     filter (\<lambda>(c, m). case mb_reconnect_deadline m of None \<Rightarrow> True | Some d \<Rightarrow> now < d) (vr_members r)"

lemma remaining_passed: "remaining now r = filter (\<lambda>(c, m). \<not> passed now (mb_reconnect_deadline m)) (vr_members r)"
  unfolding remaining_def by (rule filter_cong) (auto simp: passed_def split: option.split)

definition promoted_room :: "member_id \<Rightarrow> member \<Rightarrow> v2_room \<Rightarrow> v2_room" where
  "promoted_room s m r = r\<lparr>vr_members := [(s, m\<lparr>mb_is_initiator := True, mb_queued_messages := []\<rparr>)]\<rparr>"

lemma sweep_p2p_exact:
  assumes "hm_ok (vr_members r)" "length (vr_members r) \<le> 2" "vr_mode r = P2p"
  shows "if remaining now r = [] then map_of (vt_rooms (fst (sweep_p2p now rid r t))) rid = None
    else if remaining now r = vr_members r then map_of (vt_rooms (fst (sweep_p2p now rid r t))) rid = Some r
    else (\<exists>s m. remaining now r = [(s, m)] \<and>
      map_of (vt_rooms (fst (sweep_p2p now rid r t))) rid = Some (promoted_room s m r) \<and>
      snd (sweep_p2p now rid r t) = (if mb_registered m
        then Some \<lparr>pr_room_id = rid, pr_client_id = s, pr_signal_epoch = vr_signal_epoch r\<rparr> else None))"
proof -
  have up: "r\<lparr>vr_members := vr_members r\<rparr> = r" by simp
  consider (none) "vr_members r = []" | (one) a ma where "vr_members r = [(a, ma)]"
    | (two) a ma b mb where "vr_members r = [(a, ma), (b, mb)]" "a \<noteq> b"
    using assms(1,2) by (cases "vr_members r" rule: remdups_adj.cases) (auto simp: le_Suc_eq)
  then show ?thesis
  proof cases
    case none
    then show ?thesis by (simp add: remaining_passed sweep_p2p_def Let_def)
  next
    case one
    then show ?thesis
      by (cases "passed now (mb_reconnect_deadline ma)")
        (simp_all add: remaining_passed sweep_p2p_def Let_def remove_member_def promote_survivor_def)
  next
    case two
    with assms(3) up show ?thesis
      by (cases "passed now (mb_reconnect_deadline ma)"; cases "passed now (mb_reconnect_deadline mb)")
        (simp_all add: remaining_passed sweep_p2p_def Let_def remove_member_def promote_survivor_def promoted_room_def)
  qed
qed

text \<open>
  C34. When a timeout comes with no worker to expire, this is all that it does to a P2P room:
  exactly the members whose reconnect deadline has passed are gone. If nobody is left the room is
  gone; if none was removed the room is as it was; otherwise the one left is the initiator with an
  empty queue, nothing else in the room has changed, and if that member is registered its
  promotion under the room's signal epoch is announced.
\<close>

theorem p2p_grace_exact:
  assumes "reachable v2_initial v2_step t" "map_of (vt_rooms t) rid = Some r" "vr_mode r = P2p"
    "\<forall>(k, w) \<in> set (vt_workers t). \<forall>d. wk_disconnect_deadline w = Some d \<longrightarrow> now < d"
    "v2_handle_timeout now t = (t', ps)"
  shows "if remaining now r = [] then map_of (vt_rooms t') rid = None
    else if remaining now r = vr_members r then map_of (vt_rooms t') rid = Some r
    else (\<exists>s m. remaining now r = [(s, m)] \<and> map_of (vt_rooms t') rid = Some (promoted_room s m r) \<and>
      (mb_registered m \<longrightarrow> \<lparr>pr_room_id = rid, pr_client_id = s, pr_signal_epoch = vr_signal_epoch r\<rparr> \<in> set ps))"
proof -
  have inv: "v2_inv t" by (rule v2.inv_reachable [OF assms(1)])
  then have rooms: "hm_ok (vt_rooms t)" by (simp add: v2_inv_def hm_all_def)
  have r: "hm_ok (vr_members r)" "length (vr_members r) \<le> 2" "vr_downgrade_deadline r = None"
    using v2_invD(1) [OF inv assms(2)] assms(3)
    by (simp_all add: room_good_def hm_all_def v2_room_ok_def mode_ok_def MAX_P2P_MEMBERS_def)
  have "filter (\<lambda>(k, w). passed now (wk_disconnect_deadline w)) (vt_workers t) = []"
    using assms(4) by (force simp: filter_empty_conv passed_def split: option.splits)
  then have t': "t' = fst (sweep_rooms now (hm_keys (vt_rooms t)) t)" "ps = snd (sweep_rooms now (hm_keys (vt_rooms t)) t)"
    using assms(5) by (simp_all add: v2_handle_timeout_def)
  have "rid \<in> set (hm_keys (vt_rooms t))" using map_of_SomeD [OF assms(2)] by force
  from sweep_rooms_reach [OF this rooms, of t now] obtain t1 where t1:
    "map_of (vt_rooms t1) rid = Some r"
    "map_of (vt_rooms t') rid = map_of (vt_rooms (fst (sweep_room now rid t1))) rid"
    "set_option (snd (sweep_room now rid t1)) \<subseteq> set ps"
    using assms(2) t' by auto
  have "sweep_room now rid t1 = sweep_p2p now rid r t1"
    using t1(1) assms(3) r(3) by (simp add: sweep_room_def passed_def)
  with sweep_p2p_exact [OF r(1,2) assms(3), of now rid t1] t1 show ?thesis
    by (auto split: if_splits)
qed

theorem p2p_grace_exact_witness:
  "\<exists>m. map_of (vt_rooms (fst (v2_handle_timeout 20 sample_pair))) sample_rid =
     Some (promoted_room 20 m (the (map_of (vt_rooms sample_pair) sample_rid)))"
proof -
  let ?r = "the (map_of (vt_rooms sample_pair) sample_rid)"
  have r: "map_of (vt_rooms sample_pair) sample_rid = Some ?r" "vr_mode ?r = P2p"
    and w: "\<forall>(k, w) \<in> set (vt_workers sample_pair). \<not> passed 20 (wk_disconnect_deadline w)"
    and n: "length (vr_members ?r) = 2" "map fst (remaining 20 ?r) = [20]"
    by code_simp+
  have w': "\<forall>(k, w) \<in> set (vt_workers sample_pair). \<forall>d. wk_disconnect_deadline w = Some d \<longrightarrow> 20 < d"
    using w by (force simp: passed_def)
  from n(2) have "remaining 20 ?r \<noteq> []" "length (remaining 20 ?r) = 1" "fst (hd (remaining 20 ?r)) = 20"
    by (auto simp: map_eq_Cons_conv)
  with p2p_grace_exact [OF sample_reachable(2) r w' prod.collapse [symmetric]] n(1) show ?thesis
    by (auto split: if_splits)
qed

end
