(* ===== verification/V2_Findings.thy ===== *)
theory V2_Findings
  imports V2_System
begin

text \<open>
  Corner cases of the V2 authority that its documentation does not lead one to expect, each as
  a run of the model on a concrete table.
\<close>

definition mode_of :: "v2_table \<Rightarrow> room_mode option" where
  "mode_of t = map_option vr_mode (map_of (vt_rooms t) sample_rid)"

definition leave_result :: "request_id \<Rightarrow> member_id \<Rightarrow> u64 \<Rightarrow> leave_reason \<Rightarrow> v2_op" where
  "leave_result req cid lifecycle reason = V2Input (InputCommandResult 9 ''w1'' \<lparr>cr_request_id = req,
     cr_result = Inr (MemberLeft \<lparr>lm_room_id = sample_rid, lm_client_id = cid, lm_lifecycle_id = lifecycle,
       lm_assignment_epoch = 1, lm_reason = reason\<rparr>)\<rparr> 6)"

definition failed_result :: "connection_id \<Rightarrow> request_id \<Rightarrow> v2_op" where
  "failed_result conn req = V2Input (InputCommandResult conn ''w1'' \<lparr>cr_request_id = req,
     cr_result = Inl \<lparr>er_reason = ''BUSY'', er_retryable = False\<rparr>\<rparr> 6)"

text \<open>A worker that rejects the synchronisation fails the upgrading room; its late joins bring it back.\<close>

lemma failed_upgrade_resumes:
  "mode_of (v2_run 6 [V2Input (InputRegister 9 ''w1'' 4 sample_cap), failed_result 9 2] sample_upgrading) = Some Failed \<and>
   mode_of (v2_run 6 [V2Input (InputRegister 9 ''w1'' 4 sample_cap), failed_result 9 2,
     sample_ack 10 2 1 1, sample_ack 20 2 1 3, sample_ack 15 1 1 4] sample_upgrading) = Some Sfu"
  by code_simp

text \<open>A worker's failure event fails a P2P room that it was never assigned.\<close>

lemma foreign_failure:
  "mode_of sample_pair = Some P2p \<and>
   mode_of (v2_run 6 [V2Input (InputEvent 9 ''w1'' \<lparr>ev_request_id = 2,
     ev_event = EventFailure \<lparr>er_reason = ''x'', er_retryable = False\<rparr> (Some sample_rid) None None None\<rparr>)] sample_pair) =
     Some Failed"
  by code_simp

text \<open>
  A join that fails during the dwell leaves two members in the SFU for good: the deadline is
  cleared by the admission and not set again.
\<close>

definition dwelling :: v2_table where
  "dwelling = v2_run 6 [V2Register sample_rid 10 ''tok10'', V2Register sample_rid 15 ''tok15'',
     V2Remove 9 sample_rid 15 ''tok15'', leave_result 4 15 1 User] sample_sfu"

lemma failed_join_stays_sfu:
  "v2_poll_timeout dwelling = Some 2006 \<and>
   (let t = v2_run 6 [V2Admit 5 sample_rid 30 ''tok30'', failed_result 9 5] dwelling in
    v2_occupancy sample_rid t = (2, Sfu) \<and> v2_poll_timeout t = None)"
  by code_simp

text \<open>A disconnect leave that the worker rejects keeps an unregistered member without a deadline.\<close>

lemma rejected_leave_stays:
  "(let t = v2_run 6 [V2Register sample_rid 10 ''tok10'', V2Register sample_rid 15 ''tok15'',
      V2Deregister sample_rid 15, failed_result 9 4] sample_sfu in
    v2_occupancy sample_rid t = (3, Sfu) \<and> v2_poll_timeout t = None)"
  by code_simp

text \<open>
  The last member leaves while an admission waits for the worker, then the worker expires: an
  empty failed room is left, to which nobody is admitted any more.
\<close>

lemma empty_failed_room:
  "(let t = v2_run 6 [V2Remove 7 sample_rid 15 ''tok15'', leave_result 4 15 1 User,
      V2Remove 8 sample_rid 20 ''tok20'', leave_result 5 20 2 User, V2Register sample_rid 10 ''tok10'',
      V2Admit 9 sample_rid 30 ''tok30'', V2Deregister sample_rid 10, leave_result 7 10 2 Disconnected,
      V2Input (InputDisconnected 9 ''w1'' 6)] sample_sfu;
      t' = v2_run 100 [V2Timeout] t in
    v2_occupancy sample_rid t' = (0, Failed) \<and> v2_room_count t' = 1 \<and> v2_poll_timeout t' = None \<and>
    snd (v2_exec 101 (V2Admit 10 sample_rid 40 ''tok40'') t') = Err ''WORKER_UNAVAILABLE'')"
  by code_simp

text \<open>A failed room whose members have all been removed still counts against its worker.\<close>

definition abandoned :: v2_table where
  "abandoned = v2_run 6 [V2Input (InputRegister 9 ''w1'' 4 sample_cap), failed_result 9 2,
     V2Remove 5 sample_rid 20 ''tok20'', V2Remove 6 sample_rid 10 ''tok10'', V2Remove 7 sample_rid 15 ''tok15'']
     sample_upgrading"

lemma failed_room_keeps_capacity:
  "vt_rooms abandoned = [] \<and> map (\<lambda>(k, w). (k, wk_assigned_rooms w, wk_assigned_clients w)) (vt_workers abandoned) =
     [(''w1'', [sample_rid], 3)]"
  by code_simp

text \<open>
  A join left over from a room of the same id counts for the next one's upgrade: the room is
  committed to the SFU although the worker never acknowledged the join of client 15.
\<close>

lemma stale_join_counts:
  "mode_of (v2_run 6 [V2Input (InputEvent 9 ''w1'' \<lparr>ev_request_id = 3, ev_event = EventHealth sample_health\<rparr>),
     V2Admit 11 sample_rid 20 ''tok20'', V2Admit 12 sample_rid 10 ''tok10'', V2Admit 13 sample_rid 15 ''tok15'',
     sample_ack 10 2 1 1, sample_ack 10 4 1 3, sample_ack 20 4 1 4] abandoned) = Some Sfu"
  by code_simp

text \<open>
  And when one of the upgrade's own joins is then refused, its abort trips over the stray client:
  the upgrade is gone, but its admission is never answered.
\<close>

lemma abort_unanswered:
  "case v2_exec 6 (failed_result 9 3) (v2_run 6 [V2Input (InputEvent 9 ''w1'' \<lparr>ev_request_id = 3,
       ev_event = EventHealth sample_health\<rparr>), V2Admit 11 sample_rid 20 ''tok20'', V2Admit 12 sample_rid 30 ''tok30'',
     V2Admit 13 sample_rid 15 ''tok15'', sample_ack 10 2 1 1] abandoned) of
   (t, res) \<Rightarrow> res = Err ''CLIENT_NOT_FOUND'' \<and>
     map_option vr_upgrade (map_of (vt_rooms t) sample_rid) = Some None \<and>
     list_all (\<lambda>a. case a of AdmissionCompleted req _ \<Rightarrow> req \<noteq> 13 | _ \<Rightarrow> True) (vt_actions t)"
  by code_simp

end
