(* ===== verification/Room_Sizes.thy ===== *)
theory Room_Sizes
  imports Room_Table
begin

text \<open>
  Counting the frames on the planes of the V1 table: a poll takes exactly one away, and the
  operations that relay or register do not touch what is to be read. The drain loops over the
  table end because of this.
\<close>

section \<open>Polls\<close>

text \<open>A poll takes one message out of the rooms, so the drain loops end.\<close>

lemma scan_poll_size:
  assumes "\<And>v v' x. p v = (v', Some x) \<Longrightarrow> sz v = Suc (sz v')" "\<And>v v'. p v = (v', None) \<Longrightarrow> sz v' = sz v"
  shows "scan_poll p m = (m', r) \<Longrightarrow> hm_size sz m = hm_size sz m' + (case r of None \<Rightarrow> 0 | Some _ \<Rightarrow> 1)"
proof (induction m arbitrary: m' r)
  case Nil
  then show ?case by (simp add: hm_size_def)
next
  case (Cons e m)
  obtain k v where e: "e = (k, v)" by (cases e)
  obtain v' x where p: "p v = (v', x)" by (cases "p v")
  obtain m1 r1 where s: "scan_poll p m = (m1, r1)" by (cases "scan_poll p m")
  show ?case
    using Cons.prems Cons.IH [OF s] assms p
    by (cases x) (auto simp: e s hm_size_def)
qed

lemma client_poll_sizes:
  "client_poll_write c = (c', x) \<Longrightarrow> length (cl_writes c) = length (cl_writes c') + (case x of None \<Rightarrow> 0 | Some _ \<Rightarrow> 1)"
  "client_poll_read c = (c', x) \<Longrightarrow> length (cl_reads c) = length (cl_reads c') + (case x of None \<Rightarrow> 0 | Some _ \<Rightarrow> 1)"
  by (auto simp: client_poll_write_def client_poll_read_def split: list.splits)

lemma room_poll_sizes:
  "room_poll_write r = (r', x) \<Longrightarrow> room_writes_size r = room_writes_size r' + (case x of None \<Rightarrow> 0 | Some _ \<Rightarrow> 1)"
  "room_poll_read r = (r', x) \<Longrightarrow> room_reads_size r = room_reads_size r' + (case x of None \<Rightarrow> 0 | Some _ \<Rightarrow> 1)"
  using scan_poll_size [of client_poll_write "\<lambda>c. length (cl_writes c)"]
    scan_poll_size [of client_poll_read "\<lambda>c. length (cl_reads c)"]
  by (fastforce simp: room_poll_write_def room_poll_read_def room_writes_size_def room_reads_size_def
      dest: client_poll_sizes split: prod.splits)+

lemma table_poll_sizes:
  "table_poll_write t = (t', x) \<Longrightarrow> table_writes_size t = table_writes_size t' + (case x of None \<Rightarrow> 0 | Some _ \<Rightarrow> 1)"
  "table_poll_read t = (t', x) \<Longrightarrow> table_reads_size t = table_reads_size t' + (case x of None \<Rightarrow> 0 | Some _ \<Rightarrow> 1)"
  using scan_poll_size [of room_poll_write room_writes_size]
    scan_poll_size [of room_poll_read room_reads_size]
  by (fastforce simp: table_poll_write_def table_poll_read_def table_writes_size_def table_reads_size_def
      dest: room_poll_sizes split: prod.splits)+

section \<open>The read plane\<close>

text \<open>Sending in a V1 room leaves the read plane alone, so the relay loop of \<^verbatim>\<open>send\<close> ends.\<close>

lemma room_put_reads:
  "room_reads_size (room_put cid c r) + (case map_of (rm_clients r) cid of None \<Rightarrow> 0 | Some d \<Rightarrow> length (cl_reads d)) =
     room_reads_size r + length (cl_reads c)"
  by (simp add: room_reads_size_def room_put_def hm_size_put)

lemma room_put_reads_same:
  "map_of (rm_clients r) cid = Some d \<Longrightarrow> length (cl_reads c) = length (cl_reads d) \<Longrightarrow>
     room_reads_size (room_put cid c r) = room_reads_size r"
  using room_put_reads [of cid c r] by simp

lemma room_client_reads:
  assumes "room_client now cid r = (r', res)"
  shows "room_reads_size r' = room_reads_size r"
proof (cases "map_of (rm_clients r) cid")
  case None
  with assms room_put_reads [of cid "client_new cid (rm_id r) (Some (now + rm_register_timeout r))" r]
  show ?thesis by (auto simp: room_client_def client_new_def split: if_splits)
next
  case (Some c)
  then have "hm_contains (rm_clients r) cid" by (metis hm_keys_iff option.distinct(1))
  with assms show ?thesis by (simp add: room_client_def)
qed

lemma client_send_reads:
  "client_send s oc msg = (s', oc', res) \<Longrightarrow> cl_reads s' = cl_reads s \<and> cl_reads oc' = cl_reads oc"
  "client_enqueue msg s = (s', res') \<Longrightarrow> cl_reads s' = cl_reads s"
  by (auto simp: client_send_def client_enqueue_def client_handle_write_def split: if_splits prod.splits)

lemma room_send_reads:
  assumes "room_send now src msg r = (r', res)"
  shows "room_reads_size r' = room_reads_size r"
proof -
  obtain r1 res1 where r1: "room_client now src r = (r1, res1)" by force
  have "room_reads_size r' = room_reads_size r1"
    using assms r1
    by (auto simp: room_send_def room_put_sel room_put_reads_same dest!: client_send_reads other_key_Some
        split: sum.splits if_splits option.splits prod.splits)
  with room_client_reads [OF r1] show ?thesis by simp
qed

lemma room_register_reads:
  assumes "room_register now cid r = (r', res)"
  shows "room_reads_size r' = room_reads_size r"
proof -
  obtain r1 res1 where r1: "room_client now cid r = (r1, res1)" by force
  have queued: "cl_reads s' = cl_reads s \<and> cl_reads oc' = cl_reads oc" if "client_send_queued s oc = (s', oc', x)" for s oc s' oc' x
    using that by (auto simp: client_send_queued_def deliver_all_eq split: if_splits)
  have reg: "cl_reads c' = cl_reads c" if "client_register c = (c', x)" for c c' x
    using that by (auto simp: client_register_def client_set_timer_def split: if_splits)
  have "room_reads_size r' = room_reads_size r1"
    using assms r1
    by (auto simp: room_register_def room_put_sel room_put_reads_same Let_def dest!: queued reg other_key_Some
        split: sum.splits if_splits option.splits prod.splits)
  with room_client_reads [OF r1] show ?thesis by simp
qed

lemma on_room_reads:
  assumes "\<And>r. room_reads_size (fst (f r)) = room_reads_size r"
  shows "table_reads_size (fst (on_room rid f t)) = table_reads_size t"
proof -
  let ?r = "fst (f (room_or_new rid t))"
  have new: "room_reads_size (room_new rid d) = 0" for d
    by (simp add: room_reads_size_def room_new_def hm_size_def)
  have "map_of (rt_rooms (table_room rid t)) rid = Some (room_or_new rid t)"
    by (simp add: room_or_new_def)
  with hm_size_put [of room_reads_size rid ?r "rt_rooms (table_room rid t)"] assms [of "room_or_new rid t"]
  have "table_reads_size (fst (on_room rid f t)) = hm_size room_reads_size (rt_rooms (table_room rid t))"
    by (simp add: table_reads_size_def on_room_eq)
  also have "\<dots> = table_reads_size t"
    using hm_size_put [of room_reads_size rid "room_new rid (rt_register_timeout t)" "rt_rooms t"]
    by (auto simp: table_room_def table_put_def table_reads_size_def new split: option.splits)
  finally show ?thesis .
qed

lemma table_send_reads: "table_send now rid src msg t = (t', res) \<Longrightarrow> table_reads_size t' = table_reads_size t"
  using on_room_reads [of "room_send now src msg" rid t] room_send_reads
  by (metis fst_conv prod.collapse table_send_def)

lemma table_register_reads: "table_register now rid cid t = (t', res) \<Longrightarrow> table_reads_size t' = table_reads_size t"
  using on_room_reads [of "room_register now cid" rid t] room_register_reads
  by (metis fst_conv prod.collapse table_register_def)

text \<open>A poll of one plane leaves the other alone; a frame from a browser is one to read.\<close>

lemma scan_poll_other:
  assumes "\<And>v v' x. p v = (v', x) \<Longrightarrow> sz v' = sz v"
  shows "scan_poll p m = (m', r) \<Longrightarrow> hm_size sz m' = hm_size sz m"
proof (induction m arbitrary: m' r)
  case Nil
  then show ?case by (simp add: hm_size_def)
next
  case (Cons e m)
  obtain k v where e: "e = (k, v)" by (cases e)
  obtain v' x where p: "p v = (v', x)" by (cases "p v")
  obtain m1 r1 where s: "scan_poll p m = (m1, r1)" by (cases "scan_poll p m")
  show ?case
    using Cons.prems Cons.IH [OF s] assms [OF p] p by (cases x) (auto simp: e s hm_size_def)
qed

lemma table_poll_write_reads:
  assumes "table_poll_write t = (t', x)"
  shows "table_reads_size t' = table_reads_size t"
proof -
  have c: "length (cl_reads c') = length (cl_reads c)" if "client_poll_write c = (c', x)" for c c' x
    using that by (auto simp: client_poll_write_def split: list.splits)
  have r: "room_reads_size r' = room_reads_size r" if p: "room_poll_write r = (r', x)" for r r' x
  proof -
    obtain m where m: "scan_poll client_poll_write (rm_clients r) = (m, x)" "r' = r\<lparr>rm_clients := m\<rparr>"
      using p by (auto simp: room_poll_write_def split: prod.splits)
    from scan_poll_other [where sz = "\<lambda>c. length (cl_reads c)", OF c m(1)]
    show ?thesis by (simp add: room_reads_size_def m(2))
  qed
  obtain m where m: "scan_poll room_poll_write (rt_rooms t) = (m, x)" "t' = t\<lparr>rt_rooms := m\<rparr>"
    using assms by (auto simp: table_poll_write_def split: prod.splits)
  from scan_poll_other [where sz = room_reads_size, OF r m(1)]
  show ?thesis by (simp add: table_reads_size_def m(2))
qed

lemma table_poll_read_writes:
  assumes "table_poll_read t = (t', x)"
  shows "table_writes_size t' = table_writes_size t"
proof -
  have c: "length (cl_writes c') = length (cl_writes c)" if "client_poll_read c = (c', x)" for c c' x
    using that by (auto simp: client_poll_read_def split: list.splits)
  have r: "room_writes_size r' = room_writes_size r" if p: "room_poll_read r = (r', x)" for r r' x
  proof -
    obtain m where m: "scan_poll client_poll_read (rm_clients r) = (m, x)" "r' = r\<lparr>rm_clients := m\<rparr>"
      using p by (auto simp: room_poll_read_def split: prod.splits)
    from scan_poll_other [where sz = "\<lambda>c. length (cl_writes c)", OF c m(1)]
    show ?thesis by (simp add: room_writes_size_def m(2))
  qed
  obtain m where m: "scan_poll room_poll_read (rt_rooms t) = (m, x)" "t' = t\<lparr>rt_rooms := m\<rparr>"
    using assms by (auto simp: table_poll_read_def split: prod.splits)
  from scan_poll_other [where sz = room_writes_size, OF r m(1)]
  show ?thesis by (simp add: table_writes_size_def m(2))
qed

lemma room_handle_read_sizes:
  assumes "room_handle_read m r = (r', x)"
  shows "room_writes_size r' = room_writes_size r \<and> room_reads_size r' \<le> Suc (room_reads_size r)"
proof (cases "map_of (rm_clients r) (msg_clientid m)")
  case None
  with assms show ?thesis by (simp add: room_handle_read_def)
next
  case (Some c)
  let ?c = "c\<lparr>cl_reads := cl_reads c @ [m]\<rparr>"
  have "r' = room_put (msg_clientid m) ?c r"
    using assms by (auto simp: room_handle_read_def client_handle_read_def Some)
  then show ?thesis
    using hm_size_update [OF Some, of "\<lambda>c. length (cl_writes c)" ?c] hm_size_update [OF Some, of "\<lambda>c. length (cl_reads c)" ?c]
    by (simp add: room_put_def room_writes_size_def room_reads_size_def)
qed

lemma table_handle_read_sizes:
  assumes "table_handle_read m t = (t', res)"
  shows "table_writes_size t' = table_writes_size t \<and> table_reads_size t' \<le> Suc (table_reads_size t)"
proof (cases "map_of (rt_rooms t) (msg_roomid m)")
  case None
  with assms show ?thesis by (simp add: table_handle_read_def)
next
  case (Some r)
  obtain r' x where r': "room_handle_read m r = (r', x)" by force
  with assms Some have "t' = table_put (msg_roomid m) r' t" by (simp add: table_handle_read_def)
  with room_handle_read_sizes [OF r'] show ?thesis
    using hm_size_update [OF Some, of room_writes_size r'] hm_size_update [OF Some, of room_reads_size r']
    by (simp add: table_put_def table_writes_size_def table_reads_size_def)
qed

end
