(* ===== verification/Decimal.thy ===== *)
theory Decimal
  imports Prelude
begin

text \<open>
  Decimal spellings of \<^verbatim>\<open>u64\<close> (\<^verbatim>\<open>canonical_u64\<close> of \<^verbatim>\<open>src/collider.rs\<close>): the standard library's
  \<^verbatim>\<open>u64::to_string\<close> and \<^verbatim>\<open>str::parse\<close>, and the strict parser the browser protocol uses for
  client ids and epochs.
\<close>

section \<open>Digits\<close>

definition digit_char :: "nat \<Rightarrow> char" where
  "digit_char d = char_of (48 + int d)"

definition is_ascii_digit :: "char \<Rightarrow> bool" where
  "is_ascii_digit c \<longleftrightarrow> 48 \<le> (of_char c :: nat) \<and> (of_char c :: nat) \<le> 57"

definition digit_value :: "char \<Rightarrow> nat" where
  "digit_value c = of_char c - 48"

text \<open>\<^verbatim>\<open>u64::to_string\<close>: no sign, no leading zero.\<close>

fun decimal :: "nat \<Rightarrow> string" where
  "decimal n = (if n < 10 then [digit_char n] else decimal (n div 10) @ [digit_char (n mod 10)])"

declare decimal.simps [simp del]

definition u64_to_string :: "u64 \<Rightarrow> string" where
  "u64_to_string w = decimal (unat w)"

text \<open>\<^verbatim>\<open>str::parse::<u64>\<close>: an optional plus sign, at least one digit, no overflow.\<close>

definition digits_value :: "string \<Rightarrow> nat" where
  "digits_value s = foldl (\<lambda>n c. 10 * n + digit_value c) 0 s"

definition digits_int :: "string \<Rightarrow> int" where
  "digits_int s = foldl (\<lambda>n c. 10 * n + int (digit_value c)) 0 s"

definition parse_u64 :: "string \<Rightarrow> u64 option" where
  "parse_u64 s =
     (let ds = (case s of c # cs \<Rightarrow> if c = CHR ''+'' then cs else s | [] \<Rightarrow> s) in
      if ds = [] \<or> \<not> list_all is_ascii_digit ds then None
      else if digits_int ds < 2 ^ 64 then Some (word_of_int (digits_int ds)) else None)"

definition canonical_u64 :: "string \<Rightarrow> u64 option" where
  "canonical_u64 s =
     (if s = ''0'' then Some 0
      else if s = [] \<or> hd s = CHR ''0'' \<or> \<not> list_all is_ascii_digit s then None
      else parse_u64 s)"

section \<open>The canonical spelling\<close>

lemma digit_char_values [simp]:
  "d < 10 \<Longrightarrow> is_ascii_digit (digit_char d)" "d < 10 \<Longrightarrow> digit_value (digit_char d) = d"
  "d < 10 \<Longrightarrow> digit_char d = CHR ''0'' \<longleftrightarrow> d = 0"
proof -
  have *: "of_char (digit_char d) = (48 + d :: nat)" if "d < 10"
  proof -
    have "(of_char (digit_char d) :: int) = 48 + int d" using that by (simp add: digit_char_def)
    then have "int (of_char (digit_char d)) = 48 + int d" by (simp only: of_nat_of_char)
    then show ?thesis by linarith
  qed
  show "d < 10 \<Longrightarrow> is_ascii_digit (digit_char d)" "d < 10 \<Longrightarrow> digit_value (digit_char d) = d"
    by (simp_all add: is_ascii_digit_def digit_value_def *)
  assume d: "d < 10"
  have "digit_char d = CHR ''0'' \<longleftrightarrow> (of_char (digit_char d) :: nat) = of_char (CHR ''0'')"
    by (simp only: of_char_eq_iff)
  with d show "digit_char d = CHR ''0'' \<longleftrightarrow> d = 0" by (simp add: *)
qed

lemma digit_char_value: "is_ascii_digit c \<Longrightarrow> digit_value c < 10 \<and> digit_char (digit_value c) = c"
  by (auto simp: is_ascii_digit_def digit_value_def digit_char_def)

lemma digits_value_snoc: "digits_value (s @ [c]) = 10 * digits_value s + digit_value c"
  by (simp add: digits_value_def)

lemma digits_int_eq: "digits_int s = int (digits_value s)"
  by (induction s rule: rev_induct) (simp_all add: digits_int_def digits_value_def)

lemma decimal_small: "n < 10 \<Longrightarrow> decimal n = [digit_char n]"
  by (simp add: decimal.simps)

lemma decimal_zero [simp]: "decimal 0 = ''0''"
  by (simp add: decimal_small)

lemma decimal_big: "\<not> n < 10 \<Longrightarrow> decimal n = decimal (n div 10) @ [digit_char (n mod 10)]"
  by (simp add: decimal.simps)

lemma decimal_digits:
  "decimal n \<noteq> [] \<and> list_all is_ascii_digit (decimal n) \<and> digits_value (decimal n) = n \<and>
   (hd (decimal n) = CHR ''0'' \<longleftrightarrow> n = 0)"
proof (induction n rule: decimal.induct)
  case (1 n)
  show ?case
  proof (cases "n < 10")
    case True
    then show ?thesis by (simp add: decimal_small digits_value_def)
  next
    case False
    then have "n div 10 \<noteq> 0" "n \<noteq> 0" by simp_all
    with 1 [OF False] show ?thesis by (simp add: decimal_big [OF False] digits_value_snoc)
  qed
qed

lemma decimal_digits_value:
  "s \<noteq> [] \<Longrightarrow> list_all is_ascii_digit s \<Longrightarrow> hd s \<noteq> CHR ''0'' \<Longrightarrow> decimal (digits_value s) = s \<and> digits_value s \<noteq> 0"
proof (induction s rule: rev_induct)
  case Nil
  then show ?case by simp
next
  case (snoc c s)
  have c: "digit_value c < 10" "digit_char (digit_value c) = c"
    using digit_char_value [of c] snoc.prems(2) by simp_all
  show ?case
  proof (cases "s = []")
    case True
    with c snoc.prems(3) show ?thesis
      by (auto simp: digits_value_def decimal_small dest: digit_char_values(3))
  next
    case False
    with snoc have "decimal (digits_value s) = s" "digits_value s \<noteq> 0" by simp_all
    with c show ?thesis by (simp add: digits_value_snoc decimal_big)
  qed
qed

text \<open>
  C40. A number has one spelling in the browser protocol: the strict parser accepts a text as
  the number \<open>w\<close> exactly when it is \<^verbatim>\<open>w.to_string()\<close>. No sign, leading zero, blank or
  overflowing number is read as a client id or an epoch, and every id the server prints is
  read back.
\<close>

theorem canonical_u64_exact: "canonical_u64 s = Some w \<longleftrightarrow> s = u64_to_string w"
proof
  assume s: "s = u64_to_string w"
  have w: "uint w < 2 ^ 64" using unsigned_less [of w, where ?'a = int] by simp
  show "canonical_u64 s = Some w"
  proof (cases "w = 0")
    case True
    then show ?thesis by (simp add: s u64_to_string_def canonical_u64_def)
  next
    case False
    obtain c cs where c: "s = c # cs" using decimal_digits [of "unat w"] by (cases s) (simp_all add: s u64_to_string_def)
    have d: "decimal (unat w) = c # cs" using c by (simp add: s u64_to_string_def)
    have "c \<noteq> CHR ''0''" "list_all is_ascii_digit (c # cs)" "digits_value (c # cs) = unat w"
      using decimal_digits [of "unat w"] False unfolding d by (simp_all add: unat_eq_0)
    moreover from this(2) have "c \<noteq> CHR ''+''" by (auto simp: is_ascii_digit_def)
    ultimately show ?thesis using w by (simp add: canonical_u64_def parse_u64_def c digits_int_eq)
  qed
next
  assume s: "canonical_u64 s = Some w"
  show "s = u64_to_string w"
  proof (cases "s = ''0''")
    case True
    with s show ?thesis by (simp add: canonical_u64_def u64_to_string_def)
  next
    case False
    with s have d: "s \<noteq> []" "list_all is_ascii_digit s" "hd s \<noteq> CHR ''0''" "parse_u64 s = Some w"
      by (simp_all add: canonical_u64_def split: if_splits)
    obtain c cs where c: "s = c # cs" using d(1) by (cases s) simp_all
    have "c \<noteq> CHR ''+''" using d(2) by (auto simp: c is_ascii_digit_def)
    then have "(case s of c # cs \<Rightarrow> if c = CHR ''+'' then cs else s | [] \<Rightarrow> s) = s" by (simp add: c)
    with d(1,2,4) have "int (digits_value s) < 2 ^ 64" "w = word_of_int (int (digits_value s))"
      unfolding parse_u64_def Let_def digits_int_eq by (simp_all only: not_True_eq_False if_False split: if_splits) simp_all
    then have "unat w = digits_value s" by (simp add: unsigned_of_nat take_bit_nat_eq_self)
    with decimal_digits_value [OF d(1-3)] show ?thesis by (simp add: u64_to_string_def)
  qed
qed

end
