(* ===== verification/Collider.thy ===== *)
theory Collider
  imports Room_Sizes V2_Timeout V2_Token Messages Decimal
begin

text \<open>
  The signaling authority as a whole (\<^verbatim>\<open>src/collider.rs\<close>): the V1 and V2 tables, the browser
  sessions and the maps from clients to connections, and every input the driver can hand in.
  The JSON codec \<open>js\<close> and the token codec \<open>lib\<close> are parameters. Log statements are left out.
\<close>

section \<open>Inputs, outputs and state\<close>

datatype browser_input =
    BrowserConnected connection_id
  | BrowserText connection_id string instant
  | BrowserDisconnected connection_id instant

datatype browser_output =
    OutText connection_id string
  | OutClose connection_id
  | OutSfu sfu_output

datatype authority_operation =
    OpAdmit room_id client_id bool instant
  | OpRemove room_id client_id
  | OpOccupancy room_id
  | OpInject room_id client_id string instant
  | OpAdmitV2 uuid member_id string instant
  | OpRemoveV2 uuid member_id string
  | OpOccupancyV2 uuid
  | OpStatus

record authority_command =
  ac_request_id :: request_id
  ac_operation :: authority_operation

record status_snapshot =
  st_rooms :: nat
  st_v2_rooms :: nat
  st_clients :: nat
  st_websocket_connections :: nat
  st_total_websocket_connections :: u64
  st_websocket_errors :: u64
  st_connected_sfu_instances :: nat
  st_ready_sfu_instances :: nat

datatype authority_result =
    Admitted bool "string list"
  | Removed
  | Occupancy nat
  | Injected
  | AdmittedV2 room_mode u64 string "bool option"
  | RemovedV2
  | OccupancyV2 nat room_mode
  | StatusIs status_snapshot
  | ResultError string

record authority_response =
  ar_request_id :: request_id
  ar_result :: authority_result

datatype session =
    SessionConnected
  | RegisteredV1 room_id client_id
  | RegisteredV2 uuid member_id

record collider =
  co_rooms :: room_table
  co_v2_rooms :: v2_table
  co_sessions :: "(connection_id, session) hashmap"
  co_connections :: "(room_id \<times> client_id, connection_id) hashmap"
  co_v2_connections :: "(uuid \<times> member_id, connection_id) hashmap"
  co_browser_outputs :: "browser_output list"
  co_authority_responses :: "authority_response list"
  co_total_websocket_connections :: u64
  co_websocket_errors :: u64

definition collider_new :: "duration \<Rightarrow> collider" where
  "collider_new register_timeout =
     \<lparr>co_rooms = table_new register_timeout, co_v2_rooms = v2_new register_timeout,
      co_sessions = [], co_connections = [], co_v2_connections = [], co_browser_outputs = [],
      co_authority_responses = [], co_total_websocket_connections = 0, co_websocket_errors = 0\<rparr>"

definition collider_set_downgrade_dwell :: "duration \<Rightarrow> collider \<Rightarrow> collider" where
  "collider_set_downgrade_dwell dwell c =
     c\<lparr>co_v2_rooms := set_downgrade_dwell dwell (co_v2_rooms c)\<rparr>"

section \<open>Small operations\<close>

definition push_output :: "browser_output \<Rightarrow> collider \<Rightarrow> collider" where
  "push_output out c = c\<lparr>co_browser_outputs := co_browser_outputs c @ [out]\<rparr>"

definition push_response :: "request_id \<Rightarrow> authority_result \<Rightarrow> collider \<Rightarrow> collider" where
  "push_response req res c = c\<lparr>co_authority_responses := co_authority_responses c @
     [\<lparr>ar_request_id = req, ar_result = res\<rparr>]\<rparr>"

definition fail_connection :: "'v json \<Rightarrow> connection_id \<Rightarrow> string \<Rightarrow> collider \<Rightarrow> collider" where
  "fail_connection js conn error c =
     push_output (OutClose conn)
       (push_output (OutText conn (server_err js error))
         (c\<lparr>co_websocket_errors := sat_add (co_websocket_errors c) 1\<rparr>))"

definition close_client_connection :: "room_id \<Rightarrow> client_id \<Rightarrow> collider \<Rightarrow> collider" where
  "close_client_connection rid cid c =
     (case map_of (co_connections c) (rid, cid) of
        None \<Rightarrow> c
      | Some conn \<Rightarrow>
          push_output (OutClose conn)
            (c\<lparr>co_connections := hm_remove (rid, cid) (co_connections c),
               co_sessions := hm_remove conn (co_sessions c)\<rparr>))"

definition close_v2_client_connection :: "uuid \<Rightarrow> member_id \<Rightarrow> collider \<Rightarrow> collider" where
  "close_v2_client_connection rid cid c =
     (case map_of (co_v2_connections c) (rid, cid) of
        None \<Rightarrow> c
      | Some conn \<Rightarrow>
          push_output (OutClose conn)
            (c\<lparr>co_v2_connections := hm_remove (rid, cid) (co_v2_connections c),
               co_sessions := hm_remove conn (co_sessions c)\<rparr>))"

text \<open>\<^verbatim>\<open>if let Some(&connection_id) = self.v2_connections.get(&key) { push_back(Text ..) }\<close>\<close>

definition text_to_member :: "uuid \<Rightarrow> member_id \<Rightarrow> string \<Rightarrow> collider \<Rightarrow> collider" where
  "text_to_member rid cid text c =
     (case map_of (co_v2_connections c) (rid, cid) of
        None \<Rightarrow> c | Some conn \<Rightarrow> push_output (OutText conn text) c)"

definition push_promotion :: "'v json \<Rightarrow> token_lib \<Rightarrow> promotion \<Rightarrow> collider \<Rightarrow> collider" where
  "push_promotion js lib p c =
     text_to_member (pr_room_id p) (pr_client_id p)
       (to_wire js (WPromoted \<lparr>pm_control = ''p2p-promote'',
          pm_roomid = format_room_token lib (pr_room_id p),
          pm_epoch = u64_to_string (pr_signal_epoch p), pm_is_initiator = True\<rparr>)) c"

definition canonical_json_u64 :: "'v json \<Rightarrow> 'v \<Rightarrow> u64 option" where
  "canonical_json_u64 js v = (case json_as_str js v of None \<Rightarrow> None | Some s \<Rightarrow> canonical_u64 s)"

definition room_mode_name :: "room_mode \<Rightarrow> string" where
  "room_mode_name mode =
     (case mode of P2p \<Rightarrow> ''p2p'' | Upgrading \<Rightarrow> ''upgrading'' | Sfu \<Rightarrow> ''sfu'' | Failed \<Rightarrow> ''failed'')"

section \<open>Draining the V1 rooms\<close>

text \<open>\<^verbatim>\<open>while let Some(message) = self.rooms.poll_write() { .. }\<close>\<close>

function drain_room_writes :: "'v json \<Rightarrow> collider \<Rightarrow> collider" where
  "drain_room_writes js c =
     (case table_poll_write (co_rooms c) of
        (rooms, None) \<Rightarrow> c\<lparr>co_rooms := rooms\<rparr>
      | (rooms, Some m) \<Rightarrow>
          drain_room_writes js
            (case map_of (co_connections c) (msg_roomid m, msg_clientid m) of
               None \<Rightarrow> c\<lparr>co_rooms := rooms\<rparr>
             | Some conn \<Rightarrow> push_output (OutText conn (server_msg js (msg_msg m))) (c\<lparr>co_rooms := rooms\<rparr>)))"
  by pat_completeness auto

termination
  by (relation "measure (\<lambda>(js, c). table_writes_size (co_rooms c))")
    (auto simp: push_output_def dest!: sym [THEN table_poll_sizes(1)] split: option.splits)

text \<open>
  \<^verbatim>\<open>while let Some(message) = self.rooms.poll_read() { self.rooms.send(..)?; }\<close>
\<close>

function relay_reads :: "instant \<Rightarrow> room_table \<Rightarrow> room_table \<times> unit result" where
  "relay_reads now t =
     (case table_poll_read t of
        (t1, None) \<Rightarrow> (t1, Ok ())
      | (t1, Some m) \<Rightarrow>
         (case table_send now (msg_roomid m) (msg_clientid m) (msg_msg m) t1 of
            (t2, Inl e) \<Rightarrow> (t2, Inl e)
          | (t2, Inr _) \<Rightarrow> relay_reads now t2))"
  by pat_completeness auto

termination
  by (relation "measure (\<lambda>(now, t). table_reads_size t)")
    (auto dest!: sym [of "(_, _)" "table_poll_read _"] sym [of "(_, _)" "table_send _ _ _ _ _"]
      dest!: table_poll_sizes(2) table_send_reads)

declare drain_room_writes.simps [simp del] relay_reads.simps [simp del]

section \<open>Actions of the V2 authority\<close>

definition admission_reply :: "string + admission \<Rightarrow> authority_result" where
  "admission_reply r =
     (case r of
        Inl e \<Rightarrow> ResultError e
      | Inr a \<Rightarrow> AdmittedV2 (ad_mode a) (ad_signal_epoch a) (ad_admission_token a) (ad_is_initiator a))"

definition handle_action :: "'v json \<Rightarrow> token_lib \<Rightarrow> action \<Rightarrow> collider \<Rightarrow> collider" where
  "handle_action js lib a c =
     (case a of
        ActionSfu out \<Rightarrow> push_output (OutSfu out) c
      | AdmissionCompleted areq res \<Rightarrow> push_response areq (admission_reply res) c
      | RemovalCompleted areq rid cid res \<Rightarrow>
          (case res of
             Inr _ \<Rightarrow> push_response areq RemovedV2 (close_v2_client_connection rid cid c)
           | Inl e \<Rightarrow> push_response areq (ResultError e) c)
      | Upgraded rid epoch existing \<Rightarrow>
          fold (\<lambda>cid. text_to_member rid cid (to_wire js (WUpgrade \<lparr>ug_control = ''sfu-upgrade'',
                 ug_roomid = format_room_token lib rid, ug_epoch = u64_to_string epoch\<rparr>))) existing c
      | Downgraded rid epoch initiator clients \<Rightarrow>
          fold (\<lambda>cid. text_to_member rid cid (to_wire js (WDowngrade \<lparr>dg_control = ''sfu-downgrade'',
                 dg_roomid = format_room_token lib rid, dg_epoch = u64_to_string epoch,
                 dg_is_initiator = (cid = initiator)\<rparr>))) clients c
      | Deliver d \<Rightarrow> text_to_member (de_room_id d) (de_client_id d) (server_msg js (de_message d)) c
      | RoomFailed rid clients reason \<Rightarrow>
          fold (\<lambda>cid. text_to_member rid cid (to_wire js (WRoomFailed \<lparr>rf_control = ''room-failed'',
                 rf_roomid = format_room_token lib rid, rf_reason = reason\<rparr>))) clients c)"

lemma push_sel [simp]:
  "co_rooms (push_output out c) = co_rooms c" "co_v2_rooms (push_output out c) = co_v2_rooms c"
  "co_sessions (push_output out c) = co_sessions c" "co_connections (push_output out c) = co_connections c"
  "co_v2_connections (push_output out c) = co_v2_connections c"
  "co_browser_outputs (push_output out c) = co_browser_outputs c @ [out]"
  "co_authority_responses (push_output out c) = co_authority_responses c"
  "co_total_websocket_connections (push_output out c) = co_total_websocket_connections c"
  "co_rooms (push_response req res c) = co_rooms c" "co_v2_rooms (push_response req res c) = co_v2_rooms c"
  "co_sessions (push_response req res c) = co_sessions c"
  "co_connections (push_response req res c) = co_connections c"
  "co_v2_connections (push_response req res c) = co_v2_connections c"
  "co_browser_outputs (push_response req res c) = co_browser_outputs c"
  by (simp_all add: push_output_def push_response_def)

lemma text_to_member_sel [simp]:
  "co_rooms (text_to_member rid cid text c) = co_rooms c"
  "co_v2_rooms (text_to_member rid cid text c) = co_v2_rooms c"
  "co_sessions (text_to_member rid cid text c) = co_sessions c"
  "co_connections (text_to_member rid cid text c) = co_connections c"
  "co_v2_connections (text_to_member rid cid text c) = co_v2_connections c"
  "co_authority_responses (text_to_member rid cid text c) = co_authority_responses c"
  by (simp_all add: text_to_member_def split: option.split)

lemma texts_to_members_sel [simp]:
  "co_rooms (fold (\<lambda>cid. text_to_member rid cid (f cid)) cids c) = co_rooms c"
  "co_v2_rooms (fold (\<lambda>cid. text_to_member rid cid (f cid)) cids c) = co_v2_rooms c"
  "co_sessions (fold (\<lambda>cid. text_to_member rid cid (f cid)) cids c) = co_sessions c"
  "co_connections (fold (\<lambda>cid. text_to_member rid cid (f cid)) cids c) = co_connections c"
  "co_v2_connections (fold (\<lambda>cid. text_to_member rid cid (f cid)) cids c) = co_v2_connections c"
  "co_authority_responses (fold (\<lambda>cid. text_to_member rid cid (f cid)) cids c) = co_authority_responses c"
  by (induction cids arbitrary: c) simp_all

lemma close_v2_sel [simp]:
  "co_rooms (close_v2_client_connection rid cid c) = co_rooms c"
  "co_v2_rooms (close_v2_client_connection rid cid c) = co_v2_rooms c"
  "co_connections (close_v2_client_connection rid cid c) = co_connections c"
  by (simp_all add: close_v2_client_connection_def split: option.split)

lemma handle_action_rooms [simp]:
  "co_v2_rooms (handle_action js lib a c) = co_v2_rooms c" "co_rooms (handle_action js lib a c) = co_rooms c"
  by (cases a; simp add: handle_action_def split: sum.split)+

text \<open>\<^verbatim>\<open>while let Some(action) = self.v2_rooms.poll_action() { .. }\<close>\<close>

function drain_v2_actions :: "'v json \<Rightarrow> token_lib \<Rightarrow> collider \<Rightarrow> collider" where
  "drain_v2_actions js lib c =
     (case v2_poll_action (co_v2_rooms c) of
        (rooms, None) \<Rightarrow> c\<lparr>co_v2_rooms := rooms\<rparr>
      | (rooms, Some a) \<Rightarrow> drain_v2_actions js lib (handle_action js lib a (c\<lparr>co_v2_rooms := rooms\<rparr>)))"
  by pat_completeness auto

termination
  by (relation "measure (\<lambda>(js, lib, c). length (vt_actions (co_v2_rooms c)))")
    (auto simp: v2_poll_action_def split: list.splits)

declare drain_v2_actions.simps [simp del]

lemma drain_idle: "vt_actions (co_v2_rooms c) = [] \<Longrightarrow> drain_v2_actions js lib c = c"
  by (simp add: drain_v2_actions.simps [of js lib c] v2_poll_action_def)

lemma drain_step:
  assumes "vt_actions (co_v2_rooms c) = a # as"
  shows "drain_v2_actions js lib c =
    drain_v2_actions js lib (handle_action js lib a (c\<lparr>co_v2_rooms := (co_v2_rooms c)\<lparr>vt_actions := as\<rparr>\<rparr>))"
  using assms by (simp add: drain_v2_actions.simps [of js lib c] v2_poll_action_def)

section \<open>Browser frames\<close>

definition is_registered_session :: "session option \<Rightarrow> bool" where
  "is_registered_session s =
     (case s of Some (RegisteredV1 _ _) \<Rightarrow> True | Some (RegisteredV2 _ _) \<Rightarrow> True | _ \<Rightarrow> False)"

text \<open>\<^verbatim>\<open>self.fail_connection(connection_id, error); return Ok(())\<close>\<close>

definition refuse :: "'v json \<Rightarrow> connection_id \<Rightarrow> string \<Rightarrow> collider \<Rightarrow> collider \<times> unit result" where
  "refuse js conn error c = (fail_connection js conn error c, Ok ())"

definition register_v1 ::
    "'v json \<Rightarrow> connection_id \<Rightarrow> 'v ws_client_msg \<Rightarrow> instant \<Rightarrow> collider \<Rightarrow> collider \<times> unit result" where
  "register_v1 js conn msg now c =
     (if is_registered_session (map_of (co_sessions c) conn)
      then refuse js conn ''Duplicated register request'' c
      else if ws_roomid msg = [] \<or> ws_clientid msg = []
      then refuse js conn (''Invalid register request: missing 'clientid' or 'roomid'' @ [CHR 0x27]) c
      else
        (case table_register now (ws_roomid msg) (ws_clientid msg) (co_rooms c) of
           (rooms, Inl Panic) \<Rightarrow> (c\<lparr>co_rooms := rooms\<rparr>, Panicked)
         | (rooms, Inl (Fail e)) \<Rightarrow> refuse js conn e (c\<lparr>co_rooms := rooms\<rparr>)
         | (rooms, Inr _) \<Rightarrow>
            (drain_room_writes js
               (c\<lparr>co_rooms := rooms,
                  co_sessions := hm_insert conn (RegisteredV1 (ws_roomid msg) (ws_clientid msg)) (co_sessions c),
                  co_connections := hm_insert (ws_roomid msg, ws_clientid msg) conn (co_connections c),
                  co_total_websocket_connections := sat_add (co_total_websocket_connections c) 1\<rparr>),
             Ok ())))"

definition registered_frame :: "token_lib \<Rightarrow> uuid \<Rightarrow> registration \<Rightarrow> wire" where
  "registered_frame lib rid reg =
     WRegistered \<lparr>rd_control = ''registered'', rd_roomid = format_room_token lib rid,
       rd_epoch = u64_to_string (rg_signal_epoch reg), rd_mode = room_mode_name (rg_mode reg),
       rd_is_initiator = rg_is_initiator reg\<rparr>"

definition register_v2 ::
    "'v json \<Rightarrow> token_lib \<Rightarrow> connection_id \<Rightarrow> 'v ws_client_msg \<Rightarrow> collider \<Rightarrow> collider \<times> unit result" where
  "register_v2 js lib conn msg c =
     (if is_registered_session (map_of (co_sessions c) conn)
      then refuse js conn ''Duplicated register request'' c
      else
        (case parse_room_token lib (ws_roomid msg) of
           None \<Rightarrow> refuse js conn ''INVALID_ROOM_ID'' c
         | Some rid \<Rightarrow>
            (case canonical_u64 (ws_clientid msg) of
               None \<Rightarrow> refuse js conn ''INVALID_CLIENT_ID'' c
             | Some cid \<Rightarrow>
                (if ws_token msg = [] then refuse js conn ''UNAUTHORIZED'' c
                 else
                   (case v2_register rid cid (ws_token msg) (co_v2_rooms c) of
                      (rooms, Inl Panic) \<Rightarrow> (c\<lparr>co_v2_rooms := rooms\<rparr>, Panicked)
                    | (rooms, Inl (Fail e)) \<Rightarrow> refuse js conn e (c\<lparr>co_v2_rooms := rooms\<rparr>)
                    | (rooms, Inr reg) \<Rightarrow>
                        (fold (\<lambda>message. push_output (OutText conn (server_msg js message)))
                           (rg_queued_messages reg)
                           (push_output (OutText conn (to_wire js (registered_frame lib rid reg)))
                             (c\<lparr>co_v2_rooms := rooms,
                                co_sessions := hm_insert conn (RegisteredV2 rid cid) (co_sessions c),
                                co_v2_connections := hm_insert (rid, cid) conn (co_v2_connections c),
                                co_total_websocket_connections := sat_add (co_total_websocket_connections c) 1\<rparr>)),
                         Ok ()))))))"

definition send_v1 ::
    "'v json \<Rightarrow> room_id \<Rightarrow> client_id \<Rightarrow> string \<Rightarrow> instant \<Rightarrow> collider \<Rightarrow> collider \<times> unit result" where
  "send_v1 js rid cid text now c =
     (case table_handle_read \<lparr>msg_roomid = rid, msg_clientid = cid, msg_msg = text\<rparr> (co_rooms c) of
        (rooms, Inl e) \<Rightarrow> (c\<lparr>co_rooms := rooms\<rparr>, Inl e)
      | (rooms, Inr _) \<Rightarrow>
         (case relay_reads now rooms of
            (rooms', Inl e) \<Rightarrow> (c\<lparr>co_rooms := rooms'\<rparr>, Inl e)
          | (rooms', Inr _) \<Rightarrow> (drain_room_writes js (c\<lparr>co_rooms := rooms'\<rparr>), Ok ())))"

definition send_v2 ::
    "'v json \<Rightarrow> token_lib \<Rightarrow> uuid \<Rightarrow> member_id \<Rightarrow> 'v ws_client_msg \<Rightarrow> collider \<Rightarrow> collider \<times> unit result" where
  "send_v2 js lib rid cid msg c =
     (case Option.bind (ws_epoch msg) (canonical_json_u64 js) of
        None \<Rightarrow> (c, Ok ())
      | Some epoch \<Rightarrow>
         (case v2_send rid cid epoch (ws_msg msg) (co_v2_rooms c) of
            (rooms, Inl e) \<Rightarrow> (c\<lparr>co_v2_rooms := rooms\<rparr>, Inl e)
          | (rooms, Inr res) \<Rightarrow>
             (let c1 = c\<lparr>co_v2_rooms := rooms\<rparr>;
                  c2 = (case res of
                          SendP2p (Some d) \<Rightarrow>
                            text_to_member (de_room_id d) (de_client_id d) (server_msg js (de_message d)) c1
                        | _ \<Rightarrow> c1)
              in (drain_v2_actions js lib c2, Ok ()))))"

definition collider_send ::
    "'v json \<Rightarrow> token_lib \<Rightarrow> connection_id \<Rightarrow> 'v ws_client_msg \<Rightarrow> instant \<Rightarrow> collider \<Rightarrow> collider \<times> unit result" where
  "collider_send js lib conn msg now c =
     (case map_of (co_sessions c) conn of
        None \<Rightarrow> refuse js conn ''Client not registered'' c
      | Some s \<Rightarrow>
         (if ws_msg msg = [] then refuse js conn (''Invalid send request: missing 'msg'' @ [CHR 0x27]) c
          else
            (case s of
               RegisteredV1 rid cid \<Rightarrow> send_v1 js rid cid (ws_msg msg) now c
             | RegisteredV2 rid cid \<Rightarrow> send_v2 js lib rid cid msg c
             | SessionConnected \<Rightarrow> refuse js conn ''Client not registered'' c)))"

definition handle_browser_text ::
    "'v json \<Rightarrow> token_lib \<Rightarrow> connection_id \<Rightarrow> string \<Rightarrow> instant \<Rightarrow> collider \<Rightarrow> collider \<times> unit result" where
  "handle_browser_text js lib conn text now c =
     (case json_from_str js text of
        Inl e \<Rightarrow> refuse js conn (''websocket.JSON.Receive error: '' @ e) c
      | Inr v \<Rightarrow>
         (case json_from_value js v of
            Inl e \<Rightarrow> refuse js conn (''websocket.JSON.Receive error: '' @ e) c
          | Inr msg \<Rightarrow>
             (if ws_cmd msg = ''register'' then
                (if ws_ver msg = Some 2 then register_v2 js lib conn msg c
                 else if ws_ver msg = None then register_v1 js conn msg now c
                 else refuse js conn ''INVALID_VERSION'' c)
              else if ws_cmd msg = ''send'' then collider_send js lib conn msg now c
              else refuse js conn (''Invalid message: unexpected 'cmd'' @ [CHR 0x27]) c)))"

definition disconnect ::
    "'v json \<Rightarrow> token_lib \<Rightarrow> connection_id \<Rightarrow> instant \<Rightarrow> collider \<Rightarrow> collider" where
  "disconnect js lib conn now c =
     (case map_of (co_sessions c) conn of
        None \<Rightarrow> c
      | Some s \<Rightarrow>
         (let c1 = c\<lparr>co_sessions := hm_remove conn (co_sessions c)\<rparr> in
          case s of
            RegisteredV1 rid cid \<Rightarrow>
              (if map_of (co_connections c1) (rid, cid) = Some conn
               then c1\<lparr>co_connections := hm_remove (rid, cid) (co_connections c1),
                       co_rooms := table_deregister now rid cid (co_rooms c1)\<rparr>
               else c1)
          | RegisteredV2 rid cid \<Rightarrow>
              (if map_of (co_v2_connections c1) (rid, cid) = Some conn
               then drain_v2_actions js lib
                 (c1\<lparr>co_v2_connections := hm_remove (rid, cid) (co_v2_connections c1),
                     co_v2_rooms := v2_deregister now rid cid (co_v2_rooms c1)\<rparr>)
               else c1)
          | SessionConnected \<Rightarrow> c1))"

section \<open>Authority commands\<close>

definition collider_status :: "collider \<Rightarrow> status_snapshot" where
  "collider_status c =
     \<lparr>st_rooms = table_room_count (co_rooms c), st_v2_rooms = v2_room_count (co_v2_rooms c),
      st_clients = table_client_count (co_rooms c) + v2_member_count (co_v2_rooms c),
      st_websocket_connections = table_ws_count (co_rooms c) + v2_registered_count (co_v2_rooms c),
      st_total_websocket_connections = co_total_websocket_connections c,
      st_websocket_errors = co_websocket_errors c,
      st_connected_sfu_instances = connected_sfu_count (co_v2_rooms c),
      st_ready_sfu_instances = ready_sfu_count (co_v2_rooms c)\<rparr>"

text \<open>The \<^verbatim>\<open>match\<close> on the operation: its result, or none when it answers later.\<close>

definition authority_match ::
    "'v json \<Rightarrow> token_lib \<Rightarrow> request_id \<Rightarrow> authority_operation \<Rightarrow> collider \<Rightarrow>
     collider \<times> authority_result option result" where
  "authority_match js lib req operation c =
     (case operation of
        OpAdmit rid cid is_loopback now \<Rightarrow>
          (case table_join now rid cid is_loopback (co_rooms c) of
             (rooms, Inl Panic) \<Rightarrow> (c\<lparr>co_rooms := rooms\<rparr>, Panicked)
           | (rooms, Inl (Fail e)) \<Rightarrow> (c\<lparr>co_rooms := rooms\<rparr>, Ok (Some (ResultError e)))
           | (rooms, Inr (is_initiator, messages)) \<Rightarrow>
               (c\<lparr>co_rooms := rooms\<rparr>, Ok (Some (Admitted is_initiator messages))))
      | OpRemove rid cid \<Rightarrow>
          (let c1 = close_client_connection rid cid c in
           (c1\<lparr>co_rooms := table_leave rid cid (co_rooms c1)\<rparr>, Ok (Some Removed)))
      | OpOccupancy rid \<Rightarrow> (c, Ok (Some (Occupancy (table_occupancy rid (co_rooms c)))))
      | OpInject rid cid text now \<Rightarrow>
          (case table_save_or_send now rid cid text (co_rooms c) of
             (rooms, Inl Panic) \<Rightarrow> (c\<lparr>co_rooms := rooms\<rparr>, Panicked)
           | (rooms, Inl (Fail e)) \<Rightarrow> (c\<lparr>co_rooms := rooms\<rparr>, Ok (Some (ResultError e)))
           | (rooms, Inr _) \<Rightarrow> (drain_room_writes js (c\<lparr>co_rooms := rooms\<rparr>), Ok (Some Injected)))
      | OpAdmitV2 rid cid token now \<Rightarrow>
          (case admit req now rid cid token (co_v2_rooms c) of
             (rooms, Inl Panic) \<Rightarrow> (c\<lparr>co_v2_rooms := rooms\<rparr>, Panicked)
           | (rooms, Inl (Fail e)) \<Rightarrow> (c\<lparr>co_v2_rooms := rooms\<rparr>, Ok (Some (ResultError e)))
           | (rooms, Inr (AdmissionComplete a)) \<Rightarrow>
               (c\<lparr>co_v2_rooms := rooms\<rparr>, Ok (Some (admission_reply (Inr a))))
           | (rooms, Inr AdmissionPending) \<Rightarrow>
               (drain_v2_actions js lib (c\<lparr>co_v2_rooms := rooms\<rparr>), Ok None))
      | OpRemoveV2 rid cid token \<Rightarrow>
          (case v2_remove req rid cid token (co_v2_rooms c) of
             (rooms, Inl Panic) \<Rightarrow> (c\<lparr>co_v2_rooms := rooms\<rparr>, Panicked)
           | (rooms, Inl (Fail e)) \<Rightarrow> (c\<lparr>co_v2_rooms := rooms\<rparr>, Ok (Some (ResultError e)))
           | (rooms, Inr (RemovalComplete promotion)) \<Rightarrow>
               (let c1 = close_v2_client_connection rid cid (c\<lparr>co_v2_rooms := rooms\<rparr>) in
                (case promotion of None \<Rightarrow> c1 | Some p \<Rightarrow> push_promotion js lib p c1,
                 Ok (Some RemovedV2)))
           | (rooms, Inr RemovalPending) \<Rightarrow>
               (drain_v2_actions js lib (c\<lparr>co_v2_rooms := rooms\<rparr>), Ok None))
      | OpOccupancyV2 rid \<Rightarrow>
          (c, Ok (Some (case v2_occupancy rid (co_v2_rooms c) of (count, mode) \<Rightarrow> OccupancyV2 count mode)))
      | OpStatus \<Rightarrow> (c, Ok (Some (StatusIs (collider_status c)))))"

definition handle_authority ::
    "'v json \<Rightarrow> token_lib \<Rightarrow> authority_command \<Rightarrow> collider \<Rightarrow> collider \<times> unit result" where
  "handle_authority js lib command c =
     (case authority_match js lib (ac_request_id command) (ac_operation command) c of
        (c1, Inl e) \<Rightarrow> (c1, Inl e)
      | (c1, Inr None) \<Rightarrow> (c1, Ok ())
      | (c1, Inr (Some res)) \<Rightarrow>
          (drain_v2_actions js lib (push_response (ac_request_id command) res c1), Ok ()))"

section \<open>The protocol of the driver\<close>

definition collider_handle_sfu_input ::
    "'v json \<Rightarrow> token_lib \<Rightarrow> sfu_input \<Rightarrow> collider \<Rightarrow> collider \<times> unit result" where
  "collider_handle_sfu_input js lib input c =
     (case handle_sfu_input input (co_v2_rooms c) of
        (rooms, Inl e) \<Rightarrow> (c\<lparr>co_v2_rooms := rooms\<rparr>, Inl e)
      | (rooms, Inr _) \<Rightarrow> (drain_v2_actions js lib (c\<lparr>co_v2_rooms := rooms\<rparr>), Ok ()))"

definition collider_handle_read ::
    "'v json \<Rightarrow> token_lib \<Rightarrow> browser_input \<Rightarrow> collider \<Rightarrow> collider \<times> unit result" where
  "collider_handle_read js lib input c =
     (case input of
        BrowserConnected conn \<Rightarrow>
          (c\<lparr>co_sessions := hm_insert conn SessionConnected (co_sessions c)\<rparr>, Ok ())
      | BrowserText conn text now \<Rightarrow> handle_browser_text js lib conn text now c
      | BrowserDisconnected conn now \<Rightarrow> (disconnect js lib conn now c, Ok ()))"

definition collider_handle_write ::
    "'v json \<Rightarrow> token_lib \<Rightarrow> authority_command \<Rightarrow> collider \<Rightarrow> collider \<times> unit result" where
  "collider_handle_write js lib command c = handle_authority js lib command c"

definition collider_poll_write :: "collider \<Rightarrow> collider \<times> browser_output option" where
  "collider_poll_write c =
     (case co_browser_outputs c of
        [] \<Rightarrow> (c, None) | out # outs \<Rightarrow> (c\<lparr>co_browser_outputs := outs\<rparr>, Some out))"

definition collider_poll_event :: "collider \<Rightarrow> collider \<times> authority_response option" where
  "collider_poll_event c =
     (case co_authority_responses c of
        [] \<Rightarrow> (c, None) | r # rs \<Rightarrow> (c\<lparr>co_authority_responses := rs\<rparr>, Some r))"

definition collider_handle_timeout ::
    "'v json \<Rightarrow> token_lib \<Rightarrow> instant \<Rightarrow> collider \<Rightarrow> collider \<times> unit result" where
  "collider_handle_timeout js lib now c =
     (case table_handle_timeout now (co_rooms c) of
        (rooms, Inl e) \<Rightarrow> (c\<lparr>co_rooms := rooms\<rparr>, Inl e)
      | (rooms, Inr _) \<Rightarrow>
         (case v2_handle_timeout now (co_v2_rooms c) of
            (v2_rooms, promotions) \<Rightarrow>
              (drain_v2_actions js lib
                 (fold (push_promotion js lib) promotions (c\<lparr>co_rooms := rooms, co_v2_rooms := v2_rooms\<rparr>)),
               Ok ())))"

definition collider_poll_timeout :: "collider \<Rightarrow> instant option" where
  "collider_poll_timeout c =
     (case (table_poll_timeout (co_rooms c), v2_poll_timeout (co_v2_rooms c)) of
        (Some left, Some right) \<Rightarrow> Some (min left right)
      | (Some left, None) \<Rightarrow> Some left
      | (None, right) \<Rightarrow> right)"

definition collider_close :: "collider \<Rightarrow> collider \<times> unit result" where
  "collider_close c =
     (let c1 = fold (\<lambda>conn. push_output (OutClose conn)) (hm_keys (co_sessions c)) c;
          c2 = c1\<lparr>co_sessions := [], co_connections := [], co_v2_connections := [],
                   co_v2_rooms := v2_clear (co_v2_rooms c1)\<rparr>
      in case table_close (co_rooms c2) of (rooms, res) \<Rightarrow> (c2\<lparr>co_rooms := rooms\<rparr>, res))"

end
