(* ===== verification/V1_Registrations.thy ===== *)
theory V1_Registrations
  imports V1_Rooms
begin

text \<open>
  Which V1 clients are registered, operation by operation: only a registration adds one, only
  a dropped connection or a leave takes one away, and no operation panics.
\<close>

section \<open>In a room\<close>

definition room_registered :: "room \<Rightarrow> client_id \<Rightarrow> bool" where
  "room_registered r k = (case map_of (rm_clients r) k of None \<Rightarrow> False | Some c \<Rightarrow> cl_registered c)"

lemma room_registered_new [simp]: "\<not> room_registered (room_new rid t) k"
  by (simp add: room_registered_def room_new_def)

lemma room_register_registered:
  "room_inv r \<Longrightarrow> case room_register now cid r of
     (r', Inl e) \<Rightarrow> e \<noteq> Panic \<and> (\<forall>k. room_registered r' k = room_registered r k)
   | (r', Inr _) \<Rightarrow> \<not> room_registered r cid \<and> (\<forall>k. room_registered r' k = (k = cid \<or> room_registered r k))"
  unfolding room_inv_def
  by (erule clients_ok_cases)
    (auto simp: room_register_def room_client_def MAX_ROOM_CAPACITY_def client_register_def
      client_send_queued_def deliver_all_eq client_set_timer_def room_registered_def)

lemma room_send_registered:
  "room_inv r \<Longrightarrow> snd (room_send now src msg r) \<noteq> Panicked \<and>
     room_registered (fst (room_send now src msg r)) k = room_registered r k"
  unfolding room_inv_def
  by (erule clients_ok_cases)
    (auto simp: room_send_def room_client_def MAX_ROOM_CAPACITY_def client_enqueue_def
      client_send_def client_handle_write_def room_registered_def)

lemma room_add_client_registered:
  "room_inv r \<Longrightarrow> snd (room_add_client now cid lb r) \<noteq> Panicked \<and>
     room_registered (fst (room_add_client now cid lb r)) k = room_registered r k"
  unfolding room_inv_def
  by (erule clients_ok_cases)
    (auto simp: room_add_client_def room_client_def room_set_initiator_def MAX_ROOM_CAPACITY_def
      client_drain_msgs_def client_set_initiator_def hm_map_def Let_def room_registered_def)

lemma room_remove_registered: "room_registered (room_remove cid r) k \<longleftrightarrow> k \<noteq> cid \<and> room_registered r k"
  by (auto simp: room_registered_def room_remove_get client_set_initiator_def split: option.split)

lemma room_deregister_registered:
  "room_registered (fst (room_deregister now cid r)) k \<longleftrightarrow> k \<noteq> cid \<and> room_registered r k"
  by (auto simp: room_registered_def room_deregister_def client_set_timer_def client_deregister_def
      split: option.split)

lemma room_handle_read_registered: "room_registered (fst (room_handle_read m r)) k = room_registered r k"
  by (auto simp: room_registered_def room_handle_read_def client_handle_read_def split: option.split)

lemma scan_poll_get:
  assumes "\<And>v v' x. p v = (v', x) \<Longrightarrow> f v' = f v"
  shows "scan_poll p m = (m', x) \<Longrightarrow> map_option f (map_of m' k) = map_option f (map_of m k)"
proof (induction m arbitrary: m')
  case Nil
  then show ?case by simp
next
  case (Cons e m)
  obtain k' v where e: "e = (k', v)" by (cases e)
  obtain v' y where p: "p v = (v', y)" by (cases "p v")
  obtain m1 r1 where s: "scan_poll p m = (m1, r1)" by (cases "scan_poll p m")
  show ?case
    using Cons.prems Cons.IH s assms [OF p] p by (cases y) (auto simp: e)
qed

lemma client_poll_registered:
  "client_poll_write c = (c', x) \<Longrightarrow> cl_registered c' = cl_registered c"
  "client_poll_read c = (c', x) \<Longrightarrow> cl_registered c' = cl_registered c"
  by (auto simp: client_poll_write_def client_poll_read_def split: list.splits)

lemma room_registered_map: "room_registered r k = (map_option cl_registered (map_of (rm_clients r) k) = Some True)"
  by (simp add: room_registered_def split: option.split)

lemma room_poll_registered:
  "room_poll_write r = (r', x) \<Longrightarrow> room_registered r' = room_registered r"
  "room_poll_read r = (r', x) \<Longrightarrow> room_registered r' = room_registered r"
proof -
  show "room_registered r' = room_registered r" if p: "room_poll_write r = (r', x)"
  proof
    fix k
    obtain m where m: "scan_poll client_poll_write (rm_clients r) = (m, x)" "r' = r\<lparr>rm_clients := m\<rparr>"
      using p by (auto simp: room_poll_write_def split: prod.splits)
    from scan_poll_get [where f = cl_registered, OF client_poll_registered(1) m(1)]
    show "room_registered r' k = room_registered r k" by (simp add: room_registered_map m(2))
  qed
  show "room_registered r' = room_registered r" if p: "room_poll_read r = (r', x)"
  proof
    fix k
    obtain m where m: "scan_poll client_poll_read (rm_clients r) = (m, x)" "r' = r\<lparr>rm_clients := m\<rparr>"
      using p by (auto simp: room_poll_read_def split: prod.splits)
    from scan_poll_get [where f = cl_registered, OF client_poll_registered(2) m(1)]
    show "room_registered r' k = room_registered r k" by (simp add: room_registered_map m(2))
  qed
qed

section \<open>In the table\<close>

definition v1_registered :: "room_table \<Rightarrow> room_id \<Rightarrow> client_id \<Rightarrow> bool" where
  "v1_registered t rid cid =
     (case map_of (rt_rooms t) rid of None \<Rightarrow> False | Some r \<Rightarrow> room_registered r cid)"

lemma v1_registered_room: "v1_registered t rid cid = room_registered (room_or_new rid t) cid"
  by (simp add: v1_registered_def room_or_new_def split: option.split)

lemma v1_registered_client:
  "v1_registered t rid cid = (case table_client t rid cid of None \<Rightarrow> False | Some c \<Rightarrow> cl_registered c)"
  by (simp add: v1_registered_room room_registered_def table_client_room)

lemma v1_registered_new [simp]: "\<not> v1_registered (table_new d) rid cid"
  by (simp add: v1_registered_def table_new_def)

lemma v1_registered_on_room:
  "v1_registered (fst (on_room rid f t)) rid' k =
     (if rid' = rid then room_registered (fst (f (room_or_new rid t))) k else v1_registered t rid' k)"
  by (simp add: v1_registered_def on_room_get)

lemma room_or_new_ok: "table_inv t \<Longrightarrow> room_inv (room_or_new rid t)"
  using room_or_new_inv [of t rid] by (simp add: room_of_table_def)

lemma table_register_registered:
  fixes now :: instant
  assumes "table_inv t"
  shows "case table_register now rid cid t of
     (t', Inl e) \<Rightarrow> e \<noteq> Panic \<and> (\<forall>rid' k. v1_registered t' rid' k = v1_registered t rid' k)
   | (t', Inr _) \<Rightarrow> \<not> v1_registered t rid cid \<and>
       (\<forall>rid' k. v1_registered t' rid' k = (rid' = rid \<and> k = cid \<or> v1_registered t rid' k))"
proof -
  obtain r' res where r': "room_register now cid (room_or_new rid t) = (r', res)" by force
  note reg = v1_registered_on_room [of rid "room_register now cid" t, unfolded r' fst_conv]
  have "table_register now rid cid t = (fst (on_room rid (room_register now cid) t), res)"
    by (simp add: table_register_def on_room_eq r')
  with room_register_registered [OF room_or_new_ok [OF assms, of rid], where now = now and cid = cid]
  show ?thesis unfolding r' v1_registered_room [symmetric] prod.case
    by (auto simp: reg split: sum.splits)
qed

lemma table_send_registered:
  assumes "table_inv t"
  shows "snd (table_send now rid src msg t) \<noteq> Panicked"
    "v1_registered (fst (table_send now rid src msg t)) rid' k = v1_registered t rid' k"
  using room_send_registered [OF room_or_new_ok [OF assms]]
  by (simp_all add: table_send_def v1_registered_on_room) (simp_all add: on_room_eq v1_registered_room)

lemma table_join_registered:
  assumes "table_inv t"
  shows "snd (table_join now rid cid lb t) \<noteq> Panicked"
    "v1_registered (fst (table_join now rid cid lb t)) rid' k = v1_registered t rid' k"
  using room_add_client_registered [OF room_or_new_ok [OF assms]]
  by (simp_all add: table_join_def v1_registered_on_room) (simp_all add: on_room_eq v1_registered_room)

lemma table_leave_registered:
  "v1_registered (table_leave rid cid t) rid' k \<longleftrightarrow> \<not> (rid' = rid \<and> k = cid) \<and> v1_registered t rid' k"
proof (cases "map_of (rt_rooms t) rid")
  case None
  then show ?thesis by (auto simp: table_leave_def table_remove_def v1_registered_def)
next
  case (Some r)
  have "\<not> room_registered (room_remove cid r) k" if "room_empty (room_remove cid r)" for k
    using that by (simp add: room_registered_def room_empty_def)
  then show ?thesis
    using Some room_remove_registered [of cid r k]
    by (auto simp: v1_registered_def table_leave_rooms [OF Some])
qed

lemma table_deregister_registered:
  "v1_registered (table_deregister now rid cid t) rid' k \<longleftrightarrow> \<not> (rid' = rid \<and> k = cid) \<and> v1_registered t rid' k"
  by (auto simp: table_deregister_def v1_registered_def room_deregister_registered split: option.split)

lemma table_handle_read_registered:
  "v1_registered (fst (table_handle_read m t)) rid k = v1_registered t rid k"
proof -
  have "room_registered r' k = room_registered r k" if "room_handle_read m r = (r', res)" for r r' res
    using room_handle_read_registered [of m r k] that by simp
  then show ?thesis by (auto simp: table_handle_read_def v1_registered_def split: option.split prod.split)
qed

lemma table_handle_read_ok: "snd (table_handle_read m t) = Ok ()"
  by (auto simp: table_handle_read_def room_handle_read_def client_handle_read_def split: option.split prod.split)

lemma v1_registered_map:
  "v1_registered t rid k = (case map_option room_registered (map_of (rt_rooms t) rid) of
      None \<Rightarrow> False | Some f \<Rightarrow> f k)"
  by (simp add: v1_registered_def split: option.split)

lemma table_poll_registered:
  "table_poll_write t = (t', x) \<Longrightarrow> v1_registered t' rid k = v1_registered t rid k"
  "table_poll_read t = (t', x) \<Longrightarrow> v1_registered t' rid k = v1_registered t rid k"
proof -
  show "v1_registered t' rid k = v1_registered t rid k" if p: "table_poll_write t = (t', x)"
  proof -
    obtain m where m: "scan_poll room_poll_write (rt_rooms t) = (m, x)" "t' = t\<lparr>rt_rooms := m\<rparr>"
      using p by (auto simp: table_poll_write_def split: prod.splits)
    from scan_poll_get [where f = room_registered, OF room_poll_registered(1) m(1)]
    show ?thesis by (simp add: v1_registered_map m(2))
  qed
  show "v1_registered t' rid k = v1_registered t rid k" if p: "table_poll_read t = (t', x)"
  proof -
    obtain m where m: "scan_poll room_poll_read (rt_rooms t) = (m, x)" "t' = t\<lparr>rt_rooms := m\<rparr>"
      using p by (auto simp: table_poll_read_def split: prod.splits)
    from scan_poll_get [where f = room_registered, OF room_poll_registered(2) m(1)]
    show ?thesis by (simp add: v1_registered_map m(2))
  qed
qed

lemma table_handle_timeout_registered:
  assumes "table_inv t"
  shows "v1_registered (fst (table_handle_timeout now t)) rid k = v1_registered t rid k"
    "snd (table_handle_timeout now t) = Ok ()"
proof -
  note client = table_handle_timeout_client [OF assms, of now rid k]
  then show "snd (table_handle_timeout now t) = Ok ()" by simp
  have "\<not> due now c" if "cl_registered c" for c using that by (simp add: due_def split: option.split)
  with client show "v1_registered (fst (table_handle_timeout now t)) rid k = v1_registered t rid k"
    by (auto simp: v1_registered_client client_set_initiator_def split: option.split)
qed

lemma table_close_registered:
  "table_inv t \<Longrightarrow> \<not> v1_registered (fst (table_close t)) rid k \<and> snd (table_close t) = Ok ()"
  by (simp add: table_close_eq v1_registered_def)

end
