(* ===== verification/V1_Quiet.thy ===== *)
theory V1_Quiet
  imports V1_Registrations Room_Sizes
begin

text \<open>
  Which V1 operations put frames on the planes a driver polls: a relay to a registered client
  and the hand-over at registration write, only a browser's frame is there to be read, and an
  operation that fails does neither.
\<close>

section \<open>In a room\<close>

definition room_quiet :: "room \<Rightarrow> bool" where
  "room_quiet r \<longleftrightarrow> (\<forall>(k, c) \<in> set (rm_clients r). cl_writes c = [] \<and> cl_reads c = [])"

lemma room_quiet_new [simp]: "room_quiet (room_new rid d)"
  by (simp add: room_quiet_def room_new_def)

lemma client_new_planes [simp]: "cl_writes (client_new k rid t) = []" "cl_reads (client_new k rid t) = []"
  by (simp_all add: client_new_def)

lemma room_register_quiet:
  "room_inv r \<Longrightarrow> room_quiet r \<Longrightarrow> room_register now cid r = (r', Inl e) \<Longrightarrow> r' = r"
  unfolding room_inv_def
  by (erule clients_ok_cases)
    (auto simp: room_register_def room_client_def MAX_ROOM_CAPACITY_def client_register_def
      client_send_queued_def deliver_all_eq client_set_timer_def room_put_def split: if_splits)

lemma room_send_quiet:
  "room_inv r \<Longrightarrow> room_quiet r \<Longrightarrow> room_send now src msg r = (r', Inl e) \<Longrightarrow> room_quiet r'"
  unfolding room_inv_def
  by (erule clients_ok_cases)
    (auto simp: room_send_def room_client_def MAX_ROOM_CAPACITY_def client_enqueue_def room_quiet_def
      client_send_def client_handle_write_def split: if_splits)

lemma room_add_client_quiet:
  "room_inv r \<Longrightarrow> room_quiet r \<Longrightarrow> room_quiet (fst (room_add_client now cid lb r))"
  unfolding room_inv_def
  by (erule clients_ok_cases)
    (auto simp: room_add_client_def room_client_def room_set_initiator_def MAX_ROOM_CAPACITY_def room_quiet_def
      client_drain_msgs_def client_set_initiator_def hm_map_def Let_def)

lemma room_remove_quiet: "room_inv r \<Longrightarrow> room_quiet r \<Longrightarrow> room_quiet (room_remove cid r)"
  unfolding room_inv_def
  by (erule clients_ok_cases)
    (auto simp: room_remove_def hm_map_def client_set_initiator_def room_quiet_def)

lemma room_deregister_quiet: "room_inv r \<Longrightarrow> room_quiet r \<Longrightarrow> room_quiet (fst (room_deregister now cid r))"
  unfolding room_inv_def
  by (erule clients_ok_cases)
    (auto simp: room_deregister_def client_set_timer_def client_deregister_def room_quiet_def)

section \<open>In the table\<close>

definition quiet :: "room_table \<Rightarrow> bool" where
  "quiet t \<longleftrightarrow> (\<forall>(k, r) \<in> set (rt_rooms t). room_quiet r)"

lemma quiet_new [simp]: "quiet (table_new d)"
  by (simp add: quiet_def table_new_def)

lemma quiet_sizes: "quiet t \<longleftrightarrow> table_writes_size t = 0 \<and> table_reads_size t = 0"
  by (fastforce simp: quiet_def room_quiet_def table_writes_size_def table_reads_size_def hm_size_def
      room_writes_size_def room_reads_size_def)

lemma in_hm_insert: "(k, v) \<in> set (hm_insert a b m) \<Longrightarrow> (k, v) = (a, b) \<or> (k, v) \<in> set m"
  by (induction m) (auto split: if_splits)

lemma quiet_put: "quiet t \<Longrightarrow> room_quiet r \<Longrightarrow> quiet (table_put rid r t)"
  unfolding quiet_def table_put_sel by (auto dest!: in_hm_insert)

lemma quiet_room: "quiet t \<Longrightarrow> quiet (table_room rid t)"
  by (auto simp: table_room_def quiet_put split: option.split)

lemma quiet_room_or_new: "quiet t \<Longrightarrow> room_quiet (room_or_new rid t)"
  by (auto simp: room_or_new_def quiet_def split: option.split dest: map_of_SomeD)

lemma quiet_on_room: "quiet t \<Longrightarrow> room_quiet (fst (f (room_or_new rid t))) \<Longrightarrow> quiet (fst (on_room rid f t))"
  by (simp add: on_room_eq quiet_put quiet_room)

lemma table_join_quiet: "table_inv t \<Longrightarrow> quiet t \<Longrightarrow> quiet (fst (table_join now rid cid lb t))"
  by (simp add: table_join_def quiet_on_room room_add_client_quiet room_or_new_ok quiet_room_or_new)

lemma table_send_quiet:
  assumes "table_inv t" "quiet t" "table_send now rid src msg t = (t', Inl e)"
  shows "quiet t'"
proof -
  obtain r' res where r: "room_send now src msg (room_or_new rid t) = (r', res)" by force
  with assms(3) have "t' = table_put rid r' (table_room rid t)" "res = Inl e"
    by (auto simp: table_send_def on_room_eq)
  with room_send_quiet [OF room_or_new_ok [OF assms(1)] quiet_room_or_new [OF assms(2)], of now src msg rid r' e] r
  show ?thesis by (simp add: quiet_put quiet_room assms(2))
qed

text \<open>A refused registration changes nothing.\<close>

lemma room_register_new: "snd (room_register now cid (room_new rid d)) = Ok ()"
  by (simp add: room_register_def room_client_def room_new_def MAX_ROOM_CAPACITY_def client_register_def)

lemma table_register_failed:
  assumes "table_inv t" "quiet t" "table_register now rid cid t = (t', Inl e)"
  shows "t' = t"
proof -
  obtain r' where r: "room_register now cid (room_or_new rid t) = (r', Inl e)"
    using assms(3) by (metis on_room_eq prod.collapse prod.inject table_register_def)
  then obtain r where old: "map_of (rt_rooms t) rid = Some r" "room_or_new rid t = r"
    using room_register_new [of now cid rid "rt_register_timeout t"]
    by (cases "map_of (rt_rooms t) rid") (simp_all add: room_or_new_def)
  have "r' = r"
    using room_register_quiet [OF room_or_new_ok [OF assms(1)] quiet_room_or_new [OF assms(2)] r] old by simp
  with on_room_same [OF old(1), of "room_register now cid"] r old assms(3) show ?thesis
    by (simp add: table_register_def)
qed

lemma table_leave_quiet: "table_inv t \<Longrightarrow> quiet t \<Longrightarrow> quiet (table_leave rid cid t)"
proof -
  assume t: "table_inv t" "quiet t"
  have "room_quiet (room_remove cid r)" if "map_of (rt_rooms t) rid = Some r" for r
    using room_remove_quiet [OF room_or_new_ok [OF t(1), of rid] quiet_room_or_new [OF t(2)]] that
    by (simp add: room_or_new_def)
  moreover have "quiet (t'\<lparr>rt_rooms := hm_remove rid (rt_rooms t')\<rparr>)" if "quiet t'" for t'
    using that by (auto simp: quiet_def AList.delete_eq)
  ultimately show ?thesis
    using t by (auto simp: table_leave_def table_remove_def Let_def quiet_put simp del: table_put_sel
        split: option.split)
qed

lemma table_deregister_quiet: "table_inv t \<Longrightarrow> quiet t \<Longrightarrow> quiet (table_deregister now rid cid t)"
proof -
  assume t: "table_inv t" "quiet t"
  have "room_quiet (fst (room_deregister now cid r))" if "map_of (rt_rooms t) rid = Some r" for r
    using room_deregister_quiet [OF room_or_new_ok [OF t(1), of rid] quiet_room_or_new [OF t(2)]] that
    by (simp add: room_or_new_def)
  then show ?thesis using t by (auto simp: table_deregister_def quiet_put split: option.split)
qed

lemma table_handle_timeout_quiet: "table_inv t \<Longrightarrow> quiet t \<Longrightarrow> quiet (fst (table_handle_timeout now t))"
  by (fastforce simp: table_handle_timeout_eq quiet_def room_quiet_def reaped_def hm_map_def client_set_initiator_def
      split: if_splits)

lemma table_close_quiet: "quiet (fst (table_close t))"
  by (simp add: table_close_eq quiet_def)

end
