(* ===== verification/V2_Actions.thy ===== *)
theory V2_Actions
  imports V2_Registrations
begin

text \<open>
  What the authority queues for its driver: only the acknowledged leave of a worker answers a
  removal with success, the member being gone by then, and an operation that fails leaves the
  queue as it was.
\<close>

section \<open>Answered removals\<close>

definition removal_ok :: "action \<Rightarrow> bool" where
  "removal_ok a = (case a of RemovalCompleted _ _ _ (Inr _) \<Rightarrow> True | _ \<Rightarrow> False)"

definition answered :: "v2_table \<Rightarrow> action list" where
  "answered t = filter removal_ok (vt_actions t)"

lemma answered_frame [simp]:
  "answered (push_action a t) = answered t @ (if removal_ok a then [a] else [])"
  "answered (put_room rid r t) = answered t" "answered (drop_room rid t) = answered t"
  "answered (put_worker inst w t) = answered t" "answered (on_worker inst f t) = answered t"
  "answered (forget_command req t) = answered t" "answered (issue_command inst conn kind p t) = answered t"
  by (simp_all add: answered_def removal_ok_def)

lemma answered_next_lifecycle: "next_lifecycle rid k t = (t1, l) \<Longrightarrow> answered t1 = answered t"
  by (auto simp: next_lifecycle_def Let_def answered_def)

lemma removal_ok_simps [simp]:
  "\<not> removal_ok (ActionSfu out)" "\<not> removal_ok (AdmissionCompleted areq res)"
  "\<not> removal_ok (Upgraded rid e cs)" "\<not> removal_ok (Downgraded rid e i cs)" "\<not> removal_ok (Deliver d)"
  "\<not> removal_ok (RoomFailed rid cs reason)" "\<not> removal_ok (RemovalCompleted areq rid cid (Inl e'))"
  "removal_ok (RemovalCompleted areq rid cid (Inr u))"
  by (simp_all add: removal_ok_def)

lemma issue_next_upgrade_join_answered: "answered (fst (issue_next_upgrade_join rid t)) = answered t"
  by (auto simp: issue_next_upgrade_join_def Let_def split: option.split)

lemma refresh_lifecycles_answered: "answered (fst (refresh_lifecycles rid cids t)) = answered t"
  by (induction cids arbitrary: t)
    (auto dest: answered_next_lifecycle split: option.split prod.split)

lemma begin_upgrade_answered: "answered (fst (begin_upgrade areq now rid cid token inst room t)) = answered t"
proof -
  have refresh: "answered t2 = answered t1" if "refresh_lifecycles rid cids t1 = (t2, res)" for cids t1 t2 res
    using refresh_lifecycles_answered [of rid cids t1] that by simp
  have join: "answered t4 = answered t3" if "issue_next_upgrade_join rid t3 = (t4, res)" for t3 t4 res
    using issue_next_upgrade_join_answered [of rid t3] that by simp
  show ?thesis
    by (auto simp: begin_upgrade_def Let_def dest!: refresh join answered_next_lifecycle
        split: prod.split sum.split option.split)
qed

lemma admit_answered: "answered (fst (admit areq now rid cid token t)) = answered t"
  by (auto simp: admit_def admit_to_sfu_def Let_def begin_upgrade_answered
      dest!: answered_next_lifecycle split: prod.split option.split room_mode.split)

lemma v2_register_answered: "answered (fst (v2_register rid cid token t)) = answered t"
  by (auto simp: v2_register_def Let_def split: option.split)

lemma issue_sfu_leave_answered: "answered (fst (issue_sfu_leave rid cid reason t)) = answered t"
  by (auto simp: issue_sfu_leave_def split: option.split)

lemma arm_reconnect_answered: "answered (arm_reconnect now rid cid t) = answered t"
  by (auto simp: arm_reconnect_def split: option.split)

lemma leave_or_arm_answered:
  "answered (case issue_sfu_leave rid cid reason t of
     (t1, True) \<Rightarrow> t1 | (t1, False) \<Rightarrow> arm_reconnect now rid cid t1) = answered t"
  using issue_sfu_leave_answered [of rid cid reason t]
  by (auto simp: arm_reconnect_answered split: prod.split bool.split)

lemma v2_deregister_answered: "answered (v2_deregister now rid cid t) = answered t"
  by (simp add: v2_deregister_def Let_def leave_or_arm_answered arm_reconnect_answered split: option.split)

lemma v2_send_answered: "answered (fst (v2_send rid cid epoch msg t)) = answered t"
  by (auto simp: v2_send_def queue_for_peer_def split: option.split prod.split sum.split)

lemma v2_remove_answered: "answered (fst (v2_remove areq rid cid token t)) = answered t"
  by (auto simp: v2_remove_def Let_def split: option.split prod.split)

section \<open>Worker operations\<close>

lemma fail_room_answered: "answered (fail_room rid reason t) = answered t"
  by (auto simp: fail_room_def split: option.split)

lemma commit_upgrade_answered: "answered (fst (commit_upgrade rid t)) = answered t"
  by (auto simp: commit_upgrade_def Let_def split: option.split)

lemma cleanup_joined_answered: "answered (fst (cleanup_joined inst conn rid epoch cids t)) = answered t"
  by (induction cids arbitrary: t) (auto split: option.split)

lemma abort_upgrade_answered: "answered (fst (abort_upgrade rid reason t)) = answered t"
proof -
  have clean: "answered t2 = answered t'" if "cleanup_joined inst c rid e cs t' = (t2, res)" for inst c e cs t' t2 res
    using cleanup_joined_answered [of inst c rid e cs t'] that by simp
  show ?thesis
    by (auto simp: abort_upgrade_def Let_def split: option.split prod.split sum.split dest!: clean)
qed

lemma arm_downgrade_answered: "answered (arm_downgrade rid now t) = answered t"
  by (auto simp: arm_downgrade_def split: option.split)

lemma leave_all_answered: "answered (leave_all inst conn rid epoch leaving t) = answered t"
  by (induction leaving arbitrary: t) auto

lemma commit_downgrade_answered: "answered (fst (commit_downgrade rid t)) = answered t"
  by (auto simp: commit_downgrade_def Let_def leave_all_answered split: option.split list.split)

lemma sync_rooms_answered: "answered (sync_rooms inst conn rids t) = answered t"
  by (induction rids arbitrary: t) (auto split: option.split)

lemma forget_commands_answered: "answered (fold forget_command reqs t) = answered t"
  by (induction reqs arbitrary: t) auto

lemma register_worker_answered: "answered (fst (register_worker conn inst req cap t)) = answered t"
  by (auto simp: register_worker_def Let_def sync_rooms_answered forget_commands_answered split: option.split)

lemma worker_signal_answered: "answered (fst (worker_signal inst s t)) = answered t"
  by (auto simp: worker_signal_def split: option.split)

lemma handle_worker_event_answered: "answered (fst (handle_worker_event conn inst event t)) = answered t"
proof -
  have signal: "answered t2 = answered t1" if "worker_signal inst s t1 = (t2, res)" for s t1 t2 res
    using worker_signal_answered [of inst s t1] that by simp
  show ?thesis
    by (auto simp: handle_worker_event_def Let_def fail_room_answered dest!: signal
        split: option.split event_kind.split prod.split sum.split)
qed

lemma upgrade_join_result_answered: "answered (fst (upgrade_join_result rid cid valid reason t)) = answered t"
  by (simp add: upgrade_join_result_def Let_def abort_upgrade_answered commit_upgrade_answered
      issue_next_upgrade_join_answered split: option.split)

lemma sfu_join_result_answered: "answered (fst (sfu_join_result inst rid cid valid reason t)) = answered t"
  by (simp add: sfu_join_result_def Let_def split: option.split)

lemma push_replay_answered: "answered (fold (\<lambda>c. push_action (ActionSfu (f c))) cs t) = answered t"
  by (induction cs arbitrary: t) simp_all

text \<open>When a removal has been answered with success, the member is not registered any more.\<close>

definition settled :: "v2_table \<Rightarrow> bool" where
  "settled t \<longleftrightarrow> (\<forall>areq rid cid u. RemovalCompleted areq rid cid (Inr u) \<in> set (vt_actions t) \<longrightarrow> \<not> v2_registered t rid cid)"

lemma settled_iff:
  "settled t \<longleftrightarrow> (\<forall>areq rid cid u. RemovalCompleted areq rid cid (Inr u) \<in> set (answered t) \<longrightarrow> \<not> v2_registered t rid cid)"
  by (auto simp: settled_def answered_def)

lemma settled_empty: "vt_actions t = [] \<Longrightarrow> settled t"
  by (simp add: settled_def)

lemma settled_mono: "settled t \<Longrightarrow> none_new (v2_registered t) t' \<Longrightarrow> answered t' = answered t \<Longrightarrow> settled t'"
  unfolding settled_iff none_new_iff by metis

lemma none_new_self [simp]: "none_new (v2_registered t) t"
  by (simp add: none_new_iff)

lemma v2_registered_frame [simp]:
  "v2_registered (push_action a t) = v2_registered t" "v2_registered (forget_command req t) = v2_registered t"
  "v2_registered (on_worker inst f t) = v2_registered t"
  by (simp_all add: v2_registered_def fun_eq_iff)

lemma sfu_leave_result_settled:
  assumes "settled t"
  shows "settled (fst (sfu_leave_result now inst rid cid valid reason t))"
proof -
  have gone: "settled (if b then drop_room rid t' else arm_downgrade rid now t')"
    if "settled t'" for t' b
    using that settled_mono [OF that, of "drop_room rid t'"] settled_mono [OF that, of "arm_downgrade rid now t'"]
    by (simp add: none_new_drop_room arm_downgrade_new arm_downgrade_answered)
  have removed: "settled (case q of None \<Rightarrow> t' | Some areq \<Rightarrow> push_action (RemovalCompleted areq rid cid (Inr ())) t')"
    if "settled t'" "\<not> v2_registered t' rid cid" for t' q
    using that by (auto simp: settled_iff split: option.split)
  have failed: "settled (case q of None \<Rightarrow> t' | Some areq \<Rightarrow> push_action (RemovalCompleted areq rid cid (Inl reason)) t')"
    if "settled t'" for t' q
    using that by (auto simp: settled_iff split: option.split)
  have put: "settled (put_room rid q t)"
    if "map_of (vt_rooms t) rid = Some r" "no_new (v2_registered t rid) r \<Longrightarrow> no_new (v2_registered t rid) q" for r q
    using that none_newD [OF none_new_self that(1)]
    by (intro settled_mono [OF assms] none_new_put_room) simp_all
  have on: "settled (on_worker inst f t') = settled t'" for f t'
    by (simp add: settled_iff)
  have not_reg: "\<not> v2_registered (put_room rid (remove_member cid r) t) rid cid" for r
    by (simp add: v2_registered_def member_registered_def)
  have id: "(case q of None \<Rightarrow> id | Some areq \<Rightarrow> push_action (h areq)) t' = (case q of None \<Rightarrow> t' | Some areq \<Rightarrow> push_action (h areq) t')"
    for q :: "u64 option" and h t' by (simp split: option.split)
  show ?thesis
    using assms by (simp add: sfu_leave_result_def Let_def id gone removed failed put on not_reg split: option.split)
qed

lemma handle_sfu_input_settled:
  assumes "settled t"
  shows "settled (fst (handle_sfu_input input t))"
proof (cases "answered (fst (handle_sfu_input input t)) = answered t")
  case True
  then show ?thesis by (rule settled_mono [OF assms handle_sfu_input_new [OF none_new_self]])
next
  case False
  have forget: "settled (forget_command req t)" for req using assms by (simp add: settled_iff)
  obtain conn inst result now where input: "input = InputCommandResult conn inst result now"
    using False by (cases input) (auto simp: handle_sfu_input_def register_worker_answered
        handle_worker_event_answered worker_disconnected_def split: option.splits if_splits)
  show ?thesis
    using False sfu_leave_result_settled [OF forget] assms
    by (auto simp: input handle_sfu_input_def handle_command_result_def Let_def fail_room_answered
        upgrade_join_result_answered sfu_join_result_answered push_replay_answered
        split: option.splits if_splits pending_command.splits)
qed

lemma handle_sfu_input_failed:
  assumes "handle_sfu_input input t = (t', Inl e)"
  shows "answered t' = answered t"
proof (rule ccontr)
  assume neq: "answered t' \<noteq> answered t"
  have t': "t' = fst (handle_sfu_input input t)" "snd (handle_sfu_input input t) = Inl e"
    using assms by simp_all
  obtain conn inst result now where input: "input = InputCommandResult conn inst result now"
    using neq t'(1) by (cases input) (auto simp: handle_sfu_input_def register_worker_answered
        handle_worker_event_answered worker_disconnected_def split: option.splits if_splits)
  have leave: "answered (fst (sfu_leave_result now inst rid cid valid reason t1)) = answered t1"
    if "snd (sfu_leave_result now inst rid cid valid reason t1) = Inl e" for rid cid valid reason t1
    using that by (auto simp: sfu_leave_result_def Let_def split: option.splits if_splits)
  show False
    using neq t' leave
    by (auto simp: input handle_sfu_input_def handle_command_result_def Let_def fail_room_answered
        upgrade_join_result_answered sfu_join_result_answered push_replay_answered
        split: option.splits if_splits pending_command.splits)
qed

section \<open>Timeouts\<close>

lemma expire_assigned_room_answered: "answered (expire_assigned_room rid t) = answered t"
  by (auto simp: expire_assigned_room_def Let_def abort_upgrade_answered split: option.split)

lemma expire_worker_answered: "answered (expire_worker inst t) = answered t"
proof -
  have "answered (fold expire_assigned_room rids t) = answered t" for rids
    by (induction rids arbitrary: t) (auto simp: expire_assigned_room_answered)
  then show ?thesis by (simp add: expire_worker_def Let_def forget_commands_answered)
qed

lemma expire_workers_answered: "answered (fold expire_worker insts t) = answered t"
  by (induction insts arbitrary: t) (auto simp: expire_worker_answered)

lemma sweep_room_answered: "answered (fst (sweep_room now rid t)) = answered t"
proof -
  have "answered (fst (case issue_sfu_leave rid cid reason t of
      (t1, True) \<Rightarrow> (t1, p) | (t1, False) \<Rightarrow> (arm_reconnect now rid cid t1, p))) = answered t"
    for cid reason and p :: "promotion option"
    using issue_sfu_leave_answered [of rid cid reason t]
    by (auto simp: arm_reconnect_answered split: prod.splits bool.splits)
  moreover have "answered (fst (sweep_p2p now rid r t)) = answered t" for r
    by (auto simp: sweep_p2p_def Let_def split: prod.split)
  ultimately show ?thesis
    by (simp add: sweep_room_def commit_downgrade_answered split: option.split)
qed

lemma sweep_rooms_answered: "answered (fst (sweep_rooms now rids t)) = answered t"
  by (induction rids arbitrary: t) (auto simp: case_prod_beta sweep_room_answered)

lemma v2_handle_timeout_answered: "answered (fst (v2_handle_timeout now t)) = answered t"
  by (simp add: v2_handle_timeout_def Let_def sweep_rooms_answered expire_workers_answered)

end
