(* ===== verification/Collider_Inv.thy ===== *)
theory Collider_Inv
  imports Collider V1_Quiet V2_Actions
begin

text \<open>
  The invariant of the authority: both tables are well-formed, and the maps from clients to
  connections agree with the browser sessions and with who is registered in the tables.
\<close>

section \<open>The invariant\<close>

text \<open>
  A V1 client has a connection exactly when a session says so; a V2 connection has the
  session of its member, whose connection may have been taken over by a later one.
\<close>

definition linked :: "collider \<Rightarrow> bool" where
  "linked c \<longleftrightarrow>
     (\<forall>rid cid conn. map_of (co_connections c) (rid, cid) = Some conn \<longleftrightarrow>
        map_of (co_sessions c) conn = Some (RegisteredV1 rid cid)) \<and>
     (\<forall>rid cid conn. map_of (co_v2_connections c) (rid, cid) = Some conn \<longrightarrow>
        map_of (co_sessions c) conn = Some (RegisteredV2 rid cid))"

text \<open>Who is registered has a connection.\<close>

definition connected :: "collider \<Rightarrow> bool" where
  "connected c \<longleftrightarrow>
     (\<forall>rid cid. v1_registered (co_rooms c) rid cid \<longleftrightarrow> map_of (co_connections c) (rid, cid) \<noteq> None) \<and>
     (\<forall>rid cid. v2_registered (co_v2_rooms c) rid cid \<longrightarrow> map_of (co_v2_connections c) (rid, cid) \<noteq> None)"

definition collider_ok :: "collider \<Rightarrow> bool" where
  "collider_ok c \<longleftrightarrow> table_inv (co_rooms c) \<and> no_empty_room (co_rooms c) \<and> v2_inv (co_v2_rooms c) \<and>
     linked c \<and> connected c"

text \<open>Between two inputs no V1 frame waits to be polled and no answer to a removal is held back.\<close>

definition collider_inv :: "collider \<Rightarrow> bool" where
  "collider_inv c \<longleftrightarrow> collider_ok c \<and> answered (co_v2_rooms c) = [] \<and> quiet (co_rooms c)"

lemma collider_okD:
  assumes "collider_ok c"
  shows "table_inv (co_rooms c)" "no_empty_room (co_rooms c)" "v2_inv (co_v2_rooms c)" "linked c" "connected c"
  using assms by (simp_all add: collider_ok_def)

lemma collider_inv_settled: "collider_inv c \<Longrightarrow> collider_ok c \<and> settled (co_v2_rooms c)"
  by (simp add: collider_inv_def settled_iff)

text \<open>The maps and tables are all the invariant depends on.\<close>

lemma collider_ok_cong:
  "co_rooms c' = co_rooms c \<Longrightarrow> co_v2_rooms c' = co_v2_rooms c \<Longrightarrow> co_sessions c' = co_sessions c \<Longrightarrow>
   co_connections c' = co_connections c \<Longrightarrow> co_v2_connections c' = co_v2_connections c \<Longrightarrow>
   collider_ok c' = collider_ok c"
  by (simp add: collider_ok_def linked_def connected_def)

lemma collider_ok_push [simp]:
  "collider_ok (push_output out c) = collider_ok c" "collider_ok (push_response req res c) = collider_ok c"
  "collider_ok (text_to_member rid cid text c) = collider_ok c"
  "collider_ok (c\<lparr>co_websocket_errors := n\<rparr>) = collider_ok c"
  by (rule collider_ok_cong; simp)+

lemma collider_ok_texts [simp]:
  "collider_ok (fold (\<lambda>cid. text_to_member rid cid (f cid)) cids c) = collider_ok c"
  by (rule collider_ok_cong; simp)

lemma fail_connection_ok [simp]:
  "collider_ok (fail_connection js conn e c) = collider_ok c"
  "co_v2_rooms (fail_connection js conn e c) = co_v2_rooms c"
  "co_rooms (fail_connection js conn e c) = co_rooms c"
  by (simp_all add: fail_connection_def)

section \<open>Changes of the tables\<close>

text \<open>The V1 table may change as long as the same clients are registered.\<close>

lemma collider_ok_rooms:
  assumes "collider_ok c" "table_inv rooms" "no_empty_room rooms"
    "\<And>rid cid. v1_registered rooms rid cid = v1_registered (co_rooms c) rid cid"
  shows "collider_ok (c\<lparr>co_rooms := rooms\<rparr>)"
  using assms by (simp add: collider_ok_def linked_def connected_def)

lemma v1_op_ok:
  assumes "collider_ok c" "rooms = v1_exec now op (co_rooms c)" "\<And>k. op \<noteq> V1Room k"
    "\<And>rid cid. v1_registered rooms rid cid = v1_registered (co_rooms c) rid cid"
  shows "collider_ok (c\<lparr>co_rooms := rooms\<rparr>)"
  using collider_okD [OF assms(1)] assms
  by (intro collider_ok_rooms) (simp_all add: v1_exec_inv v1_exec_no_empty)

text \<open>The V2 table may change as long as nobody gets registered.\<close>

lemma collider_ok_v2_rooms:
  assumes "collider_ok c" "v2_inv rooms" "none_new (v2_registered (co_v2_rooms c)) rooms"
  shows "collider_ok (c\<lparr>co_v2_rooms := rooms\<rparr>)"
  using assms by (auto simp: collider_ok_def linked_def connected_def none_new_iff)

lemma drain_room_writes_v2 [simp]:
  "co_v2_rooms (drain_room_writes js c) = co_v2_rooms c"
  "co_sessions (drain_room_writes js c) = co_sessions c"
  "co_connections (drain_room_writes js c) = co_connections c"
  "co_v2_connections (drain_room_writes js c) = co_v2_connections c"
  by (induction js c rule: drain_room_writes.induct;
      subst drain_room_writes.simps; auto split: prod.split option.split)+

lemma drain_room_writes_ok: "collider_ok c \<Longrightarrow> collider_ok (drain_room_writes js c)"
proof (induction js c rule: drain_room_writes.induct)
  case (1 js c)
  obtain rooms x where p: "table_poll_write (co_rooms c) = (rooms, x)" by force
  have ok: "collider_ok (c\<lparr>co_rooms := rooms\<rparr>)"
    using p by (intro v1_op_ok [OF 1(2), of _ 0 V1PollWrite]) (simp_all add: table_poll_registered)
  show ?case
  proof (cases x)
    case None
    with p ok show ?thesis by (simp add: drain_room_writes.simps [of js c])
  next
    case (Some m)
    with p 1(1) [OF p [symmetric] Some] ok show ?thesis
      by (simp add: drain_room_writes.simps [of js c] split: option.split)
  qed
qed

text \<open>Nothing is left to write in V1 after the drain.\<close>

lemma drain_room_writes_empty: "collider_ok c \<Longrightarrow> table_writes_size (co_rooms (drain_room_writes js c)) = 0"
proof (induction js c rule: drain_room_writes.induct)
  case (1 js c)
  obtain rooms x where p: "table_poll_write (co_rooms c) = (rooms, x)" by force
  have ok: "collider_ok (c\<lparr>co_rooms := rooms\<rparr>)"
    using p by (intro v1_op_ok [OF 1(2), of _ 0 V1PollWrite]) (simp_all add: table_poll_registered)
  show ?case
  proof (cases x)
    case None
    with p table_writes.poll_none [OF collider_okD(1) [OF 1(2)], of rooms] show ?thesis
      by (simp add: drain_room_writes.simps [of js c])
  next
    case (Some m)
    with p 1(1) [OF p [symmetric] Some] ok show ?thesis
      by (simp add: drain_room_writes.simps [of js c] split: option.split)
  qed
qed

lemma drain_room_writes_reads: "table_reads_size (co_rooms (drain_room_writes js c)) = table_reads_size (co_rooms c)"
proof (induction js c rule: drain_room_writes.induct)
  case (1 js c)
  obtain rooms x where p: "table_poll_write (co_rooms c) = (rooms, x)" by force
  show ?case
  proof (cases x)
    case None
    with table_poll_write_reads [OF p] show ?thesis by (simp add: drain_room_writes.simps [of js c] p)
  next
    case (Some m)
    with 1 [OF p [symmetric] Some] table_poll_write_reads [OF p] show ?thesis
      by (simp add: drain_room_writes.simps [of js c] p split: option.split)
  qed
qed

lemma drain_room_writes_quiet:
  "collider_ok c \<Longrightarrow> table_reads_size (co_rooms c) = 0 \<Longrightarrow> quiet (co_rooms (drain_room_writes js c))"
  by (simp add: quiet_sizes drain_room_writes_empty drain_room_writes_reads)

text \<open>The relay loop of \<^verbatim>\<open>send\<close> finds one frame, the one it has just put there.\<close>

lemma relay_one:
  assumes "table_inv t" "table_reads_size t \<le> 1"
  shows "relay_reads now t = (case table_poll_read t of
      (t1, None) \<Rightarrow> (t1, Ok ())
    | (t1, Some m) \<Rightarrow> table_send now (msg_roomid m) (msg_clientid m) (msg_msg m) t1)"
proof -
  obtain t1 x where p: "table_poll_read t = (t1, x)" by force
  show ?thesis
  proof (cases x)
    case None
    then show ?thesis by (simp add: relay_reads.simps [of now t] p)
  next
    case (Some m)
    with table_poll_sizes(2) [OF p] assms(2) have t1: "table_reads_size t1 = 0" by simp
    have inv1: "table_inv t1" using table_polled_inv(1) [OF assms(1)] p by (metis fst_conv)
    obtain t2 res where s: "table_send now (msg_roomid m) (msg_clientid m) (msg_msg m) t1 = (t2, res)" by force
    have t2: "table_inv t2" "table_reads_size t2 = 0"
      using table_ops_inv(1) [OF inv1] table_send_reads [OF s] t1 by (metis s fst_conv, simp)
    obtain t3 y where p2: "table_poll_read t2 = (t3, y)" by force
    with table_poll_sizes(2) [OF p2] t2(2) have "y = None" by (simp split: option.splits)
    with table_reads.poll_none [OF t2(1), of t3] p2 have "relay_reads now t2 = (t2, Ok ())"
      by (simp add: relay_reads.simps [of now t2])
    then show ?thesis by (auto simp: relay_reads.simps [of now t] p Some s split: sum.split)
  qed
qed

section \<open>Closing connections\<close>

lemma linkedD:
  assumes "linked c"
  shows "map_of (co_connections c) (rid, cid) = Some conn \<longleftrightarrow> map_of (co_sessions c) conn = Some (RegisteredV1 rid cid)"
    "map_of (co_v2_connections c) (r, k) = Some conn \<Longrightarrow> map_of (co_sessions c) conn = Some (RegisteredV2 r k)"
  using assms by (simp_all add: linked_def)

lemma linked_push [simp]: "linked (push_output out c) = linked c"
  by (simp add: linked_def)

text \<open>One client or member and its session go.\<close>

lemma linked_drop_v1:
  assumes "linked c" "map_of (co_connections c) (rid, cid) = Some conn"
  shows "linked (c\<lparr>co_connections := hm_remove (rid, cid) (co_connections c), co_sessions := hm_remove conn (co_sessions c)\<rparr>)"
proof -
  have conn: "map_of (co_sessions c) conn = Some (RegisteredV1 rid cid)"
    using linkedD(1) [OF assms(1), of rid cid conn] assms(2) by simp
  then have v2: "map_of (co_v2_connections c) (r, k) \<noteq> Some conn" for r k
    using linkedD(2) [OF assms(1)] by fastforce
  have "map_of (co_sessions c) conn' \<noteq> Some (RegisteredV1 rid cid)" if "conn' \<noteq> conn" for conn'
  proof
    assume "map_of (co_sessions c) conn' = Some (RegisteredV1 rid cid)"
    with linkedD(1) [OF assms(1)] have "map_of (co_connections c) (rid, cid) = Some conn'" by blast
    with assms(2) that show False by simp
  qed
  with v2 assms(1) conn show ?thesis by (auto simp: linked_def)
qed

lemma linked_drop_v2:
  assumes "linked c" "map_of (co_v2_connections c) (rid, cid) = Some conn"
  shows "linked (c\<lparr>co_v2_connections := hm_remove (rid, cid) (co_v2_connections c), co_sessions := hm_remove conn (co_sessions c)\<rparr>)"
proof -
  have conn: "map_of (co_sessions c) conn = Some (RegisteredV2 rid cid)" using assms linkedD(2) by blast
  then have "map_of (co_connections c) (r, k) \<noteq> Some conn" for r k using linkedD(1) [OF assms(1)] by simp
  moreover have "(r, k) = (rid, cid)" if "map_of (co_v2_connections c) (r, k) = Some conn" for r k
    using linkedD(2) [OF assms(1) that] conn by simp
  ultimately show ?thesis using assms(1) by (auto simp: linked_def)
qed

lemma close_v2_ok:
  assumes "collider_ok c" "\<not> v2_registered (co_v2_rooms c) rid cid"
  shows "collider_ok (close_v2_client_connection rid cid c)"
proof (cases "map_of (co_v2_connections c) (rid, cid)")
  case None
  with assms(1) show ?thesis by (simp add: close_v2_client_connection_def)
next
  case (Some conn)
  from linked_drop_v2 [OF collider_okD(4) [OF assms(1)] Some] assms
  show ?thesis by (auto simp: close_v2_client_connection_def Some collider_ok_def connected_def)
qed

section \<open>Draining the V2 actions\<close>

lemma handle_action_ok:
  assumes "collider_ok c" "removal_ok a \<Longrightarrow> \<exists>areq rid cid u. a = RemovalCompleted areq rid cid (Inr u) \<and> \<not> v2_registered (co_v2_rooms c) rid cid"
  shows "collider_ok (handle_action js lib a c)"
proof (cases a)
  case (RemovalCompleted areq rid cid res)
  with assms close_v2_ok [OF assms(1)] show ?thesis
    by (cases res) (auto simp: handle_action_def)
qed (use assms(1) in \<open>simp_all add: handle_action_def\<close>)

lemma drain_v2_actions_ok:
  "collider_ok c \<Longrightarrow> settled (co_v2_rooms c) \<Longrightarrow>
     collider_ok (drain_v2_actions js lib c) \<and> vt_actions (co_v2_rooms (drain_v2_actions js lib c)) = [] \<and>
     co_rooms (drain_v2_actions js lib c) = co_rooms c"
proof (induction js lib c rule: drain_v2_actions.induct)
  case (1 js lib c)
  obtain rooms x where p: "v2_poll_action (co_v2_rooms c) = (rooms, x)" by force
  have inv: "v2_inv rooms" using v2_poll_action_inv [OF collider_okD(3) [OF 1(2)]] by (simp add: p)
  have reg: "v2_registered rooms = v2_registered (co_v2_rooms c)"
    using p by (auto simp: v2_poll_action_def v2_registered_def fun_eq_iff split: list.splits)
  then have ok: "collider_ok (c\<lparr>co_v2_rooms := rooms\<rparr>)"
    by (intro collider_ok_v2_rooms [OF 1(2) inv]) (simp add: none_new_iff)
  show ?case
  proof (cases x)
    case None
    with p have "vt_actions rooms = []" by (auto simp: v2_poll_action_def split: list.splits)
    with p None ok show ?thesis by (simp add: drain_v2_actions.simps [of js lib c])
  next
    case (Some a)
    with p have acts: "vt_actions (co_v2_rooms c) = a # vt_actions rooms"
      by (auto simp: v2_poll_action_def split: list.splits)
    have st: "settled rooms" using 1(3) reg by (simp add: settled_def acts)
    have "\<exists>areq rid cid u. a = RemovalCompleted areq rid cid (Inr u) \<and> \<not> v2_registered rooms rid cid" if "removal_ok a"
      using that 1(3) reg by (auto simp: removal_ok_def settled_def acts split: action.splits sum.splits)
    with ok have "collider_ok (handle_action js lib a (c\<lparr>co_v2_rooms := rooms\<rparr>))" by (intro handle_action_ok) auto
    from 1(1) [OF p [symmetric] Some this] st show ?thesis
      by (simp add: drain_v2_actions.simps [of js lib c] p Some)
  qed
qed

text \<open>An operation of the V2 table followed by the drain.\<close>

lemma v2_op_drained:
  assumes "collider_ok c" "v2_inv rooms" "none_new (v2_registered (co_v2_rooms c)) rooms" "settled rooms" "quiet (co_rooms c)"
  shows "collider_inv (drain_v2_actions js lib (c\<lparr>co_v2_rooms := rooms\<rparr>))"
  using drain_v2_actions_ok [OF collider_ok_v2_rooms [OF assms(1-3)], of js lib] assms(4,5)
  by (simp add: collider_inv_def answered_def)

lemma drained_inv:
  assumes "collider_ok c" "settled (co_v2_rooms c)" "quiet (co_rooms c)"
  shows "collider_inv (drain_v2_actions js lib c)"
  using drain_v2_actions_ok [OF assms(1,2), of js lib] assms(3) by (simp add: collider_inv_def answered_def)

lemma v2_op_inv:
  assumes "collider_inv c" "v2_inv rooms" "none_new (v2_registered (co_v2_rooms c)) rooms"
    "answered rooms = answered (co_v2_rooms c)"
  shows "collider_inv (c\<lparr>co_v2_rooms := rooms\<rparr>)"
  using assms collider_ok_v2_rooms [of c rooms] by (simp add: collider_inv_def)

end
