(* ===== verification/Collider_System.thy ===== *)
theory Collider_System
  imports Collider_Inv
begin

text \<open>
  The authority as a transition system: every input of the driver, in any order, with
  rehashes of all maps in between. Every operation keeps the invariant and none panics.
\<close>

section \<open>V1 operations\<close>

text \<open>The V1 side changes and the V2 side does not.\<close>

lemma collider_inv_v1:
  "collider_inv c \<Longrightarrow> collider_ok c' \<Longrightarrow> co_v2_rooms c' = co_v2_rooms c \<Longrightarrow> quiet (co_rooms c') \<Longrightarrow> collider_inv c'"
  by (simp add: collider_inv_def)

lemma refuse_inv: "collider_inv c \<Longrightarrow> collider_inv (fst (refuse js conn e c)) \<and> snd (refuse js conn e c) \<noteq> Panicked"
  by (simp add: refuse_def collider_inv_def)

lemma linked_add_v1:
  assumes "linked c" "\<not> is_registered_session (map_of (co_sessions c) conn)" "map_of (co_connections c) (rid, cid) = None"
  shows "linked (c\<lparr>co_sessions := hm_insert conn (RegisteredV1 rid cid) (co_sessions c),
    co_connections := hm_insert (rid, cid) conn (co_connections c)\<rparr>)"
proof -
  have v2: "map_of (co_v2_connections c) (r, k) \<noteq> Some conn" for r k
    using linkedD(2) [OF assms(1), of r k conn] assms(2) by (auto simp: is_registered_session_def)
  have v1: "map_of (co_connections c) (r, k) \<noteq> Some conn" for r k
    using linkedD(1) [OF assms(1), of r k conn] assms(2) by (auto simp: is_registered_session_def)
  have "map_of (co_sessions c) conn' \<noteq> Some (RegisteredV1 rid cid)" for conn'
    using linkedD(1) [OF assms(1), of rid cid conn'] assms(3) by simp
  with v1 v2 assms(1) show ?thesis by (auto simp: linked_def)
qed

lemma register_v1_inv:
  assumes inv: "collider_inv c"
  shows "collider_inv (fst (register_v1 js conn msg now c)) \<and> snd (register_v1 js conn msg now c) \<noteq> Panicked"
proof -
  let ?rid = "ws_roomid msg" and ?cid = "ws_clientid msg"
  have c: "collider_ok c" using inv by (simp add: collider_inv_def)
  obtain rooms res where r: "table_register now ?rid ?cid (co_rooms c) = (rooms, res)" by force
  have exec: "rooms = v1_exec now (V1Register ?rid ?cid) (co_rooms c)" by (simp add: r)
  have rooms: "table_inv rooms" "no_empty_room rooms"
    unfolding exec using collider_okD(1,2) [OF c] by (blast intro: v1_exec_inv, intro v1_exec_no_empty) simp_all
  note reg = table_register_registered [OF collider_okD(1) [OF c], where now = now and rid = ?rid and cid = ?cid, unfolded r prod.case]
  show ?thesis
  proof (cases res)
    case (Inl e)
    with reg have e: "e \<noteq> Panic" by auto
    have same: "rooms = co_rooms c"
      using table_register_failed [OF collider_okD(1) [OF c]] inv r Inl by (simp add: collider_inv_def)
    have ok: "collider_inv (c\<lparr>co_rooms := rooms\<rparr>)" using inv by (simp add: same)
    obtain msg' where "e = Fail msg'" using e(1) by (cases e) simp_all
    then show ?thesis by (simp add: register_v1_def r Inl refuse_inv [OF ok] refuse_inv [OF inv])
  next
    case (Inr u)
    let ?c = "c\<lparr>co_rooms := rooms, co_sessions := hm_insert conn (RegisteredV1 ?rid ?cid) (co_sessions c),
        co_connections := hm_insert (?rid, ?cid) conn (co_connections c),
        co_total_websocket_connections := sat_add (co_total_websocket_connections c) 1\<rparr>"
    from reg Inr have u: "\<not> v1_registered (co_rooms c) ?rid ?cid"
      "\<And>rid' k. v1_registered rooms rid' k = (rid' = ?rid \<and> k = ?cid \<or> v1_registered (co_rooms c) rid' k)" by auto
    have "collider_inv (drain_room_writes js ?c)" if fresh: "\<not> is_registered_session (map_of (co_sessions c) conn)"
    proof (rule collider_inv_v1 [OF inv drain_room_writes_ok])
      have "map_of (co_connections c) (?rid, ?cid) = None"
        using collider_okD(5) [OF c] u(1) by (simp add: connected_def)
      from linked_add_v1 [OF collider_okD(4) [OF c] fresh this] have "linked ?c" by (simp add: linked_def)
      then show ok: "collider_ok ?c" using collider_okD [OF c] rooms u(2) by (auto simp: collider_ok_def connected_def)
      show "quiet (co_rooms (drain_room_writes js ?c))"
        using inv table_register_reads [OF r] by (intro drain_room_writes_quiet [OF ok]) (simp add: collider_inv_def quiet_sizes)
    qed simp
    then show ?thesis by (simp add: register_v1_def r Inr refuse_inv [OF inv])
  qed
qed

lemma relay_reads_ok:
  assumes "table_inv t" "no_empty_room t"
  shows "table_inv (fst (relay_reads now t)) \<and> no_empty_room (fst (relay_reads now t)) \<and>
    snd (relay_reads now t) \<noteq> Panicked \<and> v1_registered (fst (relay_reads now t)) rid k = v1_registered t rid k"
  using assms
proof (induction now t rule: relay_reads.induct)
  case (1 now t)
  obtain t1 x where p: "table_poll_read t = (t1, x)" by force
  have t1: "table_inv t1" "no_empty_room t1" "v1_registered t1 rid k = v1_registered t rid k"
    using v1_exec_inv [OF 1(2), of 0 V1PollRead] v1_exec_no_empty [OF 1(2,3), where now = 0 and op = V1PollRead] p
    by (simp_all add: table_poll_registered)
  show ?case
  proof (cases x)
    case None
    with t1 show ?thesis by (simp add: relay_reads.simps [of now t] p)
  next
    case (Some m)
    obtain t2 res where s: "table_send now (msg_roomid m) (msg_clientid m) (msg_msg m) t1 = (t2, res)" by force
    have t2: "table_inv t2" "no_empty_room t2" "v1_registered t2 rid k = v1_registered t1 rid k" "res \<noteq> Panicked"
      using v1_exec_inv [OF t1(1), of now "V1Send (msg_roomid m) (msg_clientid m) (msg_msg m)"]
        v1_exec_no_empty [OF t1(1,2), where now = now and op = "V1Send (msg_roomid m) (msg_clientid m) (msg_msg m)"]
        table_send_registered [OF t1(1), of now "msg_roomid m" "msg_clientid m" "msg_msg m"] s
      by (simp_all add: table_save_or_send_def)
    show ?thesis
    proof (cases res)
      case (Inl e)
      with t1 t2 show ?thesis by (simp add: relay_reads.simps [of now t] p Some s)
    next
      case (Inr u)
      with 1(1) [OF p [symmetric] Some s [symmetric] Inr t2(1,2)] t1(3) t2(3) show ?thesis
        by (simp add: relay_reads.simps [of now t] p Some s)
    qed
  qed
qed

text \<open>Whether the relay fails or not, nothing is left to read.\<close>

lemma relay_reads_quiet:
  assumes "table_inv t" "table_reads_size t \<le> 1" "table_writes_size t = 0" "relay_reads now t = (t', res)"
  shows "table_reads_size t' = 0 \<and> (res = Inl e \<longrightarrow> quiet t')"
proof -
  obtain t1 x where p: "table_poll_read t = (t1, x)" by force
  have t1: "table_inv t1" using table_polled_inv(1) [OF assms(1)] p by (metis fst_conv)
  have "table_reads_size t1 = 0"
  proof (cases x)
    case None
    with table_reads.poll_none [OF assms(1), of t1] p show ?thesis by simp
  next
    case (Some m)
    with table_poll_sizes(2) [OF p] assms(2) show ?thesis by simp
  qed
  with table_poll_read_writes [OF p] assms(3) have q: "quiet t1" by (simp add: quiet_sizes)
  show ?thesis
    using assms(4) relay_one [OF assms(1,2), of now] q table_send_quiet [OF t1 q]
    by (cases x) (auto simp: p quiet_sizes dest: table_send_reads)
qed

lemma send_v1_inv:
  assumes inv: "collider_inv c"
  shows "collider_inv (fst (send_v1 js rid cid text now c)) \<and> snd (send_v1 js rid cid text now c) \<noteq> Panicked"
proof -
  let ?m = "\<lparr>msg_roomid = rid, msg_clientid = cid, msg_msg = text\<rparr>"
  have c: "collider_ok c" using inv by (simp add: collider_inv_def)
  obtain rooms where h: "table_handle_read ?m (co_rooms c) = (rooms, Ok ())"
    using table_handle_read_ok by (metis prod.collapse)
  have h1: "table_inv rooms" "no_empty_room rooms" "v1_registered rooms r k = v1_registered (co_rooms c) r k" for r k
    using v1_exec_inv [OF collider_okD(1) [OF c], of 0 "V1HandleRead ?m"]
      v1_exec_no_empty [OF collider_okD(1,2) [OF c], where now = 0 and op = "V1HandleRead ?m"]
      table_handle_read_registered [of ?m "co_rooms c" r k] by (simp_all add: h)
  obtain rooms' res where r: "relay_reads now rooms = (rooms', res)" by force
  have "collider_ok (c\<lparr>co_rooms := rooms'\<rparr>)"
    using relay_reads_ok [OF h1(1,2), of now] by (intro collider_ok_rooms [OF c]) (simp_all add: r h1(3))
  moreover have "res \<noteq> Panicked" using relay_reads_ok [OF h1(1,2), of now] by (simp add: r)
  moreover have "table_reads_size rooms' = 0 \<and> (res = Inl e \<longrightarrow> quiet rooms')" for e
    using relay_reads_quiet [OF h1(1) _ _ r] table_handle_read_sizes [OF h] inv by (simp add: collider_inv_def quiet_sizes)
  ultimately show ?thesis
    using inv by (auto simp: send_v1_def h r collider_inv_def drain_room_writes_ok drain_room_writes_quiet split: sum.split)
qed

section \<open>V2 operations\<close>

text \<open>A registration gets a member registered and its connection recorded.\<close>

lemma v2_register_registered:
  assumes "v2_register rid cid token t = (t', Inr reg)" "v2_registered t' r k"
  shows "(r, k) = (rid, cid) \<or> v2_registered t r k"
  using assms
  by (auto simp: v2_register_def Let_def v2_registered_def member_registered_def drain_others_def map_of_map_entries
      split: option.splits if_splits)

lemma v2_register_failed: "v2_register rid cid token t = (t', Inl e) \<Longrightarrow> t' = t"
  by (auto simp: v2_register_def Let_def split: option.splits if_splits)

lemma linked_add_v2:
  assumes "linked c" "\<not> is_registered_session (map_of (co_sessions c) conn)"
  shows "linked (c\<lparr>co_sessions := hm_insert conn (RegisteredV2 rid cid) (co_sessions c),
    co_v2_connections := hm_insert (rid, cid) conn (co_v2_connections c)\<rparr>)"
proof -
  have v2: "map_of (co_v2_connections c) (r, k) \<noteq> Some conn" for r k
    using linkedD(2) [OF assms(1), of r k conn] assms(2) by (auto simp: is_registered_session_def)
  have v1: "map_of (co_connections c) (r, k) \<noteq> Some conn" for r k
    using linkedD(1) [OF assms(1), of r k conn] assms(2) by (auto simp: is_registered_session_def)
  from v1 v2 assms(1) show ?thesis by (auto simp: linked_def)
qed

lemma push_outputs_sel [simp]:
  "co_rooms (fold (\<lambda>x. push_output (f x)) xs c) = co_rooms c"
  "co_v2_rooms (fold (\<lambda>x. push_output (f x)) xs c) = co_v2_rooms c"
  "co_sessions (fold (\<lambda>x. push_output (f x)) xs c) = co_sessions c"
  "co_connections (fold (\<lambda>x. push_output (f x)) xs c) = co_connections c"
  "co_v2_connections (fold (\<lambda>x. push_output (f x)) xs c) = co_v2_connections c"
  "co_browser_outputs (fold (\<lambda>x. push_output (f x)) xs c) = co_browser_outputs c @ map f xs"
  by (induction xs arbitrary: c) simp_all

lemma push_outputs_ok [simp]: "collider_ok (fold (\<lambda>x. push_output (f x)) xs c) = collider_ok c"
  by (rule collider_ok_cong; simp)

lemma register_v2_inv:
  assumes inv: "collider_inv c"
  shows "collider_inv (fst (register_v2 js lib conn msg c)) \<and> snd (register_v2 js lib conn msg c) \<noteq> Panicked"
proof -
  have c: "collider_ok c" and a: "answered (co_v2_rooms c) = []" using inv by (simp_all add: collider_inv_def)
  have main: "collider_inv (c\<lparr>co_v2_rooms := rooms,
       co_sessions := hm_insert conn (RegisteredV2 rid cid) (co_sessions c),
       co_v2_connections := hm_insert (rid, cid) conn (co_v2_connections c),
       co_total_websocket_connections := n\<rparr>)"
    if fresh: "\<not> is_registered_session (map_of (co_sessions c) conn)"
      and r: "v2_register rid cid (ws_token msg) (co_v2_rooms c) = (rooms, Inr reg)" for rid cid rooms reg n
  proof -
    have v2: "v2_inv rooms" using v2_register_inv [OF collider_okD(3) [OF c], of rid cid "ws_token msg"] r by simp
    have "answered rooms = []" using v2_register_answered [of rid cid "ws_token msg" "co_v2_rooms c"] r a by simp
    moreover have "connected (c\<lparr>co_v2_rooms := rooms, co_v2_connections := hm_insert (rid, cid) conn (co_v2_connections c)\<rparr>)"
      using collider_okD(5) [OF c] v2_register_registered [OF r] by (fastforce simp: connected_def)
    moreover note linked_add_v2 [OF collider_okD(4) [OF c] fresh, of rid cid]
    ultimately show ?thesis
      using collider_okD(1,2) [OF c] v2 inv by (simp add: collider_inv_def collider_ok_def linked_def connected_def)
  qed
  have no_panic: "snd (v2_register rid cid token (co_v2_rooms c)) \<noteq> Panicked" for rid cid token
    using v2_register_inv [OF collider_okD(3) [OF c]] by blast
  have pushed: "collider_inv (fold (\<lambda>m. push_output (f m)) ms (push_output out c')) = collider_inv c'" for f ms out c'
    by (simp add: collider_inv_def)
  have same: "c\<lparr>co_v2_rooms := co_v2_rooms c\<rparr> = c" by simp
  show ?thesis
  proof (cases "is_registered_session (map_of (co_sessions c) conn) \<or> parse_room_token lib (ws_roomid msg) = None \<or>
      canonical_u64 (ws_clientid msg) = None \<or> ws_token msg = []")
    case True
    then show ?thesis by (auto simp: register_v2_def refuse_inv [OF inv] split: option.split)
  next
    case False
    then obtain rid cid where ids: "parse_room_token lib (ws_roomid msg) = Some rid" "canonical_u64 (ws_clientid msg) = Some cid"
      by auto
    obtain rooms res where r: "v2_register rid cid (ws_token msg) (co_v2_rooms c) = (rooms, res)" by force
    show ?thesis
    proof (cases res)
      case (Inl e)
      with r v2_register_failed have "rooms = co_v2_rooms c" "e \<noteq> Panic"
        using no_panic [of rid cid "ws_token msg"] by auto
      then obtain m where "e = Fail m" by (cases e) simp_all
      with \<open>rooms = co_v2_rooms c\<close> False ids show ?thesis by (simp add: register_v2_def r Inl refuse_inv [OF inv])
    next
      case (Inr reg)
      with main [of rid cid rooms reg] r False ids show ?thesis by (simp add: register_v2_def pushed)
    qed
  qed
qed

lemma send_v2_inv:
  assumes inv: "collider_inv c"
  shows "collider_inv (fst (send_v2 js lib rid cid msg c)) \<and> snd (send_v2 js lib rid cid msg c) \<noteq> Panicked"
proof (cases "Option.bind (ws_epoch msg) (canonical_json_u64 js)")
  case None
  with inv show ?thesis by (simp add: send_v2_def)
next
  case (Some epoch)
  have c: "collider_ok c" and a: "answered (co_v2_rooms c) = []" using inv by (simp_all add: collider_inv_def)
  obtain rooms res where s: "v2_send rid cid epoch (ws_msg msg) (co_v2_rooms c) = (rooms, res)" by force
  have r: "v2_inv rooms" "none_new (v2_registered (co_v2_rooms c)) rooms" "answered rooms = []" "res \<noteq> Panicked"
    using v2_send_inv [OF collider_okD(3) [OF c], of rid cid epoch "ws_msg msg"]
      v2_send_new [OF none_new_self, of "co_v2_rooms c" rid cid epoch "ws_msg msg"]
      v2_send_answered [of rid cid epoch "ws_msg msg" "co_v2_rooms c"] s a by simp_all
  have st: "settled rooms" using r(3) by (simp add: settled_iff)
  have ok: "collider_ok (c\<lparr>co_v2_rooms := rooms\<rparr>)" using collider_ok_v2_rooms [OF c r(1,2)] .
  have "collider_inv (drain_v2_actions js lib (text_to_member x y z (c\<lparr>co_v2_rooms := rooms\<rparr>)))" for x y z
    by (rule drained_inv) (use inv in \<open>simp_all add: ok st collider_inv_def\<close>)
  moreover have "quiet (co_rooms c)" using inv by (simp add: collider_inv_def)
  moreover note drained_inv [OF ok] st v2_op_inv [OF inv r(1,2)] r(3,4) a
  ultimately show ?thesis
    by (auto simp: send_v2_def Some s Let_def split: sum.split send_result.split option.split)
qed

lemma collider_send_inv:
  assumes inv: "collider_inv c"
  shows "collider_inv (fst (collider_send js lib conn msg now c)) \<and> snd (collider_send js lib conn msg now c) \<noteq> Panicked"
  by (simp add: collider_send_def send_v1_inv [OF inv] send_v2_inv [OF inv] refuse_inv [OF inv]
      split: option.split session.split)

lemma handle_browser_text_inv:
  assumes inv: "collider_inv c"
  shows "collider_inv (fst (handle_browser_text js lib conn text now c)) \<and>
    snd (handle_browser_text js lib conn text now c) \<noteq> Panicked"
  by (simp add: handle_browser_text_def register_v1_inv [OF inv] register_v2_inv [OF inv]
      collider_send_inv [OF inv] refuse_inv [OF inv] split: sum.split)

section \<open>Dropped connections\<close>

lemma linked_drop_session:
  assumes "linked c" "\<And>rid cid. map_of (co_connections c) (rid, cid) \<noteq> Some conn"
    "\<And>rid cid. map_of (co_v2_connections c) (rid, cid) \<noteq> Some conn"
  shows "linked (c\<lparr>co_sessions := hm_remove conn (co_sessions c)\<rparr>)"
  using assms by (auto simp: linked_def)

lemma disconnect_inv:
  assumes inv: "collider_inv c"
  shows "collider_inv (disconnect js lib conn now c)"
proof (cases "map_of (co_sessions c) conn")
  case None
  with inv show ?thesis by (simp add: disconnect_def)
next
  case (Some s)
  have c: "collider_ok c" and a: "answered (co_v2_rooms c) = []" using inv by (simp_all add: collider_inv_def)
  note link = collider_okD(4) [OF c]
  have dropped: "collider_inv (c\<lparr>co_sessions := hm_remove conn (co_sessions c)\<rparr>)"
    if "\<And>rid cid. map_of (co_connections c) (rid, cid) \<noteq> Some conn"
      "\<And>rid cid. map_of (co_v2_connections c) (rid, cid) \<noteq> Some conn"
    using linked_drop_session [OF link that] inv by (simp add: collider_inv_def collider_ok_def connected_def)
  show ?thesis
  proof (cases s)
    case SessionConnected
    have "map_of (co_connections c) (rid, cid) \<noteq> Some conn" for rid cid
      using linkedD(1) [OF link, of rid cid conn] Some SessionConnected by auto
    moreover have "map_of (co_v2_connections c) (rid, cid) \<noteq> Some conn" for rid cid
      using linkedD(2) [OF link, of rid cid conn] Some SessionConnected by auto
    ultimately show ?thesis using dropped by (simp add: disconnect_def Some SessionConnected)
  next
    case (RegisteredV1 rid cid)
    then have conn: "map_of (co_connections c) (rid, cid) = Some conn"
      using linkedD(1) [OF link, of rid cid conn] Some by simp
    let ?rooms = "table_deregister now rid cid (co_rooms c)"
    have rooms: "table_inv ?rooms" "no_empty_room ?rooms"
      using v1_exec_inv [OF collider_okD(1) [OF c], of now "V1Deregister rid cid"]
        v1_exec_no_empty [OF collider_okD(1,2) [OF c], where now = now and op = "V1Deregister rid cid"] by simp_all
    have "linked (c\<lparr>co_sessions := hm_remove conn (co_sessions c), co_connections := hm_remove (rid, cid) (co_connections c),
        co_rooms := ?rooms\<rparr>)"
      using linked_drop_v1 [OF link conn] by (simp add: linked_def)
    moreover have "connected (c\<lparr>co_sessions := hm_remove conn (co_sessions c),
        co_connections := hm_remove (rid, cid) (co_connections c), co_rooms := ?rooms\<rparr>)"
      using collider_okD(5) [OF c] by (auto simp: connected_def table_deregister_registered)
    ultimately show ?thesis
      using inv rooms table_deregister_quiet [OF collider_okD(1) [OF c]]
      by (simp add: disconnect_def Some RegisteredV1 conn collider_inv_def collider_ok_def)
  next
    case (RegisteredV2 rid cid)
    have v1: "map_of (co_connections c) (r, k) \<noteq> Some conn" for r k
      using linkedD(1) [OF link, of r k conn] Some RegisteredV2 by simp
    show ?thesis
    proof (cases "map_of (co_v2_connections c) (rid, cid) = Some conn")
      case True
      let ?v2 = "v2_deregister now rid cid (co_v2_rooms c)"
      let ?c = "c\<lparr>co_sessions := hm_remove conn (co_sessions c),
        co_v2_connections := hm_remove (rid, cid) (co_v2_connections c), co_v2_rooms := ?v2\<rparr>"
      have reg: "none_new (\<lambda>r k. v2_registered (co_v2_rooms c) r k \<and> \<not> (r = rid \<and> k = cid)) ?v2"
        by (rule v2_deregister_new) simp
      have "linked ?c" using linked_drop_v2 [OF link True] by (simp add: linked_def)
      moreover have "connected ?c"
        using collider_okD(5) [OF c] reg by (auto simp: connected_def none_new_iff)
      ultimately have "collider_ok ?c"
        using collider_okD [OF c] v2_deregister_inv by (simp add: collider_ok_def)
      moreover have "settled ?v2" using a by (simp add: settled_iff v2_deregister_answered)
      ultimately have "collider_inv (drain_v2_actions js lib ?c)"
        using inv by (intro drained_inv) (simp_all add: collider_inv_def)
      then show ?thesis by (simp add: disconnect_def Some RegisteredV2 True)
    next
      case False
      have "map_of (co_v2_connections c) (r, k) \<noteq> Some conn" for r k
        using linkedD(2) [OF link, of r k conn] Some RegisteredV2 False by auto
      with dropped v1 False show ?thesis by (simp add: disconnect_def Some RegisteredV2)
    qed
  qed
qed

section \<open>Authority commands\<close>

lemma close_v1_leave_ok:
  assumes "collider_ok c"
  shows "collider_ok ((close_client_connection rid cid c)\<lparr>co_rooms := table_leave rid cid (co_rooms c)\<rparr>)"
proof -
  have rooms: "table_inv (table_leave rid cid (co_rooms c))" "no_empty_room (table_leave rid cid (co_rooms c))"
    using v1_exec_inv [OF collider_okD(1) [OF assms], of 0 "V1Leave rid cid"]
      v1_exec_no_empty [OF collider_okD(1,2) [OF assms], where now = 0 and op = "V1Leave rid cid"] by simp_all
  note con = collider_okD(5) [OF assms]
  show ?thesis
  proof (cases "map_of (co_connections c) (rid, cid)")
    case None
    with con have "\<not> v1_registered (co_rooms c) rid cid" by (simp add: connected_def)
    with assms rooms None show ?thesis
      by (auto simp: close_client_connection_def table_leave_registered intro!: collider_ok_rooms)
  next
    case (Some conn)
    from linked_drop_v1 [OF collider_okD(4) [OF assms] Some]
    have "linked (c\<lparr>co_connections := hm_remove (rid, cid) (co_connections c), co_sessions := hm_remove conn (co_sessions c),
        co_rooms := table_leave rid cid (co_rooms c)\<rparr>)" by (simp add: linked_def)
    moreover have "connected (c\<lparr>co_connections := hm_remove (rid, cid) (co_connections c), co_sessions := hm_remove conn (co_sessions c),
        co_rooms := table_leave rid cid (co_rooms c)\<rparr>)"
      using con by (auto simp: connected_def table_leave_registered)
    ultimately show ?thesis
      using rooms collider_okD(3) [OF assms]
      by (simp add: close_client_connection_def Some push_output_def collider_ok_def connected_def linked_def)
  qed
qed

lemma close_client_sel [simp]:
  "co_rooms (close_client_connection rid cid c) = co_rooms c"
  "co_v2_rooms (close_client_connection rid cid c) = co_v2_rooms c"
  by (simp_all add: close_client_connection_def split: option.split)

lemma push_promotion_sel [simp]:
  "collider_ok (push_promotion js lib p c) = collider_ok c" "co_v2_rooms (push_promotion js lib p c) = co_v2_rooms c"
  "co_rooms (push_promotion js lib p c) = co_rooms c"
  by (simp_all add: push_promotion_def)

lemma push_promotions_sel [simp]:
  "collider_ok (fold (push_promotion js lib) ps c) = collider_ok c"
  "co_v2_rooms (fold (push_promotion js lib) ps c) = co_v2_rooms c"
  "co_rooms (fold (push_promotion js lib) ps c) = co_rooms c"
  by (induction ps arbitrary: c) simp_all

lemma collider_inv_respond [simp]: "collider_inv (push_response req res c) = collider_inv c"
  by (simp add: collider_inv_def)

lemma authority_match_inv:
  assumes inv: "collider_inv c"
  shows "collider_inv (fst (authority_match js lib req operation c)) \<and>
    snd (authority_match js lib req operation c) \<noteq> Panicked"
proof -
  have c: "collider_ok c" and a: "answered (co_v2_rooms c) = []" and q: "quiet (co_rooms c)"
    using inv by (simp_all add: collider_inv_def)
  note t = collider_okD(1) [OF c] and v = collider_okD(3) [OF c]
  have v1: "collider_ok (c\<lparr>co_rooms := rooms\<rparr>)"
    if "rooms = v1_exec now op (co_rooms c)" "\<And>k. op \<noteq> V1Room k"
      "\<And>rid cid. v1_registered rooms rid cid = v1_registered (co_rooms c) rid cid" for rooms now op
    using v1_op_ok [OF c that] .
  have v2: "collider_inv (c\<lparr>co_v2_rooms := rooms\<rparr>) \<and> collider_inv (drain_v2_actions js lib (c\<lparr>co_v2_rooms := rooms\<rparr>))"
    if "v2_inv rooms" "none_new (v2_registered (co_v2_rooms c)) rooms" "answered rooms = answered (co_v2_rooms c)" for rooms
    using v2_op_inv [OF inv that] drained_inv [OF collider_ok_v2_rooms [OF c that(1,2)], of js lib] that(3) a q
    by (simp add: settled_iff)
  show ?thesis
  proof (cases operation)
    case (OpAdmit rid cid lb now)
    obtain rooms res where r: "table_join now rid cid lb (co_rooms c) = (rooms, res)" by force
    then have "collider_ok (c\<lparr>co_rooms := rooms\<rparr>)" "res \<noteq> Panicked" "quiet rooms"
      using table_join_registered [OF t, of now rid cid lb] table_join_quiet [OF t q, of now rid cid lb]
      by (auto intro!: v1 [of _ now "V1Join rid cid lb"])
    then have "collider_inv (c\<lparr>co_rooms := rooms\<rparr>)" "res \<noteq> Panicked" using a by (simp_all add: collider_inv_def)
    then show ?thesis by (auto simp: authority_match_def OpAdmit r split: sum.split failure.split)
  next
    case (OpRemove rid cid)
    with close_v1_leave_ok [OF c, of rid cid] a table_leave_quiet [OF t q] show ?thesis by (simp add: authority_match_def Let_def collider_inv_def)
  next
    case (OpInject rid cid msg now)
    obtain rooms res where r: "table_save_or_send now rid cid msg (co_rooms c) = (rooms, res)" by force
    then have rooms: "collider_ok (c\<lparr>co_rooms := rooms\<rparr>)" "res \<noteq> Panicked"
      using table_send_registered [OF t, of now rid cid msg]
      by (auto simp: table_save_or_send_def intro!: v1 [of _ now "V1Send rid cid msg"])
    have s: "table_send now rid cid msg (co_rooms c) = (rooms, res)" using r by (simp add: table_save_or_send_def)
    have "table_reads_size rooms = 0" using table_send_reads [OF s] q by (simp add: quiet_sizes)
    then have "collider_inv (drain_room_writes js (c\<lparr>co_rooms := rooms\<rparr>))"
      using rooms(1) a by (simp add: collider_inv_def drain_room_writes_ok drain_room_writes_quiet)
    moreover have "collider_inv (c\<lparr>co_rooms := rooms\<rparr>)" if "res = Inl e" for e
      using table_send_quiet [OF t q] s that rooms(1) a by (simp add: collider_inv_def)
    moreover note rooms(2)
    ultimately show ?thesis by (auto simp: authority_match_def OpInject r split: sum.split failure.split)
  next
    case (OpAdmitV2 rid cid token now)
    obtain rooms res where r: "admit req now rid cid token (co_v2_rooms c) = (rooms, res)" by force
    have "v2_inv rooms" "none_new (v2_registered (co_v2_rooms c)) rooms" "answered rooms = answered (co_v2_rooms c)" "res \<noteq> Panicked"
      using admit_inv [OF v, of req now rid cid token] admit_new [OF none_new_self, of "co_v2_rooms c" req now rid cid token]
        admit_answered [of req now rid cid token "co_v2_rooms c"] r by simp_all
    with v2 show ?thesis
      by (auto simp: authority_match_def OpAdmitV2 r split: sum.split failure.split admission_result.split)
  next
    case (OpRemoveV2 rid cid token)
    obtain rooms res where r: "v2_remove req rid cid token (co_v2_rooms c) = (rooms, res)" by force
    have rooms: "v2_inv rooms" "none_new (v2_registered (co_v2_rooms c)) rooms" "answered rooms = answered (co_v2_rooms c)" "res \<noteq> Panicked"
      using v2_remove_inv [OF v, of req rid cid token] v2_remove_new [OF none_new_self, of "co_v2_rooms c" req rid cid token]
        v2_remove_answered [of req rid cid token "co_v2_rooms c"] r by simp_all
    have "collider_inv (close_v2_client_connection rid cid (c\<lparr>co_v2_rooms := rooms\<rparr>))"
      if "res = Inr (RemovalComplete p)" for p
      using close_v2_ok [OF collider_ok_v2_rooms [OF c rooms(1,2)]] v2_remove_gone [of req rid cid token "co_v2_rooms c" rooms p]
        r that rooms(3) a q by (simp add: collider_inv_def)
    with v2 [OF rooms(1-3)] rooms(4) show ?thesis
      by (auto simp: authority_match_def OpRemoveV2 r Let_def collider_inv_def
          split: sum.split failure.split removal_result.split option.split)
  qed (use inv in \<open>simp_all add: authority_match_def\<close>)
qed

lemma handle_authority_inv:
  assumes inv: "collider_inv c"
  shows "collider_inv (fst (handle_authority js lib command c)) \<and> snd (handle_authority js lib command c) \<noteq> Panicked"
proof -
  obtain c1 res where m: "authority_match js lib (ac_request_id command) (ac_operation command) c = (c1, res)" by force
  have c1: "collider_inv c1" "res \<noteq> Panicked"
    using authority_match_inv [OF inv, of js lib "ac_request_id command" "ac_operation command"] m by simp_all
  have "collider_inv (drain_v2_actions js lib (push_response req r c1))" for req r
    using collider_inv_settled [OF c1(1)] c1(1) by (intro drained_inv) (simp_all add: collider_inv_def)
  with c1 show ?thesis by (auto simp: handle_authority_def m split: sum.split option.split)
qed

section \<open>Workers, timeouts and the end\<close>

lemma collider_handle_sfu_input_inv:
  assumes inv: "collider_inv c"
  shows "collider_inv (fst (collider_handle_sfu_input js lib input c)) \<and>
    snd (collider_handle_sfu_input js lib input c) \<noteq> Panicked"
proof -
  have c: "collider_ok c" and a: "answered (co_v2_rooms c) = []" using inv by (simp_all add: collider_inv_def)
  obtain rooms res where r: "handle_sfu_input input (co_v2_rooms c) = (rooms, res)" by force
  have rooms: "v2_inv rooms" "none_new (v2_registered (co_v2_rooms c)) rooms" "res \<noteq> Panicked" "settled rooms"
    using handle_sfu_input_inv [OF collider_okD(3) [OF c], of input]
      handle_sfu_input_new [OF none_new_self, of "co_v2_rooms c" input]
      handle_sfu_input_settled [of "co_v2_rooms c" input] r a by (simp_all add: settled_iff)
  show ?thesis
  proof (cases res)
    case (Inl e)
    with handle_sfu_input_failed [of input "co_v2_rooms c" rooms e] r a
    have "collider_inv (c\<lparr>co_v2_rooms := rooms\<rparr>)" by (intro v2_op_inv [OF inv rooms(1,2)]) simp
    with rooms(3) show ?thesis by (simp add: collider_handle_sfu_input_def r Inl)
  next
    case (Inr u)
    with v2_op_drained [OF c rooms(1,2,4)] inv show ?thesis by (simp add: collider_handle_sfu_input_def r collider_inv_def)
  qed
qed

lemma collider_handle_timeout_inv:
  assumes inv: "collider_inv c"
  shows "collider_inv (fst (collider_handle_timeout js lib now c)) \<and>
    snd (collider_handle_timeout js lib now c) = Ok ()"
proof -
  have c: "collider_ok c" and a: "answered (co_v2_rooms c) = []" using inv by (simp_all add: collider_inv_def)
  obtain rooms where r: "table_handle_timeout now (co_rooms c) = (rooms, Ok ())"
    using table_handle_timeout_registered(2) [OF collider_okD(1) [OF c]] by (metis prod.collapse)
  have c1: "collider_ok (c\<lparr>co_rooms := rooms\<rparr>)"
    using table_handle_timeout_registered(1) [OF collider_okD(1) [OF c], of now] r
    by (intro v1_op_ok [OF c, of _ now V1Timeout]) simp_all
  obtain v2 ps where v: "v2_handle_timeout now (co_v2_rooms c) = (v2, ps)" by force
  have "v2_inv v2" "none_new (v2_registered (co_v2_rooms c)) v2" "settled v2"
    using v2_handle_timeout_inv [OF collider_okD(3) [OF c], of now] v2_handle_timeout_new [OF none_new_self, of "co_v2_rooms c" now]
      v2_handle_timeout_answered [of now "co_v2_rooms c"] v a by (simp_all add: settled_iff)
  moreover have "quiet rooms"
    using table_handle_timeout_quiet [OF collider_okD(1) [OF c], of now] inv r by (simp add: collider_inv_def)
  moreover note collider_ok_v2_rooms [OF c1, of v2]
  ultimately have "collider_inv (drain_v2_actions js lib (fold (push_promotion js lib) ps (c\<lparr>co_rooms := rooms, co_v2_rooms := v2\<rparr>)))"
    by (intro drained_inv) simp_all
  then show ?thesis by (simp add: collider_handle_timeout_def r v)
qed

lemma collider_close_inv:
  assumes inv: "collider_inv c"
  shows "collider_inv (fst (collider_close c)) \<and> snd (collider_close c) = Ok ()"
proof -
  let ?v2 = "v2_clear (co_v2_rooms c)"
  have c: "collider_ok c" using inv by (simp add: collider_inv_def)
  have "no_empty_room (co_rooms c\<lparr>rt_rooms := []\<rparr>)" by (simp add: no_empty_room_def)
  moreover have "table_inv (co_rooms c\<lparr>rt_rooms := []\<rparr>)" by (simp add: table_inv_def)
  moreover have "v2_inv ?v2" using v2_clear_inv [OF collider_okD(3) [OF c]] by simp
  ultimately show ?thesis
    by (simp add: collider_close_def Let_def table_close_eq collider_inv_def collider_ok_def linked_def connected_def
        v1_registered_def v2_registered_def v2_clear_def answered_def quiet_def)
qed

section \<open>The transition system\<close>

datatype collider_op =
    CoRead browser_input
  | CoWrite authority_command
  | CoSfu sfu_input
  | CoTimeout instant
  | CoSetDwell duration
  | CoPollWrite
  | CoPollEvent
  | CoClose

fun collider_exec :: "'v json \<Rightarrow> token_lib \<Rightarrow> collider_op \<Rightarrow> collider \<Rightarrow> collider \<times> unit result" where
  "collider_exec js lib (CoRead input) c = collider_handle_read js lib input c"
| "collider_exec js lib (CoWrite command) c = collider_handle_write js lib command c"
| "collider_exec js lib (CoSfu input) c = collider_handle_sfu_input js lib input c"
| "collider_exec js lib (CoTimeout now) c = collider_handle_timeout js lib now c"
| "collider_exec js lib (CoSetDwell d) c = (collider_set_downgrade_dwell d c, Ok ())"
| "collider_exec js lib CoPollWrite c = (fst (collider_poll_write c), Ok ())"
| "collider_exec js lib CoPollEvent c = (fst (collider_poll_event c), Ok ())"
| "collider_exec js lib CoClose c = collider_close c"

text \<open>The driver's side of the contract: a new connection gets an id that is not in use.\<close>

fun driver_ok :: "collider_op \<Rightarrow> collider \<Rightarrow> bool" where
  "driver_ok (CoRead (BrowserConnected conn)) c \<longleftrightarrow> map_of (co_sessions c) conn = None"
| "driver_ok op c \<longleftrightarrow> True"

lemma connected_fresh_inv:
  assumes "collider_inv c" "map_of (co_sessions c) conn = None"
  shows "collider_inv (c\<lparr>co_sessions := hm_insert conn SessionConnected (co_sessions c)\<rparr>)"
proof -
  have c: "collider_ok c" using assms(1) by (simp add: collider_inv_def)
  note link = collider_okD(4) [OF c]
  have "map_of (co_v2_connections c) (r, k) \<noteq> Some conn" for r k
    using linkedD(2) [OF link, of r k conn] assms(2) by auto
  then have "linked (c\<lparr>co_sessions := hm_insert conn SessionConnected (co_sessions c)\<rparr>)"
    using link assms(2) by (auto simp: linked_def)
  then show ?thesis using assms(1) by (simp add: collider_inv_def collider_ok_def connected_def)
qed

lemma collider_handle_read_inv:
  assumes "collider_inv c" "driver_ok (CoRead input) c"
  shows "collider_inv (fst (collider_handle_read js lib input c)) \<and>
    snd (collider_handle_read js lib input c) \<noteq> Panicked"
  using assms connected_fresh_inv [OF assms(1)]
  by (cases input) (simp_all add: collider_handle_read_def handle_browser_text_inv disconnect_inv)

lemma collider_exec_inv:
  assumes inv: "collider_inv c" and d: "driver_ok op c"
  shows "collider_inv (fst (collider_exec js lib op c)) \<and> snd (collider_exec js lib op c) \<noteq> Panicked"
proof (cases op)
  case (CoSetDwell dwell)
  have "v2_registered (set_downgrade_dwell dwell t) = v2_registered t" "answered (set_downgrade_dwell dwell t) = answered t" for t
    by (simp_all add: v2_registered_def set_downgrade_dwell_def answered_def fun_eq_iff)
  then show ?thesis
    using inv set_downgrade_dwell_inv
    by (simp add: CoSetDwell collider_set_downgrade_dwell_def collider_inv_def collider_ok_def linked_def connected_def)
next
  case CoPollWrite
  with inv show ?thesis
    by (auto simp: collider_poll_write_def collider_inv_def collider_ok_def linked_def connected_def split: list.split)
next
  case CoPollEvent
  with inv show ?thesis
    by (auto simp: collider_poll_event_def collider_inv_def collider_ok_def linked_def connected_def split: list.split)
next
  case (CoRead input)
  with collider_handle_read_inv [OF inv] d show ?thesis by simp
qed (simp_all add: collider_handle_write_def handle_authority_inv [OF inv] collider_handle_sfu_input_inv [OF inv]
    collider_handle_timeout_inv [OF inv] collider_close_inv [OF inv])

text \<open>Rehashing the maps changes nothing the invariant sees.\<close>

definition collider_perm :: "collider \<Rightarrow> collider \<Rightarrow> bool" where
  "collider_perm c c' \<longleftrightarrow>
     table_perm (co_rooms c) (co_rooms c') \<and> v2_perm (co_v2_rooms c) (co_v2_rooms c') \<and>
     hm_perm (co_sessions c) (co_sessions c') \<and> hm_perm (co_connections c) (co_connections c') \<and>
     hm_perm (co_v2_connections c) (co_v2_connections c') \<and>
     co_browser_outputs c' = co_browser_outputs c \<and> co_authority_responses c' = co_authority_responses c \<and>
     co_total_websocket_connections c' = co_total_websocket_connections c \<and>
     co_websocket_errors c' = co_websocket_errors c"

lemma v1_registered_perm: "table_perm t t' \<Longrightarrow> v1_registered t' rid k = v1_registered t rid k"
proof -
  assume "table_perm t t'"
  then have "rel_option room_perm (map_of (rt_rooms t) rid) (map_of (rt_rooms t') rid)" by (simp add: table_perm_def)
  moreover have "room_registered r' k = room_registered r k" if "room_perm r r'" for r r'
    using that unfolding room_perm_def room_registered_def by (metis hm_perm_get)
  ultimately show ?thesis by (auto simp: v1_registered_def elim!: option.rel_cases)
qed

lemma v2_registered_perm: "v2_perm t t' \<Longrightarrow> v2_registered t' rid k = v2_registered t rid k"
proof -
  assume "v2_perm t t'"
  then have "rel_option v2_room_perm (map_of (vt_rooms t) rid) (map_of (vt_rooms t') rid)" by (simp add: v2_perm_def)
  moreover have "member_registered r' k = member_registered r k" if "v2_room_perm r r'" for r r'
    using that unfolding v2_room_perm_def member_registered_def by (metis hm_perm_get)
  ultimately show ?thesis by (auto simp: v2_registered_def elim!: option.rel_cases)
qed

lemma quiet_perm:
  assumes "table_inv t" "quiet t" "table_perm t t'"
  shows "quiet t'"
proof -
  have "room_quiet r'" if r': "(k, r') \<in> set (rt_rooms t')" for k r'
  proof -
    have "map_of (rt_rooms t') k = Some r'" using r' assms(3) by (simp add: table_perm_def)
    then obtain r where r: "map_of (rt_rooms t) k = Some r" "room_perm r r'"
      using assms(3) unfolding table_perm_def by (metis option_rel_Some2)
    then have "room_quiet r" using assms(2) by (auto simp: quiet_def dest: map_of_SomeD)
    moreover have "hm_ok (rm_clients r')" "map_of (rm_clients r') = map_of (rm_clients r)"
      using r(2) by (simp_all add: room_perm_def hm_perm_def)
    ultimately show ?thesis
      by (auto simp: room_quiet_def in_set_hm dest!: map_of_SomeD)
  qed
  then show ?thesis by (auto simp: quiet_def)
qed

lemma collider_inv_perm:
  assumes "collider_inv c" "collider_perm c c'"
  shows "collider_inv c'"
proof -
  have p: "table_perm (co_rooms c) (co_rooms c')" "v2_perm (co_v2_rooms c) (co_v2_rooms c')"
    "map_of (co_sessions c') = map_of (co_sessions c)" "map_of (co_connections c') = map_of (co_connections c)"
    "map_of (co_v2_connections c') = map_of (co_v2_connections c)"
    using assms(2) by (simp_all add: collider_perm_def hm_perm_def)
  have c: "collider_ok c" and a: "answered (co_v2_rooms c) = []" using assms(1) by (simp_all add: collider_inv_def)
  have "answered (co_v2_rooms c') = []" using a p(2) by (simp add: answered_def v2_perm_def)
  moreover have "linked c'" "connected c'"
    using collider_okD(4,5) [OF c]
    by (simp_all add: linked_def connected_def p(3-5) v1_registered_perm [OF p(1)] v2_registered_perm [OF p(2)])
  ultimately show ?thesis
    using table_inv_perm [OF _ p(1)] no_empty_perm [OF _ p(1)] v2_inv_perm [OF _ p(2)] collider_okD(1-3) [OF c]
      quiet_perm [OF collider_okD(1) [OF c] _ p(1)] assms(1)
    by (simp add: collider_inv_def collider_ok_def)
qed

definition collider_initial :: "collider \<Rightarrow> bool" where
  "collider_initial c \<longleftrightarrow> c = collider_new (rt_register_timeout (co_rooms c))"

inductive collider_step :: "'v json \<Rightarrow> token_lib \<Rightarrow> collider \<Rightarrow> collider \<Rightarrow> bool" for js lib where
  exec: "driver_ok op c \<Longrightarrow> collider_step js lib c (fst (collider_exec js lib op c))"
| rehash: "collider_perm c c' \<Longrightarrow> collider_step js lib c c'"

inductive_cases collider_stepE: "collider_step js lib c c'"

lemma collider_inv_new: "collider_inv (collider_new d)"
proof -
  have "no_empty_room (table_new d)" by (simp add: no_empty_room_def table_new_def)
  moreover have "\<not> v2_registered (v2_new d) rid k" "answered (v2_new d) = []" for rid k
    by (simp_all add: v2_registered_def v2_new_def answered_def)
  ultimately show ?thesis
    by (simp add: collider_inv_def collider_ok_def collider_new_def linked_def connected_def table_inv_new v2_new_inv)
qed

interpretation authority: invariant_system collider_initial "collider_step js lib" collider_inv
  for js :: "'v json" and lib
proof
  show "collider_initial c \<Longrightarrow> collider_inv c" for c
    unfolding collider_initial_def using collider_inv_new by metis
  show "collider_inv c \<Longrightarrow> collider_step js lib c c' \<Longrightarrow> collider_inv c'" for c c'
    by (auto elim!: collider_stepE intro: collider_inv_perm simp: collider_exec_inv)
qed

end
