(* ===== verification/Collider_Samples.thy ===== *)
theory Collider_Samples
  imports Collider_System V2_System
begin

text \<open>
  Runs of the whole authority and three concrete states of it, on which the properties are
  applied: two V1 clients in a room, and a V2 room whose second member is admitted
  (\<open>v2_early\<close>) or connected (\<open>v2_both\<close>).
\<close>

section \<open>Runs\<close>

fun collider_run :: "'v json \<Rightarrow> token_lib \<Rightarrow> collider_op list \<Rightarrow> collider \<Rightarrow> collider" where
  "collider_run js lib [] c = c"
| "collider_run js lib (op # ops) c = collider_run js lib ops (fst (collider_exec js lib op c))"

fun drivers_ok :: "'v json \<Rightarrow> token_lib \<Rightarrow> collider_op list \<Rightarrow> collider \<Rightarrow> bool" where
  "drivers_ok js lib [] c \<longleftrightarrow> True"
| "drivers_ok js lib (op # ops) c \<longleftrightarrow> driver_ok op c \<and> drivers_ok js lib ops (fst (collider_exec js lib op c))"

lemma collider_run_reachable:
  "reachable collider_initial (collider_step js lib) c \<Longrightarrow> drivers_ok js lib ops c \<Longrightarrow>
     reachable collider_initial (collider_step js lib) (collider_run js lib ops c)"
  by (induction ops arbitrary: c) (auto intro: reachable_step collider_step.exec)

lemma collider_new_reachable: "reachable collider_initial step (collider_new d)"
  by (rule reachable_initial) (simp add: collider_initial_def collider_new_def table_new_def)

lemma collider_run_append [simp]: "collider_run js lib (ops @ ops') c = collider_run js lib ops' (collider_run js lib ops c)"
  by (induction ops arbitrary: c) simp_all

text \<open>The connections an input has told the driver to close.\<close>

definition closing :: "browser_output \<Rightarrow> bool" where
  "closing out = (case out of OutClose _ \<Rightarrow> True | _ \<Rightarrow> False)"

definition closings :: "collider \<Rightarrow> browser_output list" where
  "closings c = filter closing (co_browser_outputs c)"

section \<open>Sample states\<close>

text \<open>
  A sample codec: a frame is looked up in a book, and a frame of the server is spelled with a
  word in front. A sample room with two V1 clients on the connections 1 and 2.
\<close>

definition wire_text :: "wire \<Rightarrow> string" where
  "wire_text w =
     (case w of
        WRegistered r \<Rightarrow> ''registered '' @ rd_epoch r
      | WPromoted p \<Rightarrow> ''promoted '' @ pm_epoch p
      | WUpgrade u \<Rightarrow> ''upgrade '' @ ug_epoch u
      | WDowngrade d \<Rightarrow> ''downgrade '' @ dg_epoch d
      | WRoomFailed f \<Rightarrow> ''failed '' @ rf_reason f
      | WServer m \<Rightarrow> (if sv_error m = [] then ''msg '' @ sv_msg m else ''error '' @ sv_error m))"

definition book_json :: "(string \<times> string ws_client_msg) list \<Rightarrow> string json" where
  "book_json book =
     \<lparr>json_from_str = Inr,
      json_from_value = (\<lambda>v. case map_of book v of None \<Rightarrow> Inl ''unknown'' | Some m \<Rightarrow> Inr m),
      json_as_str = Some, json_to_string = Some \<circ> wire_text\<rparr>"

definition v1_frame :: "string \<Rightarrow> string \<Rightarrow> string \<Rightarrow> string \<Rightarrow> string ws_client_msg" where
  "v1_frame cmd rid cid text = \<lparr>ws_cmd = cmd, ws_roomid = rid, ws_clientid = cid, ws_msg = text,
     ws_ver = None, ws_token = [], ws_epoch = None\<rparr>"

definition v1_js :: "string json" where
  "v1_js = book_json
     [(''reg a'', v1_frame ''register'' ''r'' ''a'' []), (''reg b'', v1_frame ''register'' ''r'' ''b'' []),
      (''hi'', v1_frame ''send'' [] [] ''hi'')]"

definition v1_pair_ops :: "collider_op list" where
  "v1_pair_ops = [CoRead (BrowserConnected 1), CoRead (BrowserText 1 ''reg a'' 0),
      CoRead (BrowserConnected 2), CoRead (BrowserText 2 ''reg b'' 0)]"

definition v1_pair :: collider where
  "v1_pair = collider_run v1_js rfc_lib v1_pair_ops (collider_new 10)"

definition v2_frame :: "string \<Rightarrow> string \<Rightarrow> string \<Rightarrow> string ws_client_msg" where
  "v2_frame rid cid token = \<lparr>ws_cmd = ''register'', ws_roomid = rid, ws_clientid = cid, ws_msg = [],
     ws_ver = Some 2, ws_token = token, ws_epoch = None\<rparr>"

definition sample_token :: string where
  "sample_token = ''BwcHBwcHhweHBwcHBwcHBw''"

text \<open>A codec that knows one room.\<close>

definition sample_lib :: token_lib where
  "sample_lib = \<lparr>tl_encode = (\<lambda>_. sample_token), tl_decode = (\<lambda>s. if s = sample_token then Some sample_rid else None),
     tl_version = (\<lambda>_. 8), tl_rfc_variant = (\<lambda>_. True), tl_new_v8 = id\<rparr>"

definition v2_js :: "string json" where
  "v2_js = book_json
     [(''reg 20'', v2_frame sample_token ''20'' ''tok20''), (''reg 10'', v2_frame sample_token ''10'' ''tok10''),
      (''offer'', (v1_frame ''send'' [] [] ''sdp'')\<lparr>ws_epoch := Some ''0''\<rparr>),
      (''late'', (v1_frame ''send'' [] [] ''sdp'')\<lparr>ws_epoch := Some ''7''\<rparr>)]"

definition v2_admit_op :: "request_id \<Rightarrow> member_id \<Rightarrow> string \<Rightarrow> collider_op" where
  "v2_admit_op req cid token = CoWrite \<lparr>ac_request_id = req, ac_operation = OpAdmitV2 sample_rid cid token 0\<rparr>"

text \<open>20 is connected, 10 is admitted; in \<open>v2_both\<close> it is connected as well.\<close>

definition v2_early_ops :: "collider_op list" where
  "v2_early_ops = [v2_admit_op 1 20 ''tok20'', CoRead (BrowserConnected 1), CoRead (BrowserText 1 ''reg 20'' 0),
      v2_admit_op 2 10 ''tok10'', CoRead (BrowserConnected 2)]"

definition v2_early :: collider where
  "v2_early = collider_run v2_js sample_lib v2_early_ops (collider_new 10)"

definition v2_both :: collider where
  "v2_both = collider_run v2_js sample_lib [CoRead (BrowserText 2 ''reg 10'' 0)] v2_early"

section \<open>What the sample states look like\<close>

text \<open>One evaluation per state; the witnesses only read these facts off.\<close>

lemma v1_pair_eval:
  "drivers_ok v1_js rfc_lib v1_pair_ops (collider_new 10) \<and>
   (let c = v1_pair; late = collider_exec v1_js rfc_lib (CoRead (BrowserText 1 ''reg b'' 3)) c;
        sent = collider_exec v1_js rfc_lib (CoRead (BrowserText 2 ''hi'' 3)) c in
    map_of (co_sessions c) 1 = Some (RegisteredV1 ''r'' ''a'') \<and> map_of (co_sessions c) 2 = Some (RegisteredV1 ''r'' ''b'') \<and>
    vt_actions (co_v2_rooms c) = [] \<and> closings (fst late) \<noteq> closings c \<and> snd sent = Ok () \<and>
    (case map_of (rt_rooms (co_rooms c)) ''r'' of
       None \<Rightarrow> False
     | Some r \<Rightarrow> map_of (rm_clients r) ''a'' \<noteq> None \<and>
         (case map_of (rm_clients r) ''b'' of None \<Rightarrow> False | Some cb \<Rightarrow> cl_registered cb)))"
  by code_simp

definition pair_shape :: "bool \<Rightarrow> collider \<Rightarrow> bool" where
  "pair_shape both c \<longleftrightarrow>
     (case map_of (vt_rooms (co_v2_rooms c)) sample_rid of
        None \<Rightarrow> False
      | Some r \<Rightarrow> vr_mode r = P2p \<and> vr_signal_epoch r = 0 \<and>
          (case map_of (vr_members r) 20 of None \<Rightarrow> False | Some m \<Rightarrow> mb_queued_messages m = []) \<and>
          (case map_of (vr_members r) 10 of None \<Rightarrow> False | Some m \<Rightarrow> mb_registered m = both \<and> mb_token m = ''tok10''))"

lemma v2_early_eval:
  "drivers_ok v2_js sample_lib v2_early_ops (collider_new 10) \<and>
   (let c = v2_early in
    map_of (co_sessions c) 1 = Some (RegisteredV2 sample_rid 20) \<and> map_of (co_sessions c) 2 = Some SessionConnected \<and>
    vt_actions (co_v2_rooms c) = [] \<and> vt_reconnect_grace (co_v2_rooms c) = 10 \<and> pair_shape False c)"
  by code_simp

lemma v2_both_eval:
  "(let c = v2_both in
    map_of (co_sessions c) 1 = Some (RegisteredV2 sample_rid 20) \<and> map_of (co_sessions c) 2 = Some (RegisteredV2 sample_rid 10) \<and>
    vt_actions (co_v2_rooms c) = [] \<and> pair_shape True c)"
  by code_simp

lemma v2_codec_eval:
  "parse_room_token sample_lib sample_token = Some sample_rid \<and> canonical_u64 ''10'' = Some 10 \<and>
   canonical_u64 ''0'' = Some 0 \<and> canonical_u64 ''7'' = Some 7 \<and> u64_to_string 0 = ''0''"
  by code_simp

lemma v1_pair_reachable: "reachable collider_initial (collider_step v1_js rfc_lib) v1_pair"
  unfolding v1_pair_def using v1_pair_eval by (intro collider_run_reachable [OF collider_new_reachable]) blast

lemma v2_early_reachable: "reachable collider_initial (collider_step v2_js sample_lib) v2_early"
  unfolding v2_early_def using v2_early_eval by (intro collider_run_reachable [OF collider_new_reachable]) blast

lemma v2_both_reachable: "reachable collider_initial (collider_step v2_js sample_lib) v2_both"
  unfolding v2_both_def by (rule collider_run_reachable [OF v2_early_reachable]) simp

lemma v1_pair_sel:
  "map_of (co_sessions v1_pair) 1 = Some (RegisteredV1 ''r'' ''a'')"
  "map_of (co_sessions v1_pair) 2 = Some (RegisteredV1 ''r'' ''b'')"
  "vt_actions (co_v2_rooms v1_pair) = []"
  "closings (fst (collider_exec v1_js rfc_lib (CoRead (BrowserText 1 ''reg b'' 3)) v1_pair)) \<noteq> closings v1_pair"
  "snd (collider_exec v1_js rfc_lib (CoRead (BrowserText 2 ''hi'' 3)) v1_pair) = Ok ()"
  using v1_pair_eval unfolding Let_def by blast+

lemma v1_pair_clients:
  obtains r ca cb where "map_of (rt_rooms (co_rooms v1_pair)) ''r'' = Some r" "map_of (rm_clients r) ''a'' = Some ca"
    "map_of (rm_clients r) ''b'' = Some cb" "cl_registered cb"
  using v1_pair_eval unfolding Let_def by (auto split: option.splits)

lemma v2_sel:
  "map_of (co_sessions v2_early) 1 = Some (RegisteredV2 sample_rid 20)" "map_of (co_sessions v2_early) 2 = Some SessionConnected"
  "vt_actions (co_v2_rooms v2_early) = []" "vt_reconnect_grace (co_v2_rooms v2_early) = 10" "pair_shape False v2_early"
  "map_of (co_sessions v2_both) 1 = Some (RegisteredV2 sample_rid 20)"
  "map_of (co_sessions v2_both) 2 = Some (RegisteredV2 sample_rid 10)"
  "vt_actions (co_v2_rooms v2_both) = []" "pair_shape True v2_both"
  using v2_early_eval v2_both_eval unfolding Let_def by blast+

lemma pair_shapeD:
  assumes "pair_shape both c"
  obtains r ma mb where "map_of (vt_rooms (co_v2_rooms c)) sample_rid = Some r" "vr_mode r = P2p" "vr_signal_epoch r = 0"
    "map_of (vr_members r) 20 = Some ma" "map_of (vr_members r) 10 = Some mb" "mb_queued_messages ma = []"
    "mb_registered mb = both" "mb_token mb = ''tok10''"
  using assms unfolding pair_shape_def by (auto split: option.splits)

end
