(* ===== verification/Collider_Sessions.thy ===== *)
theory Collider_Sessions
  imports Collider_Samples
begin

text \<open>
  What the authority guarantees about browser connections: who has a session, what a refused
  frame may change and what a late disconnect may change.
\<close>

section \<open>Sessions\<close>

text \<open>
  C2. Browser sessions and room state never disagree. In every reachable state a V1 client is
  registered exactly when some connection has its session, that connection is unique and is
  the one the connection map names, and a registered V2 member has a connection that holds
  the member's session.
\<close>

theorem collider_sessions:
  assumes "reachable collider_initial (collider_step js lib) c"
  shows "(v1_registered (co_rooms c) rid cid \<longleftrightarrow> (\<exists>conn. map_of (co_sessions c) conn = Some (RegisteredV1 rid cid))) \<and>
    (map_of (co_sessions c) conn = Some (RegisteredV1 rid cid) \<longleftrightarrow> map_of (co_connections c) (rid, cid) = Some conn) \<and>
    (v2_registered (co_v2_rooms c) vrid vcid \<longrightarrow>
       (\<exists>conn. map_of (co_v2_connections c) (vrid, vcid) = Some conn \<and>
          map_of (co_sessions c) conn = Some (RegisteredV2 vrid vcid)))"
proof -
  have ok: "collider_ok c"
    using authority.inv_reachable [OF assms] by (simp add: collider_inv_def)
  note link = linkedD [OF collider_okD(4) [OF ok]]
  have "v1_registered (co_rooms c) rid cid \<longleftrightarrow> map_of (co_connections c) (rid, cid) \<noteq> None"
    "v2_registered (co_v2_rooms c) vrid vcid \<Longrightarrow> map_of (co_v2_connections c) (vrid, vcid) \<noteq> None"
    using collider_okD(5) [OF ok] by (simp_all add: connected_def)
  then show ?thesis using link(1) [of rid cid] link(2) [of vrid vcid] by fastforce
qed

theorem collider_sessions_witness:
  "v1_registered (co_rooms v1_pair) ''r'' ''b'' \<and> map_of (co_connections v1_pair) (''r'', ''b'') = Some 2"
  using collider_sessions [OF v1_pair_reachable, of "''r''" "''b''" 2 "[]" 0] v1_pair_sel(2) by blast

text \<open>
  C6. No input panics. In every reachable state, whatever a browser, the backend, a worker or
  the clock hands in, no \<^verbatim>\<open>expect\<close> and no indexing of the whole crate fails, provided the driver
  gives a new connection an id that is not in use.
\<close>

theorem collider_no_panic:
  assumes "reachable collider_initial (collider_step js lib) c" "driver_ok op c"
  shows "snd (collider_exec js lib op c) \<noteq> Panicked"
  using collider_exec_inv [OF authority.inv_reachable [OF assms(1)] assms(2)] by blast

theorem collider_no_panic_witness: "snd (collider_exec v1_js rfc_lib (CoRead (BrowserText 2 ''hi'' 3)) v1_pair) \<noteq> Panicked"
  by (rule collider_no_panic [OF v1_pair_reachable]) simp

section \<open>Refused frames\<close>

lemma closings_push [simp]:
  "closings (push_output (OutText conn text) c) = closings c"
  "closings (push_output (OutSfu out) c) = closings c"
  "closings (push_response req res c) = closings c"
  "closings (c\<lparr>co_rooms := rooms\<rparr>) = closings c" "closings (c\<lparr>co_v2_rooms := v2\<rparr>) = closings c"
  "closings (c\<lparr>co_sessions := ss\<rparr>) = closings c" "closings (c\<lparr>co_connections := cs\<rparr>) = closings c"
  "closings (c\<lparr>co_v2_connections := cs2\<rparr>) = closings c"
  "closings (c\<lparr>co_total_websocket_connections := n\<rparr>) = closings c"
  by (simp_all add: closings_def closing_def)

lemma closings_text_to_member [simp]: "closings (text_to_member rid cid text c) = closings c"
  by (simp add: text_to_member_def split: option.split)

lemma closings_texts [simp]:
  "closings (fold (\<lambda>cid. text_to_member rid cid (f cid)) cids c) = closings c"
  by (induction cids arbitrary: c) simp_all

lemma closings_outputs [simp]: "closings (fold (\<lambda>x. push_output (OutText conn (f x))) xs c) = closings c"
  by (induction xs arbitrary: c) simp_all

lemma drain_room_writes_closings [simp]: "closings (drain_room_writes js c) = closings c"
  by (induction js c rule: drain_room_writes.induct)
    (subst drain_room_writes.simps; auto split: prod.split option.split)

lemma handle_action_closings: "\<not> removal_ok a \<Longrightarrow> closings (handle_action js lib a c) = closings c"
  by (cases a) (auto simp: handle_action_def split: sum.split)

lemma drain_v2_actions_closings: "answered (co_v2_rooms c) = [] \<Longrightarrow> closings (drain_v2_actions js lib c) = closings c"
proof (induction js lib c rule: drain_v2_actions.induct)
  case (1 js lib c)
  obtain rooms x where p: "v2_poll_action (co_v2_rooms c) = (rooms, x)" by force
  show ?case
  proof (cases x)
    case None
    then show ?thesis by (simp add: drain_v2_actions.simps [of js lib c] p)
  next
    case (Some a)
    with p have "vt_actions (co_v2_rooms c) = a # vt_actions rooms"
      by (auto simp: v2_poll_action_def split: list.splits)
    with 1(2) have a: "\<not> removal_ok a" "answered rooms = []" by (simp_all add: answered_def split: if_splits)
    with 1(1) [OF p [symmetric] Some] show ?thesis
      by (simp add: drain_v2_actions.simps [of js lib c] p Some handle_action_closings)
  qed
qed

lemma register_v1_refused:
  assumes "collider_inv c"
  shows "closings (fst (register_v1 js conn msg now c)) = closings c \<or>
    (\<exists>e. register_v1 js conn msg now c = refuse js conn e c)"
proof -
  obtain rooms res where r: "table_register now (ws_roomid msg) (ws_clientid msg) (co_rooms c) = (rooms, res)" by force
  have "rooms = co_rooms c" if "res = Inl e" for e
    using table_register_failed [of "co_rooms c" now "ws_roomid msg" "ws_clientid msg" rooms e] r that assms
    by (simp add: collider_inv_def collider_ok_def)
  then show ?thesis by (auto simp: register_v1_def r split: sum.split failure.split)
qed

lemma register_v2_refused:
  "closings (fst (register_v2 js lib conn msg c)) = closings c \<or>
   (\<exists>e. register_v2 js lib conn msg c = refuse js conn e c)"
  by (auto simp: register_v2_def dest!: v2_register_failed
      split: option.split prod.split sum.split failure.split)

lemma collider_send_refused:
  assumes "collider_inv c"
  shows "closings (fst (collider_send js lib conn msg now c)) = closings c \<or>
    (\<exists>e. collider_send js lib conn msg now c = refuse js conn e c)"
proof -
  have "closings (fst (send_v1 js rid cid m now c)) = closings c" for rid cid m
    by (auto simp: send_v1_def split: prod.split sum.split)
  moreover have "closings (fst (send_v2 js lib rid cid msg c)) = closings c" for rid cid
  proof -
    have "answered t = []" if "v2_send rid cid epoch (ws_msg msg) (co_v2_rooms c) = (t, res)" for epoch t res
      using assms v2_send_answered [of rid cid epoch "ws_msg msg" "co_v2_rooms c"] that by (simp add: collider_inv_def)
    then show ?thesis
      by (auto simp: send_v2_def drain_v2_actions_closings Let_def
          split: option.split prod.split sum.split send_result.split)
  qed
  ultimately show ?thesis
    by (auto simp: collider_send_def split: option.split session.split)
qed

text \<open>
  C4. A refused frame is contained. A frame of a browser never closes another connection;
  when it closes its own, whatever the reason (malformed JSON, an unknown command, a second
  registration, a wrong token, a full room, a send without registration), the only effects
  are one error frame, the close and one more counted error: rooms, sessions, connection
  maps and pending worker commands are untouched.
\<close>

theorem refused_frame:
  assumes "reachable collider_initial (collider_step js lib) c"
    "closings (fst (collider_exec js lib (CoRead (BrowserText conn text now)) c)) \<noteq> closings c"
  shows "\<exists>e. collider_exec js lib (CoRead (BrowserText conn text now)) c =
    (c\<lparr>co_websocket_errors := sat_add (co_websocket_errors c) 1,
       co_browser_outputs := co_browser_outputs c @ [OutText conn (server_err js e), OutClose conn]\<rparr>, Ok ())"
proof -
  have inv: "collider_inv c" using authority.inv_reachable [OF assms(1)] .
  have "closings (fst (handle_browser_text js lib conn text now c)) = closings c \<or>
    (\<exists>e. handle_browser_text js lib conn text now c = refuse js conn e c)"
    using register_v1_refused [OF inv] register_v2_refused collider_send_refused [OF inv]
    by (simp add: handle_browser_text_def split: sum.split) blast
  with assms(2) obtain e where "handle_browser_text js lib conn text now c = refuse js conn e c"
    by (auto simp: collider_handle_read_def)
  then show ?thesis by (auto simp: collider_handle_read_def refuse_def fail_connection_def push_output_def)
qed

theorem refused_frame_witness:
  "co_sessions (fst (collider_exec v1_js rfc_lib (CoRead (BrowserText 1 ''reg b'' 3)) v1_pair)) = co_sessions v1_pair"
  using refused_frame [OF v1_pair_reachable v1_pair_sel(4)] by auto

section \<open>Dropped connections\<close>

lemma drain_v2_actions_rooms [simp]: "co_v2_rooms (drain_v2_actions js lib c) = (co_v2_rooms c)\<lparr>vt_actions := []\<rparr>"
proof (induction js lib c rule: drain_v2_actions.induct)
  case (1 js lib c)
  obtain rooms x where p: "v2_poll_action (co_v2_rooms c) = (rooms, x)" by force
  show ?case
  proof (cases x)
    case None
    with p show ?thesis by (auto simp: drain_v2_actions.simps [of js lib c] v2_poll_action_def split: list.splits)
  next
    case (Some a)
    with p have "rooms\<lparr>vt_actions := []\<rparr> = (co_v2_rooms c)\<lparr>vt_actions := []\<rparr>"
      by (auto simp: v2_poll_action_def split: list.splits)
    with 1 [OF p [symmetric] Some] show ?thesis by (simp add: drain_v2_actions.simps [of js lib c] p Some)
  qed
qed

lemma handle_action_maps:
  "\<not> removal_ok a \<Longrightarrow> co_sessions (handle_action js lib a c) = co_sessions c \<and>
     co_connections (handle_action js lib a c) = co_connections c \<and>
     co_v2_connections (handle_action js lib a c) = co_v2_connections c"
  by (cases a) (auto simp: handle_action_def split: sum.split)

lemma drain_v2_actions_maps:
  "answered (co_v2_rooms c) = [] \<Longrightarrow> co_sessions (drain_v2_actions js lib c) = co_sessions c \<and>
     co_connections (drain_v2_actions js lib c) = co_connections c \<and>
     co_v2_connections (drain_v2_actions js lib c) = co_v2_connections c"
proof (induction js lib c rule: drain_v2_actions.induct)
  case (1 js lib c)
  obtain rooms x where p: "v2_poll_action (co_v2_rooms c) = (rooms, x)" by force
  show ?case
  proof (cases x)
    case None
    then show ?thesis by (simp add: drain_v2_actions.simps [of js lib c] p)
  next
    case (Some a)
    with p have "vt_actions (co_v2_rooms c) = a # vt_actions rooms"
      by (auto simp: v2_poll_action_def split: list.splits)
    with 1(2) have a: "\<not> removal_ok a" "answered rooms = []" by (simp_all add: answered_def split: if_splits)
    with 1(1) [OF p [symmetric] Some] show ?thesis
      by (simp add: drain_v2_actions.simps [of js lib c] p Some handle_action_maps)
  qed
qed

lemma v2_registered_drained [simp]: "v2_registered (t\<lparr>vt_actions := as\<rparr>) = v2_registered t"
  by (simp add: v2_registered_def fun_eq_iff)

text \<open>
  C20. A late disconnect cannot hurt a client that has come back. When another connection
  holds the client's registration by now, or the connection has none, the disconnect only
  ends that connection's session; rooms, timers and the newer connection stay as they are.
  A disconnect of the connection that holds the registration ends the registration.
\<close>

theorem disconnect_scope:
  assumes "reachable collider_initial (collider_step js lib) c"
    "collider_exec js lib (CoRead (BrowserDisconnected conn now)) c = (c', res)"
  shows "map_of (co_sessions c') = (map_of (co_sessions c))(conn := None) \<and>
    (case map_of (co_sessions c) conn of
       Some (RegisteredV1 rid cid) \<Rightarrow>
         \<not> v1_registered (co_rooms c') rid cid \<and> map_of (co_connections c') (rid, cid) = None
     | Some (RegisteredV2 rid cid) \<Rightarrow>
         (if map_of (co_v2_connections c) (rid, cid) = Some conn
          then \<not> v2_registered (co_v2_rooms c') rid cid \<and> map_of (co_v2_connections c') (rid, cid) = None
          else c' = c\<lparr>co_sessions := co_sessions c'\<rparr>)
     | _ \<Rightarrow> c' = c\<lparr>co_sessions := co_sessions c'\<rparr>)"
proof -
  have ok: "collider_ok c" and a: "answered (co_v2_rooms c) = []"
    using authority.inv_reachable [OF assms(1)] by (simp_all add: collider_inv_def)
  have c': "c' = disconnect js lib conn now c" using assms(2) by (simp add: collider_handle_read_def)
  show ?thesis
  proof (cases "map_of (co_sessions c) conn")
    case None
    then show ?thesis by (simp add: c' disconnect_def fun_upd_idem)
  next
    case (Some s)
    show ?thesis
    proof (cases s)
      case SessionConnected
      with Some show ?thesis by (simp add: c' disconnect_def fun_eq_iff)
    next
      case (RegisteredV1 rid cid)
      have "map_of (co_connections c) (rid, cid) = Some conn"
        using linkedD(1) [OF collider_okD(4) [OF ok], of rid cid conn] Some RegisteredV1 by simp
      then show ?thesis by (simp add: c' disconnect_def Some RegisteredV1 table_deregister_registered fun_eq_iff)
    next
      case (RegisteredV2 rid cid)
      let ?v2 = "v2_deregister now rid cid (co_v2_rooms c)"
      have "none_new (\<lambda>r k. v2_registered (co_v2_rooms c) r k \<and> \<not> (r = rid \<and> k = cid)) ?v2"
        by (rule v2_deregister_new) simp
      moreover have "answered ?v2 = []" using a by (simp add: v2_deregister_answered)
      ultimately show ?thesis
        by (auto simp: c' disconnect_def Some RegisteredV2 drain_v2_actions_maps none_new_iff fun_eq_iff)
    qed
  qed
qed

theorem disconnect_scope_witness:
  "\<not> v1_registered (co_rooms (fst (collider_exec v1_js rfc_lib (CoRead (BrowserDisconnected 2 3)) v1_pair))) ''r'' ''b''"
proof -
  obtain c' res where "collider_exec v1_js rfc_lib (CoRead (BrowserDisconnected 2 3)) v1_pair = (c', res)"
    by force
  with disconnect_scope [OF v1_pair_reachable this] v1_pair_sel(2) show ?thesis by simp
qed

end
