(* ===== verification/Collider_Flush.thy ===== *)
theory Collider_Flush
  imports Collider_Sessions
begin

text \<open>
  What an input hands to the driver: the frames, worker messages and answers that the actions
  and promotions of the V2 authority stand for, all of them, in order and with the same input.
\<close>

section \<open>What actions stand for\<close>

text \<open>A text goes to the connection of the member, if the member has one.\<close>

definition member_text ::
    "(uuid \<times> member_id \<Rightarrow> connection_id option) \<Rightarrow> uuid \<Rightarrow> member_id \<Rightarrow> string \<Rightarrow> browser_output list" where
  "member_text M rid cid text = (case M (rid, cid) of None \<Rightarrow> [] | Some conn \<Rightarrow> [OutText conn text])"

definition action_outputs ::
    "'v json \<Rightarrow> token_lib \<Rightarrow> (uuid \<times> member_id \<Rightarrow> connection_id option) \<Rightarrow> action \<Rightarrow> browser_output list" where
  "action_outputs js lib M a =
     (case a of
        ActionSfu out \<Rightarrow> [OutSfu out]
      | AdmissionCompleted _ _ \<Rightarrow> []
      | RemovalCompleted _ rid cid res \<Rightarrow>
          (case (res, M (rid, cid)) of (Inr _, Some conn) \<Rightarrow> [OutClose conn] | _ \<Rightarrow> [])
      | Upgraded rid epoch existing \<Rightarrow>
          concat (map (\<lambda>cid. member_text M rid cid (to_wire js (WUpgrade \<lparr>ug_control = ''sfu-upgrade'',
            ug_roomid = format_room_token lib rid, ug_epoch = u64_to_string epoch\<rparr>))) existing)
      | Downgraded rid epoch initiator clients \<Rightarrow>
          concat (map (\<lambda>cid. member_text M rid cid (to_wire js (WDowngrade \<lparr>dg_control = ''sfu-downgrade'',
            dg_roomid = format_room_token lib rid, dg_epoch = u64_to_string epoch,
            dg_is_initiator = (cid = initiator)\<rparr>))) clients)
      | Deliver d \<Rightarrow> member_text M (de_room_id d) (de_client_id d) (server_msg js (de_message d))
      | RoomFailed rid clients reason \<Rightarrow>
          concat (map (\<lambda>cid. member_text M rid cid (to_wire js (WRoomFailed \<lparr>rf_control = ''room-failed'',
            rf_roomid = format_room_token lib rid, rf_reason = reason\<rparr>))) clients))"

definition promotion_outputs ::
    "'v json \<Rightarrow> token_lib \<Rightarrow> (uuid \<times> member_id \<Rightarrow> connection_id option) \<Rightarrow> promotion list \<Rightarrow> browser_output list" where
  "promotion_outputs js lib M ps =
     concat (map (\<lambda>p. member_text M (pr_room_id p) (pr_client_id p) (to_wire js (WPromoted
       \<lparr>pm_control = ''p2p-promote'', pm_roomid = format_room_token lib (pr_room_id p),
        pm_epoch = u64_to_string (pr_signal_epoch p), pm_is_initiator = True\<rparr>))) ps)"

text \<open>The answer to a command that an action carries.\<close>

definition admitted_as :: "admission \<Rightarrow> authority_result" where
  "admitted_as a = AdmittedV2 (ad_mode a) (ad_signal_epoch a) (ad_admission_token a) (ad_is_initiator a)"

definition action_answers :: "action \<Rightarrow> authority_response list" where
  "action_answers a =
     (case a of
        AdmissionCompleted req res \<Rightarrow>
          [\<lparr>ar_request_id = req, ar_result = (case res of Inl e \<Rightarrow> ResultError e | Inr ad \<Rightarrow> admitted_as ad)\<rparr>]
      | RemovalCompleted req _ _ res \<Rightarrow>
          [\<lparr>ar_request_id = req, ar_result = (case res of Inl e \<Rightarrow> ResultError e | Inr _ \<Rightarrow> RemovedV2)\<rparr>]
      | _ \<Rightarrow> [])"

text \<open>A completed removal closes the connection: later actions find none.\<close>

definition after_action ::
    "action \<Rightarrow> (uuid \<times> member_id \<Rightarrow> connection_id option) \<Rightarrow> (uuid \<times> member_id \<Rightarrow> connection_id option)" where
  "after_action a M = (case a of RemovalCompleted _ rid cid (Inr _) \<Rightarrow> M((rid, cid) := None) | _ \<Rightarrow> M)"

fun actions_outputs ::
    "'v json \<Rightarrow> token_lib \<Rightarrow> (uuid \<times> member_id \<Rightarrow> connection_id option) \<Rightarrow> action list \<Rightarrow> browser_output list" where
  "actions_outputs js lib M [] = []"
| "actions_outputs js lib M (a # as) =
     action_outputs js lib M a @ actions_outputs js lib (after_action a M) as"

definition actions_answers :: "action list \<Rightarrow> authority_response list" where
  "actions_answers as = concat (map action_answers as)"

section \<open>The drain hands all of them over\<close>

lemma text_to_member_outputs:
  "co_browser_outputs (text_to_member rid cid text c) =
     co_browser_outputs c @ member_text (map_of (co_v2_connections c)) rid cid text"
  by (simp add: text_to_member_def member_text_def split: option.split)

lemma texts_to_members_outputs:
  "co_browser_outputs (fold (\<lambda>cid. text_to_member rid cid (f cid)) cids c) = co_browser_outputs c @
     concat (map (\<lambda>cid. member_text (map_of (co_v2_connections c)) rid cid (f cid)) cids)"
  by (induction cids arbitrary: c) (simp_all add: text_to_member_outputs)

lemma handle_action_outputs:
  "co_browser_outputs (handle_action js lib a c) =
     co_browser_outputs c @ action_outputs js lib (map_of (co_v2_connections c)) a"
  by (cases a) (auto simp: handle_action_def action_outputs_def text_to_member_outputs texts_to_members_outputs
      close_v2_client_connection_def split: sum.split option.split)

lemma handle_action_answers:
  "co_authority_responses (handle_action js lib a c) = co_authority_responses c @ action_answers a"
  by (cases a) (auto simp: handle_action_def action_answers_def admitted_as_def admission_reply_def push_response_def
      close_v2_client_connection_def split: sum.split option.split)

lemma handle_action_connections:
  "map_of (co_v2_connections (handle_action js lib a c)) = after_action a (map_of (co_v2_connections c))"
  by (cases a) (auto simp: handle_action_def after_action_def close_v2_client_connection_def fun_eq_iff
      split: sum.split option.split)

lemma drain_hands_over:
  assumes "vt_actions (co_v2_rooms c) = as"
  shows "co_browser_outputs (drain_v2_actions js lib c) =
      co_browser_outputs c @ actions_outputs js lib (map_of (co_v2_connections c)) as \<and>
    co_authority_responses (drain_v2_actions js lib c) = co_authority_responses c @ actions_answers as"
  using assms
proof (induction as arbitrary: c)
  case Nil
  then show ?case by (simp add: drain_idle actions_answers_def)
next
  case (Cons a as)
  let ?c = "handle_action js lib a (c\<lparr>co_v2_rooms := (co_v2_rooms c)\<lparr>vt_actions := as\<rparr>\<rparr>)"
  have "vt_actions (co_v2_rooms ?c) = as" by simp
  from Cons.IH [OF this] show ?case
    unfolding drain_step [OF Cons.prems]
    by (simp add: handle_action_outputs handle_action_answers handle_action_connections actions_answers_def)
qed

lemma push_promotions:
  "co_browser_outputs (fold (push_promotion js lib) ps c) =
     co_browser_outputs c @ promotion_outputs js lib (map_of (co_v2_connections c)) ps \<and>
   co_authority_responses (fold (push_promotion js lib) ps c) = co_authority_responses c \<and>
   co_v2_connections (fold (push_promotion js lib) ps c) = co_v2_connections c \<and>
   co_v2_rooms (fold (push_promotion js lib) ps c) = co_v2_rooms c"
  by (induction ps arbitrary: c) (simp_all add: promotion_outputs_def push_promotion_def text_to_member_outputs)

section \<open>No action is left\<close>

lemma v2_register_actions: "vt_actions (fst (v2_register rid cid token t)) = vt_actions t"
  by (auto simp: v2_register_def Let_def split: option.split)

lemma drain_room_writes_actions [simp]: "vt_actions (co_v2_rooms (drain_room_writes js c)) = vt_actions (co_v2_rooms c)"
  by simp

lemma handle_browser_text_actions:
  assumes "vt_actions (co_v2_rooms c) = []" "handle_browser_text js lib conn text now c = (c', Ok ())"
  shows "vt_actions (co_v2_rooms c') = []"
proof -
  have v1: "vt_actions (co_v2_rooms (fst (register_v1 js conn msg now c))) = []" for msg
    using assms(1) by (auto simp: register_v1_def refuse_def split: prod.split sum.split failure.split)
  have v2: "vt_actions (co_v2_rooms (fst (register_v2 js lib conn msg c))) = []" for msg
  proof -
    have "vt_actions t = []" if "v2_register rid cid token (co_v2_rooms c) = (t, res)" for rid cid token t res
      using v2_register_actions [of rid cid token "co_v2_rooms c"] that assms(1) by simp
    then show ?thesis using assms(1)
      by (auto simp: register_v2_def refuse_def split: prod.split sum.split failure.split option.split)
  qed
  have "vt_actions (co_v2_rooms c'') = []" if "send_v1 js rid cid m now c = (c'', Ok ())" for rid cid m c''
    using that assms(1) by (auto simp: send_v1_def split: prod.splits sum.splits)
  moreover have "vt_actions (co_v2_rooms c'') = []" if "send_v2 js lib rid cid msg c = (c'', Ok ())" for rid cid msg c''
    using that assms(1) by (auto simp: send_v2_def Let_def split: prod.splits sum.splits option.splits send_result.splits)
  ultimately have "vt_actions (co_v2_rooms c'') = []" if "collider_send js lib conn msg now c = (c'', Ok ())" for msg c''
    using that assms(1) by (auto simp: collider_send_def refuse_def split: option.splits session.splits if_splits)
  then show ?thesis
    using assms v1 v2
    by (auto simp: handle_browser_text_def refuse_def split: sum.splits if_splits) (metis fst_conv)+
qed

lemma disconnect_actions:
  "vt_actions (co_v2_rooms c) = [] \<Longrightarrow> vt_actions (co_v2_rooms (disconnect js lib conn now c)) = []"
  by (simp add: disconnect_def Let_def split: option.split session.split)

lemma authority_match_pending:
  "authority_match js lib req operation c = (c1, Inr None) \<Longrightarrow> vt_actions (co_v2_rooms c1) = []"
  by (cases operation) (auto simp: authority_match_def Let_def
      split: prod.splits sum.splits failure.splits admission_result.splits removal_result.splits)

section \<open>Nothing is held back\<close>

text \<open>What a V2 admission answers at once.\<close>

definition admission_answer :: "request_id \<Rightarrow> admission_result result \<Rightarrow> authority_response list" where
  "admission_answer req res =
     (case res of
        Inr (AdmissionComplete a) \<Rightarrow> [\<lparr>ar_request_id = req, ar_result = admitted_as a\<rparr>]
      | Inl (Fail e) \<Rightarrow> [\<lparr>ar_request_id = req, ar_result = ResultError e\<rparr>]
      | _ \<Rightarrow> [])"

lemma timeout_hands_over:
  assumes "collider_handle_timeout js lib now c = (c', Ok ())" "v2_handle_timeout now (co_v2_rooms c) = (t, ps)"
  shows "co_browser_outputs c' = co_browser_outputs c @ promotion_outputs js lib (map_of (co_v2_connections c)) ps @
      actions_outputs js lib (map_of (co_v2_connections c)) (vt_actions t) \<and>
    co_authority_responses c' = co_authority_responses c @ actions_answers (vt_actions t)"
  using assms
  by (auto simp: collider_handle_timeout_def drain_hands_over [OF refl] push_promotions split: prod.splits sum.splits)

lemma sfu_input_hands_over:
  assumes "collider_handle_sfu_input js lib input c = (c', Ok ())" "handle_sfu_input input (co_v2_rooms c) = (t, res)"
  shows "co_browser_outputs c' = co_browser_outputs c @ actions_outputs js lib (map_of (co_v2_connections c)) (vt_actions t) \<and>
    co_authority_responses c' = co_authority_responses c @ actions_answers (vt_actions t)"
  using assms
  by (auto simp: collider_handle_sfu_input_def drain_hands_over [OF refl] split: prod.splits sum.splits)

lemma admit_hands_over:
  assumes "handle_authority js lib \<lparr>ac_request_id = req, ac_operation = OpAdmitV2 rid cid token now\<rparr> c = (c', Ok ())"
    "admit req now rid cid token (co_v2_rooms c) = (t, res)"
  shows "co_browser_outputs c' = co_browser_outputs c @ actions_outputs js lib (map_of (co_v2_connections c)) (vt_actions t) \<and>
    co_authority_responses c' = co_authority_responses c @ admission_answer req res @ actions_answers (vt_actions t)"
  using assms
  by (auto simp: handle_authority_def authority_match_def admission_answer_def admission_reply_def admitted_as_def
      drain_hands_over [OF refl] push_response_def split: sum.splits failure.splits admission_result.splits)

lemma disconnect_hands_over:
  assumes "map_of (co_sessions c) conn = Some (RegisteredV2 rid cid)" "map_of (co_v2_connections c) (rid, cid) = Some conn"
  shows "co_browser_outputs (disconnect js lib conn now c) = co_browser_outputs c @
      actions_outputs js lib ((map_of (co_v2_connections c))((rid, cid) := None))
        (vt_actions (v2_deregister now rid cid (co_v2_rooms c)))"
proof -
  have "map_of (hm_remove (rid, cid) (co_v2_connections c)) = (map_of (co_v2_connections c))((rid, cid) := None)"
    by (simp add: fun_eq_iff)
  then show ?thesis using assms by (simp add: disconnect_def drain_hands_over [OF refl])
qed

text \<open>What an input hands over, given what the V2 authority makes of it.\<close>

definition hands_over :: "'v json \<Rightarrow> token_lib \<Rightarrow> collider_op \<Rightarrow> collider \<Rightarrow> collider \<Rightarrow> bool" where
  "hands_over js lib op c c' \<longleftrightarrow>
     (let M = map_of (co_v2_connections c); v2 = co_v2_rooms c in
      case op of
        CoTimeout now \<Rightarrow> (case v2_handle_timeout now v2 of (t, ps) \<Rightarrow>
          co_browser_outputs c' = co_browser_outputs c @ promotion_outputs js lib M ps @ actions_outputs js lib M (vt_actions t) \<and>
          co_authority_responses c' = co_authority_responses c @ actions_answers (vt_actions t))
      | CoSfu input \<Rightarrow> (case handle_sfu_input input v2 of (t, _) \<Rightarrow>
          co_browser_outputs c' = co_browser_outputs c @ actions_outputs js lib M (vt_actions t) \<and>
          co_authority_responses c' = co_authority_responses c @ actions_answers (vt_actions t))
      | CoWrite command \<Rightarrow> (case ac_operation command of
          OpAdmitV2 rid cid token now \<Rightarrow> (case admit (ac_request_id command) now rid cid token v2 of (t, res) \<Rightarrow>
            co_browser_outputs c' = co_browser_outputs c @ actions_outputs js lib M (vt_actions t) \<and>
            co_authority_responses c' = co_authority_responses c @
              admission_answer (ac_request_id command) res @ actions_answers (vt_actions t))
        | _ \<Rightarrow> True)
      | CoRead (BrowserDisconnected conn now) \<Rightarrow> (case map_of (co_sessions c) conn of
          Some (RegisteredV2 rid cid) \<Rightarrow> M (rid, cid) = Some conn \<longrightarrow>
            co_browser_outputs c' = co_browser_outputs c @ actions_outputs js lib (M((rid, cid) := None))
              (vt_actions (v2_deregister now rid cid v2))
        | _ \<Rightarrow> True)
      | _ \<Rightarrow> True)"

lemma exec_hands_over:
  assumes "collider_exec js lib op c = (c', Ok ())"
  shows "hands_over js lib op c c'"
proof (cases op)
  case (CoTimeout now)
  with assms timeout_hands_over [of js lib now c c'] show ?thesis by (auto simp: hands_over_def Let_def)
next
  case (CoSfu input)
  with assms sfu_input_hands_over [of js lib input c c'] show ?thesis by (auto simp: hands_over_def Let_def)
next
  case (CoWrite command)
  with assms admit_hands_over [of js lib "ac_request_id command" _ _ _ _ c c'] show ?thesis
    by (cases command) (auto simp: hands_over_def collider_handle_write_def Let_def split: authority_operation.split)
next
  case (CoRead input)
  with assms disconnect_hands_over [of c] show ?thesis
    by (auto simp: hands_over_def collider_handle_read_def Let_def split: browser_input.splits option.split session.split)
qed (simp_all add: hands_over_def)

text \<open>
  C19. No output is held back until some later input. Take an input that succeeds, in a state
  with no action waiting to be drained. Afterwards no action waits either, and no V1 frame waits
  to be relayed or written. And what the V2 authority has produced is handed to the driver with
  that same input, all of it and in order, to the connections the members have: for a timeout
  the promotions of the sweep and then its actions; for a message of a worker its actions; for an
  admission the immediate answer, if there is one, and the actions; for the disconnect of a member
  its actions, the member's own connection being gone. Actions become worker messages, browser
  frames, closes and answers to commands as \<open>action_outputs\<close> and
  \<open>action_answers\<close> list them; the four cases are spelled out in \<open>hands_over\<close>.
\<close>

theorem collider_flushes:
  assumes "reachable collider_initial (collider_step js lib) c" "driver_ok op c"
    "collider_exec js lib op c = (c', Ok ())" "vt_actions (co_v2_rooms c) = []"
  shows "vt_actions (co_v2_rooms c') = [] \<and> snd (table_poll_write (co_rooms c')) = None \<and>
    snd (table_poll_read (co_rooms c')) = None \<and> hands_over js lib op c c'"
proof -
  have "quiet (co_rooms c')"
    using collider_exec_inv [OF authority.inv_reachable [OF assms(1)] assms(2), of js lib] assms(3)
    by (simp add: collider_inv_def)
  then have "table_writes_size (co_rooms c') = 0" "table_reads_size (co_rooms c') = 0" by (simp_all add: quiet_sizes)
  then have idle: "snd (table_poll_write (co_rooms c')) = None" "snd (table_poll_read (co_rooms c')) = None"
    using table_poll_sizes [of "co_rooms c'"] by (metis add_is_0 option.case_eq_if option.collapse prod.collapse zero_neq_one)+
  have "vt_actions (co_v2_rooms c') = []"
  proof (cases op)
    case (CoRead input)
    with assms(3,4) handle_browser_text_actions [of c js lib] show ?thesis
      by (cases input) (auto simp: collider_handle_read_def disconnect_actions)
  next
    case (CoWrite command)
    with assms(3) show ?thesis
      by (auto simp: collider_handle_write_def handle_authority_def authority_match_pending
          split: prod.splits sum.splits option.splits)
  next
    case (CoSfu input)
    with assms(3) show ?thesis
      by (auto simp: collider_handle_sfu_input_def split: prod.splits sum.splits)
  next
    case (CoTimeout now)
    with assms(3) show ?thesis
      by (auto simp: collider_handle_timeout_def split: prod.splits sum.splits)
  next
    case CoClose
    with assms(3) show ?thesis
      by (auto simp: collider_close_def Let_def v2_clear_def table_close_eq)
  qed (use assms(3,4) in \<open>auto simp: collider_set_downgrade_dwell_def set_downgrade_dwell_def
      collider_poll_write_def collider_poll_event_def split: list.splits\<close>)
  with idle exec_hands_over [OF assms(3)] show ?thesis by simp
qed

theorem collider_flushes_witness:
  "snd (table_poll_write (co_rooms (fst (collider_exec v1_js rfc_lib (CoRead (BrowserText 2 ''hi'' 3)) v1_pair)))) = None"
proof -
  let ?r = "collider_exec v1_js rfc_lib (CoRead (BrowserText 2 ''hi'' 3)) v1_pair"
  have "?r = (fst ?r, Ok ())" using v1_pair_sel(5) by (metis prod.collapse)
  from collider_flushes [OF v1_pair_reachable _ this v1_pair_sel(3)] show ?thesis by simp
qed

end
