(* ===== verification/Collider_Signaling.thy ===== *)
theory Collider_Signaling
  imports Collider_Sessions Room_Relay V2_Signaling
begin

text \<open>
  Signaling from browser to browser: what one frame on one connection puts on the connection
  of the peer, in V1 and in a V2 room that is peer to peer.
\<close>

section \<open>One frame on the planes of a quiet table\<close>

lemma scan_poll_idle: "(\<forall>(k, v) \<in> set m. p v = (v, None)) \<Longrightarrow> scan_poll p m = (m, None)"
  by (induction m) auto

lemma scan_poll_one:
  "(\<forall>(k, v) \<in> set m. p v = (v, None)) \<Longrightarrow> map_of m k \<noteq> None \<Longrightarrow> p v' = (v'', Some x) \<Longrightarrow>
     scan_poll p (hm_insert k v' m) = (hm_insert k v'' m, Some x)"
  by (induction m) auto

lemma room_quiet_idle:
  assumes "room_quiet r"
  shows "room_poll_read r = (r, None)" "room_poll_write r = (r, None)"
proof -
  have "scan_poll client_poll_read (rm_clients r) = (rm_clients r, None)"
    "scan_poll client_poll_write (rm_clients r) = (rm_clients r, None)"
    using assms by (auto simp: room_quiet_def client_poll_read_def client_poll_write_def intro!: scan_poll_idle)
  then show "room_poll_read r = (r, None)" "room_poll_write r = (r, None)"
    by (simp_all add: room_poll_read_def room_poll_write_def)
qed

lemma quiet_rooms_idle:
  assumes "quiet t"
  shows "\<forall>(k, r) \<in> set (rt_rooms t). room_poll_read r = (r, None)"
    "\<forall>(k, r) \<in> set (rt_rooms t). room_poll_write r = (r, None)"
  using assms room_quiet_idle by (auto simp: quiet_def)

lemma table_poll_one:
  assumes "quiet t" "map_of (rt_rooms t) rid = Some r"
  shows "room_poll_read r' = (r'', Some x) \<Longrightarrow> table_poll_read (table_put rid r' t) = (table_put rid r'' t, Some x)"
    "room_poll_write r' = (r'', Some x) \<Longrightarrow> table_poll_write (table_put rid r' t) = (table_put rid r'' t, Some x)"
  using scan_poll_one [OF quiet_rooms_idle(1) [OF assms(1)], of rid r' r'' x]
    scan_poll_one [OF quiet_rooms_idle(2) [OF assms(1)], of rid r' r'' x] assms(2)
  by (simp_all add: table_poll_read_def table_poll_write_def table_put_def)

lemma quiet_idle:
  assumes "quiet t"
  shows "table_poll_read t = (t, None)" "table_poll_write t = (t, None)"
  using scan_poll_idle [OF quiet_rooms_idle(1) [OF assms]] scan_poll_idle [OF quiet_rooms_idle(2) [OF assms]]
  by (simp_all add: table_poll_read_def table_poll_write_def)

lemma table_put_same [simp]: "map_of (rt_rooms t) rid = Some r \<Longrightarrow> table_put rid r t = t"
  by (simp add: table_put_def update_triv)

text \<open>A frame of one of two clients, from the read plane to the write plane of the other.\<close>

lemma room_frame:
  assumes "paired r a b" "room_quiet r" "map_of (rm_clients r) a = Some ca" "map_of (rm_clients r) b = Some cb"
  shows "\<exists>r'. room_handle_read \<lparr>msg_roomid = rid, msg_clientid = a, msg_msg = msg\<rparr> r = (r', Ok ()) \<and>
      room_poll_read r' = (r, Some \<lparr>msg_roomid = rid, msg_clientid = a, msg_msg = msg\<rparr>)"
    "cl_registered cb \<Longrightarrow> \<exists>r'. room_send now a msg r = (r', Ok ()) \<and>
      room_poll_write r' = (r, Some \<lparr>msg_roomid = rm_id r, msg_clientid = b, msg_msg = msg\<rparr>)"
    "\<not> cl_registered cb \<Longrightarrow> room_send now a msg r =
       (if length (cl_msgs ca) < 1024 then (room_put a (ca\<lparr>cl_msgs := cl_msgs ca @ [msg]\<rparr>) r, Ok ())
        else (r, Err ''Too many messages queued for the client''))"
  using assms(2-4)
  by (cases rule: paired_shape [OF assms(1)];
      auto simp: room_handle_read_def client_handle_read_def room_poll_read_def client_poll_read_def room_quiet_def
        room_send_def room_client_def client_send_def client_handle_write_def client_enqueue_def
        room_poll_write_def client_poll_write_def MAX_QUEUED_MSG_COUNT_def room_put_def other_key_def)+

lemma table_send_room:
  "map_of (rt_rooms t) rid = Some r \<Longrightarrow> room_send now a msg r = (r', res) \<Longrightarrow>
     table_send now rid a msg t = (table_put rid r' t, res)"
  by (simp add: table_send_def on_room_eq room_or_new_def table_room_def)

text \<open>The relay loop moves the frame and leaves nothing else behind.\<close>

lemma relay_frame:
  assumes "table_inv t" "quiet t" "map_of (rt_rooms t) rid = Some r" "paired r a b"
    "map_of (rm_clients r) a = Some ca" "map_of (rm_clients r) b = Some cb"
  obtains t1 where "table_handle_read \<lparr>msg_roomid = rid, msg_clientid = a, msg_msg = msg\<rparr> t = (t1, Ok ())"
    "relay_reads now t1 = table_send now rid a msg t"
proof -
  let ?m = "\<lparr>msg_roomid = rid, msg_clientid = a, msg_msg = msg\<rparr>"
  have q: "room_quiet r" using assms(2,3) by (auto simp: quiet_def dest: map_of_SomeD)
  from room_frame(1) [OF assms(4) q assms(5,6), of rid msg]
  obtain r1 where r1: "room_handle_read ?m r = (r1, Ok ())" "room_poll_read r1 = (r, Some ?m)" by blast
  let ?t1 = "table_put rid r1 t"
  have h: "table_handle_read ?m t = (?t1, Ok ())" by (simp add: table_handle_read_def assms(3) r1(1))
  have "table_inv ?t1" using v1_exec_inv [OF assms(1), of 0 "V1HandleRead ?m"] h by simp
  moreover have "table_reads_size ?t1 \<le> 1" using table_handle_read_sizes [OF h] assms(2) by (simp add: quiet_sizes)
  ultimately have "relay_reads now ?t1 = table_send now rid a msg t"
    using table_poll_one(1) [OF assms(2,3) r1(2)] assms(3) by (simp add: relay_one)
  with h that show ?thesis by blast
qed

lemma drain_one:
  assumes "quiet (co_rooms c)" "table_poll_write t = (co_rooms c, Some w)"
    "map_of (co_connections c) (msg_roomid w, msg_clientid w) = Some conn"
  shows "drain_room_writes js (c\<lparr>co_rooms := t\<rparr>) = push_output (OutText conn (server_msg js (msg_msg w))) c"
proof -
  have "drain_room_writes js c' = c'" if "co_rooms c' = co_rooms c" for c' :: collider
    using quiet_idle(2) [OF assms(1)] that by (simp add: drain_room_writes.simps [of js c'])
  then show ?thesis using assms(2,3) by (simp add: drain_room_writes.simps [of js "c\<lparr>co_rooms := t\<rparr>"])
qed

section \<open>V1\<close>

text \<open>A text that decodes to a frame.\<close>

definition decodes :: "'v json \<Rightarrow> string \<Rightarrow> 'v ws_client_msg \<Rightarrow> bool" where
  "decodes js text msg \<longleftrightarrow> (\<exists>v. json_from_str js text = Inr v \<and> json_from_value js v = Inr msg)"

lemma send_frame:
  assumes "decodes js text msg" "ws_cmd msg = ''send''" "ws_msg msg \<noteq> []"
  shows "collider_exec js lib (CoRead (BrowserText conn text now)) c =
    (case map_of (co_sessions c) conn of
       Some (RegisteredV1 rid cid) \<Rightarrow> send_v1 js rid cid (ws_msg msg) now c
     | Some (RegisteredV2 rid cid) \<Rightarrow> send_v2 js lib rid cid msg c
     | _ \<Rightarrow> refuse js conn ''Client not registered'' c)"
  using assms
  by (auto simp: decodes_def collider_handle_read_def handle_browser_text_def collider_send_def
      split: option.split session.split)

text \<open>
  C16. A V1 frame reaches exactly the peer. When the sender shares its room with another
  client, a send puts one frame with the same body on the connection of the peer, if the
  peer is registered, and changes nothing else; if it is not, the body joins the sender's
  queue and nobody gets a frame; and when 1024 bodies wait already, the send fails with an
  error for the driver and changes nothing.
\<close>

theorem v1_send_to_peer:
  assumes "reachable collider_initial (collider_step js lib) c"
    "map_of (co_sessions c) conn = Some (RegisteredV1 rid a)"
    "map_of (rt_rooms (co_rooms c)) rid = Some r" "paired r a b"
    "map_of (rm_clients r) a = Some ca" "map_of (rm_clients r) b = Some cb"
    "decodes js text msg" "ws_cmd msg = ''send''" "ws_msg msg \<noteq> []"
  shows "\<exists>peer. (cl_registered cb \<longrightarrow> map_of (co_sessions c) peer = Some (RegisteredV1 rid b)) \<and>
    collider_exec js lib (CoRead (BrowserText conn text now)) c =
      (if cl_registered cb
       then (c\<lparr>co_browser_outputs := co_browser_outputs c @ [OutText peer (server_msg js (ws_msg msg))]\<rparr>, Ok ())
       else if length (cl_msgs ca) < 1024
       then (c\<lparr>co_rooms := table_put rid (room_put a (ca\<lparr>cl_msgs := cl_msgs ca @ [ws_msg msg]\<rparr>) r) (co_rooms c)\<rparr>, Ok ())
       else (c, Err ''Too many messages queued for the client''))"
proof -
  have inv: "collider_inv c" using authority.inv_reachable [OF assms(1)] .
  then have ok: "collider_ok c" and q: "quiet (co_rooms c)" by (simp_all add: collider_inv_def)
  note t = collider_okD(1) [OF ok]
  have rid: "rm_id r = rid" using table_invD [OF t assms(3)] by (simp add: room_of_table_def)
  have rq: "room_quiet r" using q assms(3) by (auto simp: quiet_def dest: map_of_SomeD)
  note frame = room_frame(2,3) [OF assms(4) rq assms(5,6), of now "ws_msg msg"]
  obtain t1 where t1: "table_handle_read \<lparr>msg_roomid = rid, msg_clientid = a, msg_msg = ws_msg msg\<rparr> (co_rooms c) = (t1, Ok ())"
    "relay_reads now t1 = table_send now rid a (ws_msg msg) (co_rooms c)"
    using relay_frame [OF t q assms(3-6)] by blast
  have exec: "collider_exec js lib (CoRead (BrowserText conn text now)) c =
      (case table_send now rid a (ws_msg msg) (co_rooms c) of
         (rooms, Inl e) \<Rightarrow> (c\<lparr>co_rooms := rooms\<rparr>, Inl e)
       | (rooms, Inr _) \<Rightarrow> (drain_room_writes js (c\<lparr>co_rooms := rooms\<rparr>), Ok ()))"
    unfolding send_frame [OF assms(7-9)] using assms(2) by (simp add: send_v1_def t1)
  show ?thesis
  proof (cases "cl_registered cb")
    case True
    with assms(3,6) have "v1_registered (co_rooms c) rid b" by (simp add: v1_registered_def room_registered_def)
    then obtain peer where peer: "map_of (co_connections c) (rid, b) = Some peer"
      using collider_okD(5) [OF ok] unfolding connected_def by blast
    obtain r' where r': "room_send now a (ws_msg msg) r = (r', Ok ())"
      "room_poll_write r' = (r, Some \<lparr>msg_roomid = rid, msg_clientid = b, msg_msg = ws_msg msg\<rparr>)"
      using frame(1) [OF True] rid by auto
    have poll: "table_poll_write (table_put rid r' (co_rooms c)) =
        (co_rooms c, Some \<lparr>msg_roomid = rid, msg_clientid = b, msg_msg = ws_msg msg\<rparr>)"
      using table_poll_one(2) [OF q assms(3) r'(2)] assms(3) by simp
    have "collider_exec js lib (CoRead (BrowserText conn text now)) c =
        (push_output (OutText peer (server_msg js (ws_msg msg))) c, Ok ())"
      unfolding exec table_send_room [OF assms(3) r'(1)] using peer by (simp add: drain_one [OF q poll])
    then show ?thesis
      using linkedD(1) [OF collider_okD(4) [OF ok], of rid b peer] peer True
      unfolding push_output_def by (intro exI [of _ peer]) simp
  next
    case False
    let ?r = "room_put a (ca\<lparr>cl_msgs := cl_msgs ca @ [ws_msg msg]\<rparr>) r"
    have "cl_writes ca = [] \<and> cl_reads ca = []"
      using rq map_of_SomeD [OF assms(5)] by (auto simp: room_quiet_def)
    then have "room_quiet ?r" using rq by (auto simp: room_quiet_def room_put_def dest!: in_hm_insert)
    then have "quiet (table_put rid ?r (co_rooms c))" using q by (rule quiet_put [rotated])
    from quiet_idle(2) [OF this] frame(2) [OF False] False assms(3) show ?thesis
      unfolding exec
      by (cases "length (cl_msgs ca) < 1024")
        (simp_all add: table_send_room drain_room_writes.simps [of js "c\<lparr>co_rooms := _\<rparr>"])
  qed
qed

section \<open>V2\<close>


section \<open>Early signaling\<close>

lemma put_twice [simp]:
  "put_room rid x (put_room rid y t) = put_room rid x t" "put_member k v (put_member k w r) = put_member k v r"
  by (simp_all add: put_room_def put_member_def)



lemma drivers_ok_texts [simp]: "drivers_ok js lib (map (\<lambda>(text, _). CoRead (BrowserText conn text now)) frames) c"
  by (induction frames arbitrary: c) auto



section \<open>Samples\<close>

theorem v1_send_to_peer_witness:
  "\<exists>peer. co_browser_outputs (fst (collider_exec v1_js rfc_lib (CoRead (BrowserText 1 ''hi'' 3)) v1_pair)) =
     co_browser_outputs v1_pair @ [OutText peer ''msg hi'']"
proof -
  obtain r ca cb where r: "map_of (rt_rooms (co_rooms v1_pair)) ''r'' = Some r"
    and m: "map_of (rm_clients r) ''a'' = Some ca" "map_of (rm_clients r) ''b'' = Some cb" and reg: "cl_registered cb"
    by (rule v1_pair_clients)
  have "table_inv (co_rooms v1_pair)"
    using authority.inv_reachable [OF v1_pair_reachable] by (simp add: collider_inv_def collider_ok_def)
  from table_invD [OF this r] have "room_inv r" by (simp add: room_of_table_def)
  with m have p: "paired r ''a'' ''b''" by (auto simp: paired_def hm_keys_iff)
  let ?msg = "v1_frame ''send'' [] [] ''hi''"
  have d: "decodes v1_js ''hi'' ?msg" by (simp add: decodes_def v1_js_def book_json_def)
  have f: "ws_cmd ?msg = ''send''" "ws_msg ?msg = ''hi''" and out: "server_msg v1_js ''hi'' = ''msg hi''"
    by (simp_all add: v1_frame_def server_msg_def to_wire_def ws_server_msg_msg_def v1_js_def book_json_def wire_text_def)
  from v1_send_to_peer [OF v1_pair_reachable v1_pair_sel(1) r p m d f(1), where now = 3] show ?thesis
    unfolding f(2) if_P [OF reg] out by auto
qed






end
