(* ===== verification/Collider_Media.thy ===== *)
theory Collider_Media
  imports Collider_Signaling
begin

text \<open>
  Signaling while a room is on an SFU worker: what a browser sends goes to the worker, and
  what the worker signals goes to the browser, as long as both speak of the current
  assignment.
\<close>

section \<open>From the browser to the worker\<close>

definition signal_to_worker :: "connection_id \<Rightarrow> uuid \<Rightarrow> member_id \<Rightarrow> v2_room \<Rightarrow> member \<Rightarrow> string \<Rightarrow> request_id \<Rightarrow> browser_output" where
  "signal_to_worker w rid cid r m text k = OutSfu (OutputCommand w \<lparr>cm_request_id = k, cm_command = Signal
     \<lparr>sg_room_id = rid, sg_client_id = cid, sg_lifecycle_id = mb_lifecycle_id m,
      sg_assignment_epoch = vr_assignment_epoch r, sg_message_json = text, sg_sdp_request_id = None\<rparr>\<rparr>)"

text \<open>
  C8. In a room on the SFU a browser's frame goes to the room's worker, and only under the
  current epoch (when no action waits to be drained). With the worker connected, a send under the room's epoch puts exactly one
  signal command on the worker's connection, marked with the member's lifecycle and the room's
  assignment, and no browser gets anything; under another epoch nothing happens at all; and
  when the worker is gone the driver gets an error and nothing changes.
\<close>

theorem sfu_send_to_worker:
  assumes "vt_actions (co_v2_rooms c) = []"
    "map_of (co_sessions c) conn = Some (RegisteredV2 rid a)"
    "map_of (vt_rooms (co_v2_rooms c)) rid = Some r" "vr_mode r = Sfu" "map_of (vr_members r) a = Some m"
    "vr_assigned_instance r = Some inst"
    "decodes js text msg" "ws_cmd msg = ''send''" "ws_msg msg \<noteq> []"
    "Option.bind (ws_epoch msg) (canonical_json_u64 js) = Some epoch"
    "collider_exec js lib (CoRead (BrowserText conn text now)) c = (c', res)"
  shows "if epoch \<noteq> vr_signal_epoch r then c' = c \<and> res = Ok ()
    else (case worker_connection inst (co_v2_rooms c) of
        None \<Rightarrow> c' = c \<and> res = Err ''WORKER_UNAVAILABLE''
      | Some w \<Rightarrow> res = Ok () \<and> vt_rooms (co_v2_rooms c') = vt_rooms (co_v2_rooms c) \<and>
          co_sessions c' = co_sessions c \<and> co_browser_outputs c' = co_browser_outputs c @
            [signal_to_worker w rid a r m (ws_msg msg) (vt_next_sfu_request_id (co_v2_rooms c))])"
proof -
  have exec: "collider_exec js lib (CoRead (BrowserText conn text now)) c = send_v2 js lib rid a msg c"
    using send_frame [OF assms(7-9)] assms(2) by simp
  have same: "c\<lparr>co_v2_rooms := co_v2_rooms c\<rparr> = c" by simp
  show ?thesis
  proof (cases "epoch = vr_signal_epoch r")
    case False
    with assms(11) exec show ?thesis
      by (simp add: send_v2_def assms(10) v2_send_def assms(3) drain_idle [OF assms(1)])
  next
    case True
    show ?thesis
    proof (cases "worker_connection inst (co_v2_rooms c)")
      case None
      with True assms(11) exec show ?thesis
        by (auto simp: send_v2_def assms(3-6,10) v2_send_def)
    next
      case (Some w)
      with True assms(11) exec show ?thesis
        by (auto simp: send_v2_def assms(1,3-6,10) v2_send_def Let_def signal_to_worker_def
            drain_step handle_action_def drain_idle)
    qed
  qed
qed

section \<open>From the worker to the browser\<close>

definition current_signal :: "instance_id \<Rightarrow> sfu_signal \<Rightarrow> v2_table \<Rightarrow> bool" where
  "current_signal inst s t \<longleftrightarrow> (\<exists>r m. map_of (vt_rooms t) (sg_room_id s) = Some r \<and>
     map_of (vr_members r) (sg_client_id s) = Some m \<and> vr_mode r = Sfu \<and> vr_assigned_instance r = Some inst \<and>
     vr_assignment_epoch r = sg_assignment_epoch s \<and> mb_lifecycle_id m = sg_lifecycle_id s)"

lemma fresh_signal_to_browser:
  assumes "vt_actions (co_v2_rooms c) = []"
    "map_of (vt_workers (co_v2_rooms c)) inst = Some w" "wk_connection_id w = Some conn"
    "ev_request_id event \<noteq> 0" "ev_request_id event \<notin> set (wk_seen_events w)" "ev_event event = EventSignal s"
  shows "case collider_handle_sfu_input js lib (InputEvent conn inst event) c of (c', res) \<Rightarrow>
    (if current_signal inst s (co_v2_rooms c)
      then res = Ok () \<and> co_browser_outputs c' = co_browser_outputs c @
        (case map_of (co_v2_connections c) (sg_room_id s, sg_client_id s) of None \<Rightarrow> []
         | Some b \<Rightarrow> [OutText b (server_msg js (sg_message_json s))]) @
        [OutSfu (OutputEventAck conn (ev_request_id event))]
      else (\<exists>e. res = Err e) \<and> co_browser_outputs c' = co_browser_outputs c) \<and>
    vt_rooms (co_v2_rooms c') = vt_rooms (co_v2_rooms c)"
proof -
  let ?t = "put_worker inst (remember_event (ev_request_id event) w) (co_v2_rooms c)"
  have event: "handle_worker_event conn inst event (co_v2_rooms c) =
      (case worker_signal inst s ?t of (t2, Inl e) \<Rightarrow> (t2, Inl e)
       | (t2, Inr _) \<Rightarrow> (push_action (ActionSfu (OutputEventAck conn (ev_request_id event))) t2, Ok ()))"
    using assms(2-6) by (simp add: handle_worker_event_def Let_def)
  show ?thesis
  proof (cases "current_signal inst s (co_v2_rooms c)")
    case True
    then have "worker_signal inst s ?t = (push_action (Deliver \<lparr>de_room_id = sg_room_id s, de_client_id = sg_client_id s,
        de_message = sg_message_json s\<rparr>) ?t, Ok ())"
      by (auto simp: current_signal_def worker_signal_def)
    with True show ?thesis
      by (auto simp: collider_handle_sfu_input_def handle_sfu_input_def event assms(1) drain_step drain_idle
          handle_action_def text_to_member_def split: option.splits)
  next
    case False
    then have "worker_signal inst s ?t = (?t, snd (worker_signal inst s ?t)) \<and> (\<exists>e. snd (worker_signal inst s ?t) = Err e)"
      by (auto simp: current_signal_def worker_signal_def split: option.split)
    then obtain e where "worker_signal inst s ?t = (?t, Err e)" by metis
    with False show ?thesis
      by (auto simp: collider_handle_sfu_input_def handle_sfu_input_def event)
  qed
qed

text \<open>
  C7. What becomes of a signal event of a worker, when no action waits to be drained. The driver
  gets an error, and nobody anything, if the worker is unknown, if the connection is not its
  current one or if the event id is 0. An event id that the worker's memory of events still
  holds is only acknowledged. A new one reaches exactly the browser it is meant for, and only
  while it belongs to the current assignment: if the room is on this worker under the same
  assignment and the member has the same lifecycle, the body goes to the connection of that
  member, when it has one, and the worker gets one acknowledgement; otherwise the driver gets an
  error and nobody gets anything. The rooms are unchanged in every case, and the connection
  a body goes to holds the session of that member.
\<close>

theorem sfu_signal_to_browser:
  assumes "reachable collider_initial (collider_step js lib) c" "vt_actions (co_v2_rooms c) = []"
    "ev_event event = EventSignal s"
    "collider_exec js lib (CoSfu (InputEvent conn inst event)) c = (c', res)"
  shows "(case map_of (vt_workers (co_v2_rooms c)) inst of
      None \<Rightarrow> (\<exists>e. res = Err e) \<and> co_browser_outputs c' = co_browser_outputs c
    | Some w \<Rightarrow>
       if wk_connection_id w \<noteq> Some conn \<or> ev_request_id event = 0
       then (\<exists>e. res = Err e) \<and> co_browser_outputs c' = co_browser_outputs c
       else if ev_request_id event \<in> set (wk_seen_events w)
       then res = Ok () \<and> co_browser_outputs c' = co_browser_outputs c @ [OutSfu (OutputEventAck conn (ev_request_id event))]
       else if current_signal inst s (co_v2_rooms c)
       then res = Ok () \<and> co_browser_outputs c' = co_browser_outputs c @
         (case map_of (co_v2_connections c) (sg_room_id s, sg_client_id s) of None \<Rightarrow> []
          | Some b \<Rightarrow> [OutText b (server_msg js (sg_message_json s))]) @
         [OutSfu (OutputEventAck conn (ev_request_id event))]
       else (\<exists>e. res = Err e) \<and> co_browser_outputs c' = co_browser_outputs c) \<and>
    vt_rooms (co_v2_rooms c') = vt_rooms (co_v2_rooms c) \<and>
    (\<forall>b. map_of (co_v2_connections c) (sg_room_id s, sg_client_id s) = Some b \<longrightarrow>
       map_of (co_sessions c) b = Some (RegisteredV2 (sg_room_id s) (sg_client_id s)))"
proof -
  have "linked c"
    using authority.inv_reachable [OF assms(1)] by (simp add: collider_inv_def collider_okD(4))
  note session = linkedD(2) [OF this]
  have exec: "(c', res) = collider_handle_sfu_input js lib (InputEvent conn inst event) c" using assms(4) by simp
  consider (none) "map_of (vt_workers (co_v2_rooms c)) inst = None"
    | (stale) w where "map_of (vt_workers (co_v2_rooms c)) inst = Some w"
        "wk_connection_id w \<noteq> Some conn \<or> ev_request_id event = 0"
    | (seen) w where "map_of (vt_workers (co_v2_rooms c)) inst = Some w" "wk_connection_id w = Some conn"
        "ev_request_id event \<noteq> 0" "ev_request_id event \<in> set (wk_seen_events w)"
    | (new) w where "map_of (vt_workers (co_v2_rooms c)) inst = Some w" "wk_connection_id w = Some conn"
        "ev_request_id event \<noteq> 0" "ev_request_id event \<notin> set (wk_seen_events w)"
    by (cases "map_of (vt_workers (co_v2_rooms c)) inst") auto
  then show ?thesis
  proof cases
    case none
    with exec session show ?thesis
      by (auto simp: collider_handle_sfu_input_def handle_sfu_input_def handle_worker_event_def)
  next
    case stale
    with exec session show ?thesis
      by (auto simp: collider_handle_sfu_input_def handle_sfu_input_def handle_worker_event_def)
  next
    case seen
    with exec session show ?thesis
      by (auto simp: collider_handle_sfu_input_def handle_sfu_input_def handle_worker_event_def assms(2) drain_step
          drain_idle handle_action_def)
  next
    case (new w)
    note fresh = fresh_signal_to_browser [OF assms(2) new assms(3), of js lib, folded exec, unfolded prod.case]
    show ?thesis using fresh session new by simp
  qed
qed

section \<open>Applied\<close>

text \<open>Three members on the worker; member 20 is connected.\<close>

definition media_js :: "string json" where
  "media_js = book_json [(''reg 20'', v2_frame sample_token ''20'' ''tok''),
     (''sdp'', (v1_frame ''send'' [] [] ''offer'')\<lparr>ws_epoch := Some ''1''\<rparr>)]"

definition joined_op :: "member_id \<Rightarrow> u64 \<Rightarrow> request_id \<Rightarrow> collider_op" where
  "joined_op cid lifecycle req = CoSfu (InputCommandResult 9 ''w1''
     \<lparr>cr_request_id = req, cr_result = Inr (MemberJoined \<lparr>jm_room_id = sample_rid, jm_client_id = cid,
        jm_lifecycle_id = lifecycle, jm_assignment_epoch = 1\<rparr>)\<rparr> 6)"

definition on_sfu_ops :: "collider_op list" where
  "on_sfu_ops =
     [CoSfu (InputRegister 9 ''w1'' 1 sample_cap),
      CoSfu (InputEvent 9 ''w1'' \<lparr>ev_request_id = 1, ev_event = EventHealth sample_health\<rparr>),
      v2_admit_op 1 20 ''tok'', v2_admit_op 2 10 ''tok'', CoRead (BrowserConnected 1), CoRead (BrowserText 1 ''reg 20'' 0),
      v2_admit_op 3 15 ''tok'', joined_op 10 2 1, joined_op 20 2 2, joined_op 15 1 3]"

definition on_sfu :: collider where
  "on_sfu = collider_run media_js sample_lib on_sfu_ops (collider_new 10)"

definition sfu_shape :: "collider \<Rightarrow> bool" where
  "sfu_shape c \<longleftrightarrow> map_of (co_sessions c) 1 = Some (RegisteredV2 sample_rid 20) \<and>
     map_of (co_v2_connections c) (sample_rid, 20) = Some 1 \<and> vt_actions (co_v2_rooms c) = [] \<and>
     (case map_of (vt_workers (co_v2_rooms c)) ''w1'' of None \<Rightarrow> False
      | Some w \<Rightarrow> wk_connection_id w = Some 9 \<and> wk_seen_events w = [1]) \<and>
     (case map_of (vt_rooms (co_v2_rooms c)) sample_rid of None \<Rightarrow> False
      | Some r \<Rightarrow> vr_mode r = Sfu \<and> vr_signal_epoch r = 1 \<and> vr_assigned_instance r = Some ''w1'' \<and> vr_assignment_epoch r = 1 \<and>
          (case map_of (vr_members r) 20 of None \<Rightarrow> False | Some m \<Rightarrow> mb_lifecycle_id m = 2))"

lemma on_sfu_eval: "drivers_ok media_js sample_lib on_sfu_ops (collider_new 10) \<and> sfu_shape on_sfu \<and> canonical_u64 ''1'' = Some 1"
  by code_simp

lemma on_sfu_sel:
  obtains r m w where "map_of (co_sessions on_sfu) 1 = Some (RegisteredV2 sample_rid 20)"
    "map_of (co_v2_connections on_sfu) (sample_rid, 20) = Some 1" "vt_actions (co_v2_rooms on_sfu) = []"
    "map_of (vt_workers (co_v2_rooms on_sfu)) ''w1'' = Some w" "wk_connection_id w = Some 9" "wk_seen_events w = [1]"
    "map_of (vt_rooms (co_v2_rooms on_sfu)) sample_rid = Some r" "vr_mode r = Sfu" "vr_signal_epoch r = 1"
    "vr_assigned_instance r = Some ''w1''" "vr_assignment_epoch r = 1" "map_of (vr_members r) 20 = Some m" "mb_lifecycle_id m = 2"
  using on_sfu_eval unfolding sfu_shape_def by (auto split: option.splits)

theorem sfu_send_to_worker_witness:
  "\<exists>out. co_browser_outputs (fst (collider_exec media_js sample_lib (CoRead (BrowserText 1 ''sdp'' 7)) on_sfu)) =
     co_browser_outputs on_sfu @ [OutSfu (OutputCommand 9 out)]"
proof (rule on_sfu_sel)
  fix r m w
  assume s: "map_of (co_sessions on_sfu) 1 = Some (RegisteredV2 sample_rid 20)" "vt_actions (co_v2_rooms on_sfu) = []"
    and w: "map_of (vt_workers (co_v2_rooms on_sfu)) ''w1'' = Some w" "wk_connection_id w = Some 9"
    and r: "map_of (vt_rooms (co_v2_rooms on_sfu)) sample_rid = Some r" "vr_mode r = Sfu" "map_of (vr_members r) 20 = Some m"
      "vr_assigned_instance r = Some ''w1''" and e: "vr_signal_epoch r = 1"
  let ?msg = "(v1_frame ''send'' [] [] ''offer'')\<lparr>ws_epoch := Some ''1''\<rparr>"
  have d: "decodes media_js ''sdp'' ?msg" by (simp add: decodes_def media_js_def book_json_def)
  have f: "ws_cmd ?msg = ''send''" "ws_msg ?msg \<noteq> []" "Option.bind (ws_epoch ?msg) (canonical_json_u64 media_js) = Some 1"
    using on_sfu_eval by (simp_all add: v1_frame_def canonical_json_u64_def media_js_def book_json_def)
  have "worker_connection ''w1'' (co_v2_rooms on_sfu) = Some 9" using w by (simp add: worker_connection_def)
  with sfu_send_to_worker [OF s(2,1) r d f prod.collapse [symmetric], where lib = sample_lib and now = 7] e show ?thesis
    by (auto simp: signal_to_worker_def)
qed

theorem sfu_signal_to_browser_witness:
  "co_browser_outputs (fst (collider_exec media_js sample_lib (CoSfu (InputEvent 9 ''w1'' \<lparr>ev_request_id = 2,
       ev_event = EventSignal \<lparr>sg_room_id = sample_rid, sg_client_id = 20, sg_lifecycle_id = 2, sg_assignment_epoch = 1,
         sg_message_json = ''answer'', sg_sdp_request_id = None\<rparr>\<rparr>)) on_sfu)) =
     co_browser_outputs on_sfu @ [OutText 1 ''msg answer'', OutSfu (OutputEventAck 9 2)]"
proof (rule on_sfu_sel)
  fix r m w
  assume s: "map_of (co_v2_connections on_sfu) (sample_rid, 20) = Some 1" "vt_actions (co_v2_rooms on_sfu) = []"
    and w: "map_of (vt_workers (co_v2_rooms on_sfu)) ''w1'' = Some w" "wk_connection_id w = Some 9" "wk_seen_events w = [1]"
    and r: "map_of (vt_rooms (co_v2_rooms on_sfu)) sample_rid = Some r" "vr_mode r = Sfu" "vr_assigned_instance r = Some ''w1''"
      "vr_assignment_epoch r = 1" "map_of (vr_members r) 20 = Some m" "mb_lifecycle_id m = 2"
  let ?s = "\<lparr>sg_room_id = sample_rid, sg_client_id = 20, sg_lifecycle_id = 2, sg_assignment_epoch = 1,
         sg_message_json = ''answer'', sg_sdp_request_id = None\<rparr>"
  let ?e = "\<lparr>ev_request_id = 2, ev_event = EventSignal ?s\<rparr>"
  have reach: "reachable collider_initial (collider_step media_js sample_lib) on_sfu"
    unfolding on_sfu_def using on_sfu_eval by (intro collider_run_reachable [OF collider_new_reachable]) blast
  have "current_signal ''w1'' ?s (co_v2_rooms on_sfu)" using r by (simp add: current_signal_def)
  moreover have "server_msg media_js ''answer'' = ''msg answer''"
    by (simp add: server_msg_def to_wire_def ws_server_msg_msg_def media_js_def book_json_def wire_text_def)
  moreover have "ev_request_id ?e \<noteq> 0" "ev_request_id ?e \<notin> set (wk_seen_events w)" "ev_event ?e = EventSignal ?s"
    by (simp_all add: w(3))
  ultimately show ?thesis
    using sfu_signal_to_browser [OF reach s(2) _ prod.collapse [symmetric], where event = ?e and s = ?s and inst = "''w1''" and conn = 9]
      s(1) w(1,2) by simp
qed

end
