(* ===== verification/V2_Timers.thy ===== *)
theory V2_Timers
  imports V2_Signaling V2_Epochs
begin

text \<open>
  The deadlines of the V2 authority: every sweep leaves fewer of them behind, so a driver that
  keeps handing in the time while a deadline has passed comes to an end.
\<close>

section \<open>Work that is due\<close>

definition listening :: "v2_room \<Rightarrow> bool" where
  "listening r \<longleftrightarrow> vr_mode r = P2p \<or> (vr_mode r = Sfu \<and> vr_pending_leave r = None)"

definition expired_count :: "instant \<Rightarrow> (member_id, member) hashmap \<Rightarrow> nat" where
  "expired_count now m = length (filter (\<lambda>(c, mb). passed now (mb_reconnect_deadline mb)) m)"

definition room_work :: "instant \<Rightarrow> v2_room \<Rightarrow> nat" where
  "room_work now r = (if passed now (vr_downgrade_deadline r) then 1 else 0) +
     (if listening r then expired_count now (vr_members r) else 0)"

definition work :: "instant \<Rightarrow> v2_table \<Rightarrow> nat" where
  "work now t = hm_size (room_work now) (vt_rooms t)"

definition worker_due :: "instant \<Rightarrow> v2_table \<Rightarrow> instance_id \<Rightarrow> bool" where
  "worker_due now t inst =
     (case map_of (vt_workers t) inst of None \<Rightarrow> False | Some w \<Rightarrow> passed now (wk_disconnect_deadline w))"

lemma earliest_of: "earliest (map earliest tss) = Some d \<Longrightarrow> \<exists>ts \<in> set tss. Some d \<in> set ts"
  by (drule earliest_in) (metis earliest_in imageE list.set_map)

text \<open>A deadline that has passed is work.\<close>

lemma passed_simps [simp]: "\<not> passed now None" "passed now (Some d) \<longleftrightarrow> d \<le> now"
  by (simp_all add: passed_def)

lemma poll_timeout_work:
  assumes "v2_inv t" "v2_poll_timeout t = Some d" "d \<le> now"
  shows "(\<exists>inst. worker_due now t inst) \<or> work now t > 0"
proof -
  have room: "work now t > 0" if "(k, r) \<in> set (vt_rooms t)" "room_work now r > 0" for k r
    using hm_size_in [OF that(1), of "room_work now"] that(2) by (simp add: work_def)
  let ?browser = "concat (map (\<lambda>(k, r). map (\<lambda>(c, m). mb_reconnect_deadline m) (vr_members r))
      (filter (\<lambda>(k, r). vr_mode r = P2p \<or> (vr_mode r = Sfu \<and> vr_pending_leave r = None)) (vt_rooms t)))"
  have "\<exists>ts \<in> set [?browser, map (\<lambda>(k, w). wk_disconnect_deadline w) (vt_workers t),
      map (\<lambda>(k, r). vr_downgrade_deadline r) (vt_rooms t)]. Some d \<in> set ts"
    using assms(2) unfolding v2_poll_timeout_def Let_def by (intro earliest_of) simp
  then consider k r c m where "(k, r) \<in> set (vt_rooms t)" "listening r" "(c, m) \<in> set (vr_members r)" "mb_reconnect_deadline m = Some d"
    | k w where "(k, w) \<in> set (vt_workers t)" "wk_disconnect_deadline w = Some d"
    | k r where "(k, r) \<in> set (vt_rooms t)" "vr_downgrade_deadline r = Some d"
    by (auto simp: listening_def)
  then show ?thesis
  proof cases
    case 1
    then have "filter (\<lambda>(c, mb). passed now (mb_reconnect_deadline mb)) (vr_members r) \<noteq> []"
      using assms(3) by (fastforce simp: filter_empty_conv)
    with 1(2) have "room_work now r > 0" by (simp add: room_work_def expired_count_def)
    with room [OF 1(1)] show ?thesis by simp
  next
    case 2
    have "hm_ok (vt_workers t)" using assms(1) by (simp add: v2_inv_def hm_all_def)
    then have "map_of (vt_workers t) k = Some w" using 2(1) by (rule map_of_is_SomeI)
    with 2 assms(3) have "worker_due now t k" by (simp add: worker_due_def)
    then show ?thesis by blast
  next
    case 3
    then have "room_work now r > 0" using assms(3) by (simp add: room_work_def)
    with room [OF 3(1)] show ?thesis by simp
  qed
qed

section \<open>The sweep of a room\<close>

text \<open>Replacing the room by one with less work.\<close>

definition lighter :: "instant \<Rightarrow> v2_room \<Rightarrow> v2_room \<Rightarrow> bool" where
  "lighter now r r' \<longleftrightarrow> room_work now r' \<le> room_work now r \<and> (room_work now r > 0 \<longrightarrow> room_work now r' < room_work now r)"

lemma expired_count_rearm:
  "hm_ok m \<Longrightarrow> (c, mb) \<in> set m \<Longrightarrow> passed now (mb_reconnect_deadline mb) \<Longrightarrow> \<not> passed now (mb_reconnect_deadline mb') \<Longrightarrow>
     expired_count now (hm_insert c mb' m) < expired_count now m"
  by (induction m) (force simp: expired_count_def)+

lemma expired_count_map:
  "(\<And>c m. mb_reconnect_deadline (f c m) = mb_reconnect_deadline m) \<Longrightarrow>
     expired_count now (map (\<lambda>(c, m). (c, f c m)) ms) = expired_count now ms"
  by (induction ms) (auto simp: expired_count_def)

lemma fold_remove_filter: "vr_members (fold remove_member cs r) = filter (\<lambda>(c, m). c \<notin> set cs) (vr_members r)"
proof (induction cs arbitrary: r)
  case Nil
  then show ?case by simp
next
  case (Cons c cs)
  then show ?case by (auto simp: remove_member_def AList.delete_eq intro!: filter_cong)
qed

lemma expired_count_0: "expired_count now m = 0 \<longleftrightarrow> (\<forall>(c, mb) \<in> set m. \<not> passed now (mb_reconnect_deadline mb))"
  by (auto simp: expired_count_def filter_empty_conv)

lemma lighter_work:
  assumes "map_of (vt_rooms t) rid = Some r" "lighter now r r'" "vt_rooms t' = hm_insert rid r' (vt_rooms t)"
  shows "work now t' \<le> work now t \<and> (room_work now r > 0 \<longrightarrow> work now t' < work now t)"
  using assms hm_size_le [OF assms(1), of "room_work now" r'] hm_size_less [OF assms(1), of "room_work now" r']
  by (simp add: lighter_def work_def)

lemma lighter_dropped:
  assumes "map_of (vt_rooms t) rid = Some r" "lighter now r r'" "vt_rooms t' = hm_remove rid (hm_insert rid r' (vt_rooms t))"
  shows "work now t' \<le> work now t \<and> (room_work now r > 0 \<longrightarrow> work now t' < work now t)"
proof -
  have "work now t' \<le> work now (put_room rid r' t)"
    using hm_size_remove [of "room_work now" rid "hm_insert rid r' (vt_rooms t)"] by (simp add: work_def assms(3))
  with lighter_work [OF assms(1,2), of "put_room rid r' t"] show ?thesis by auto
qed

lemma downgrade_lighter:
  assumes "map_of (vt_rooms t) rid = Some r" "is_downgrade_eligible rid t" "passed now (vr_downgrade_deadline r)"
  shows "\<exists>r'. vt_rooms (fst (commit_downgrade rid t)) = hm_insert rid r' (vt_rooms t) \<and> lighter now r r'"
proof -
  have e: "vr_mode r = Sfu" "vr_members r \<noteq> []" "vr_pending_leave r = None"
    using assms(1,2) by (simp_all add: is_downgrade_eligible_def)
  obtain i cs where sorted: "sort (hm_keys (vr_members r)) = i # cs"
    using e(2) by (cases "sort (hm_keys (vr_members r))") (auto dest: arg_cong [of _ _ length])
  let ?ms = "map (\<lambda>(c, m). (c, m\<lparr>mb_is_initiator := (c = i), mb_queued_messages := []\<rparr>)) (vr_members r)"
  let ?r = "r\<lparr>vr_mode := P2p, vr_signal_epoch := sat_add (vr_signal_epoch r) 1,
      vr_downgrade_deadline := None, vr_assigned_instance := None, vr_members := ?ms\<rparr>"
  have "expired_count now ?ms = expired_count now (vr_members r)" by (rule expired_count_map) simp
  then have "lighter now r ?r" using e assms(3) by (simp add: lighter_def room_work_def listening_def)
  moreover have "vt_rooms (fst (commit_downgrade rid t)) = hm_insert rid ?r (vt_rooms t)"
    by (simp add: commit_downgrade_def assms(1) Let_def sorted leave_all_rooms split: option.split)
  ultimately show ?thesis by blast
qed

lemma sweep_p2p_lighter:
  assumes "map_of (vt_rooms t) rid = Some r" "vr_mode r = P2p" "\<not> passed now (vr_downgrade_deadline r)"
  shows "\<exists>r'. lighter now r r' \<and> (vt_rooms (fst (sweep_p2p now rid r t)) = hm_insert rid r' (vt_rooms t) \<or>
    vt_rooms (fst (sweep_p2p now rid r t)) = hm_remove rid (hm_insert rid r' (vt_rooms t)))"
proof -
  let ?cs = "map fst (filter (\<lambda>(c, m). passed now (mb_reconnect_deadline m)) (vr_members r))"
  let ?r1 = "fold remove_member ?cs r"
  have same: "vr_downgrade_deadline (fold remove_member cs q) = vr_downgrade_deadline q" for cs q
    by (induction cs arbitrary: q) (simp_all add: remove_member_def)
  have count: "expired_count now (vr_members ?r1) = 0"
    unfolding expired_count_0 fold_remove_filter by force
  have promoted: "expired_count now (vr_members (fst (promote_survivor rid ?r1))) = 0"
    "vr_downgrade_deadline (fst (promote_survivor rid ?r1)) = vr_downgrade_deadline r"
    using count by (auto simp: promote_survivor_def Let_def expired_count_0 same split: list.split)
  obtain r2 p where r2: "(if ?cs \<noteq> [] then promote_survivor rid ?r1 else (?r1, None)) = (r2, p)" by force
  then have "room_work now r2 = 0"
    using promoted count same assms(3) by (auto simp: room_work_def split: if_splits)
  then have "lighter now r r2" by (simp add: lighter_def)
  moreover have "vt_rooms (fst (sweep_p2p now rid r t)) = hm_insert rid r2 (vt_rooms t) \<or>
      vt_rooms (fst (sweep_p2p now rid r t)) = hm_remove rid (hm_insert rid r2 (vt_rooms t))"
    unfolding sweep_p2p_def Let_def r2 prod.case fst_conv by simp
  ultimately show ?thesis by blast
qed

lemma find_in: "List.find P xs = Some x \<Longrightarrow> x \<in> set xs \<and> P x"
  by (induction xs) (auto split: if_splits)

lemma leave_lighter:
  assumes "v2_inv t" "0 < vt_reconnect_grace t" "map_of (vt_rooms t) rid = Some r" "\<not> passed now (vr_downgrade_deadline r)"
    "vr_mode r = Sfu" "vr_pending_leave r = None" "(c, m) \<in> set (vr_members r)" "passed now (mb_reconnect_deadline m)"
  shows "\<exists>r'. lighter now r r' \<and> vt_rooms (case issue_sfu_leave rid c Disconnected t of
    (t1, True) \<Rightarrow> t1 | (t1, False) \<Rightarrow> arm_reconnect now rid c t1) = hm_insert rid r' (vt_rooms t)"
proof -
  have ok: "hm_ok (vr_members r)" using v2_invD(1) [OF assms(1,3)] by (simp add: room_good_def hm_all_def)
  then have m: "map_of (vr_members r) c = Some m" using assms(7) by (rule map_of_is_SomeI)
  let ?away = "r\<lparr>vr_pending_leave := Some \<lparr>pl_authority_request_id = None, pl_client_id = c\<rparr>\<rparr>"
  let ?armed = "put_member c (m\<lparr>mb_reconnect_deadline := Some (now + vt_reconnect_grace t)\<rparr>) r"
  have "expired_count now (vr_members r) > 0"
    using assms(7,8) expired_count_0 [of now "vr_members r"] by (fastforce simp: neq0_conv [symmetric] simp del: neq0_conv)
  then have away: "lighter now r ?away" using assms(4-6) by (simp add: lighter_def room_work_def listening_def)
  have "expired_count now (vr_members ?armed) < expired_count now (vr_members r)"
    using expired_count_rearm [OF ok assms(7,8)] assms(2) by simp
  then have armed: "lighter now r ?armed" using assms(4-6) by (simp add: lighter_def room_work_def listening_def)
  have "vt_rooms (arm_reconnect now rid c t) = hm_insert rid ?armed (vt_rooms t)"
    by (simp add: arm_reconnect_def assms(3) m)
  with away armed show ?thesis
    by (auto simp: issue_sfu_leave_def assms(3,5,6) m split: option.split)
qed

lemma sweep_room_work:
  assumes "v2_inv t" "0 < vt_reconnect_grace t" "map_of (vt_rooms t) rid = Some r"
  shows "work now (fst (sweep_room now rid t)) \<le> work now t \<and>
    (room_work now r > 0 \<longrightarrow> work now (fst (sweep_room now rid t)) < work now t)"
proof (cases "passed now (vr_downgrade_deadline r)")
  case True
  show ?thesis
  proof (cases "is_downgrade_eligible rid t")
    case el: True
    with downgrade_lighter [OF assms(3) el True] lighter_work [OF assms(3)] True show ?thesis
      by (auto simp: sweep_room_def assms(3))
  next
    case False
    have "lighter now r (r\<lparr>vr_downgrade_deadline := None\<rparr>)" using True by (simp add: lighter_def room_work_def listening_def)
    from lighter_work [OF assms(3) this] True False show ?thesis by (simp add: sweep_room_def assms(3))
  qed
next
  case False
  let ?find = "List.find (\<lambda>(c, m). passed now (mb_reconnect_deadline m)) (vr_members r)"
  consider "vr_mode r = P2p"
    | c m where "vr_mode r = Sfu" "vr_pending_leave r = None" "?find = Some (c, m)"
    | "vr_mode r \<noteq> P2p" "(if vr_mode r = Sfu \<and> vr_pending_leave r = None then ?find else None) = None"
    by (cases "vr_mode r = Sfu \<and> vr_pending_leave r = None"; cases ?find) auto
  then show ?thesis
  proof cases
    case 1
    then have "sweep_room now rid t = sweep_p2p now rid r t" using False by (simp add: sweep_room_def assms(3))
    with sweep_p2p_lighter [OF assms(3) 1 False] lighter_work [OF assms(3)] lighter_dropped [OF assms(3)]
    show ?thesis by metis
  next
    case 2
    then have cm: "(c, m) \<in> set (vr_members r)" "passed now (mb_reconnect_deadline m)" by (auto dest: find_in)
    have "fst (sweep_room now rid t) = (case issue_sfu_leave rid c Disconnected t of
        (t1, True) \<Rightarrow> t1 | (t1, False) \<Rightarrow> arm_reconnect now rid c t1)"
      using 2 False by (simp add: sweep_room_def assms(3) split: prod.split bool.split)
    with leave_lighter [OF assms False 2(1,2) cm] lighter_work [OF assms(3)] show ?thesis by metis
  next
    case 3
    then have "listening r \<Longrightarrow> expired_count now (vr_members r) = 0"
      by (auto simp: listening_def expired_count_0 find_None_iff)
    with False have "room_work now r = 0" by (simp add: room_work_def)
    moreover have "fst (sweep_room now rid t) = t" using 3 False by (simp add: sweep_room_def assms(3))
    ultimately show ?thesis by simp
  qed
qed

section \<open>Workers\<close>

definition deadline_of :: "v2_table \<Rightarrow> instance_id \<Rightarrow> instant option" where
  "deadline_of t inst = Option.bind (map_of (vt_workers t) inst) wk_disconnect_deadline"

lemma worker_due_iff: "worker_due now t inst \<longleftrightarrow> passed now (deadline_of t inst)"
  by (simp add: worker_due_def deadline_of_def split: option.split)

lemma deadline_frame [simp]:
  "deadline_of (push_action a t) = deadline_of t" "deadline_of (put_room rid r t) = deadline_of t"
  "deadline_of (drop_room rid t) = deadline_of t" "deadline_of (forget_command req t) = deadline_of t"
  "deadline_of (issue_command inst conn kind p t) = deadline_of t"
  by (simp_all add: deadline_of_def fun_eq_iff)

lemma deadline_release [simp]: "deadline_of (on_worker inst (release_worker rid n) t) = deadline_of t"
  by (auto simp: deadline_of_def fun_eq_iff on_worker_def release_worker_def split: option.split)

text \<open>What the sweep leaves alone: the deadlines of the workers and the configured grace.\<close>

definition kept :: "v2_table \<Rightarrow> v2_table \<Rightarrow> bool" where
  "kept t t' \<longleftrightarrow> deadline_of t' = deadline_of t \<and> vt_reconnect_grace t' = vt_reconnect_grace t"

lemma kept_refl [simp]: "kept t t" by (simp add: kept_def)

lemma kept_trans [trans]: "kept t t' \<Longrightarrow> kept t' t'' \<Longrightarrow> kept t t''" by (simp add: kept_def)

lemma kept_frame [simp]:
  "kept t (push_action a t') = kept t t'" "kept t (put_room rid r t') = kept t t'" "kept t (drop_room rid t') = kept t t'"
  "kept t (forget_command req t') = kept t t'" "kept t (issue_command inst conn kind p t') = kept t t'"
  "kept t (on_worker inst (release_worker rid n) t') = kept t t'"
  by (simp_all add: kept_def)

lemma cleanup_joined_kept: "kept t0 (fst (cleanup_joined inst conn rid epoch cids t)) = kept t0 t"
  by (induction cids arbitrary: t) (auto split: option.split)

lemma abort_upgrade_kept: "kept t (fst (abort_upgrade rid reason t))"
proof -
  have clean: "kept t t2 = kept t t'" if "cleanup_joined inst c rid e cs t' = (t2, res)" for inst c e cs t' t2 res
    using cleanup_joined_kept [of t inst c rid e cs t'] that by simp
  show ?thesis
    by (auto simp: abort_upgrade_def Let_def dest!: clean split: option.split prod.split sum.split)
qed

lemma leave_all_kept: "kept t0 (leave_all inst conn rid epoch leaving t) = kept t0 t"
  by (induction inst conn rid epoch leaving t rule: leave_all.induct) simp_all

lemma commit_downgrade_kept: "kept t (fst (commit_downgrade rid t))"
  by (auto simp: commit_downgrade_def Let_def leave_all_kept split: option.split list.split)

lemma issue_sfu_leave_kept: "kept t (fst (issue_sfu_leave rid cid reason t))"
  by (auto simp: issue_sfu_leave_def split: option.split)

lemma arm_reconnect_kept: "kept t0 (arm_reconnect now rid cid t) = kept t0 t"
  by (auto simp: arm_reconnect_def split: option.split)

lemma sweep_room_kept: "kept t (fst (sweep_room now rid t))"
proof -
  have leave: "kept t t1" if "issue_sfu_leave rid cid reason t = (t1, b)" for cid reason t1 b
    using issue_sfu_leave_kept [of t rid cid reason] that by simp
  moreover have "kept t (fst (sweep_p2p now rid r t))" for r
    by (auto simp: sweep_p2p_def Let_def split: prod.split)
  ultimately show ?thesis
    using commit_downgrade_kept
    by (auto simp: sweep_room_def arm_reconnect_kept split: option.split prod.split bool.split)
qed

lemma sweep_rooms_kept: "kept t (fst (sweep_rooms now rids t))"
proof (induction rids arbitrary: t)
  case (Cons rid rids)
  with sweep_room_kept [of t now rid] show ?case by (auto simp: case_prod_beta intro: kept_trans)
qed simp

lemma expire_assigned_room_kept: "kept t (expire_assigned_room rid t)"
  by (auto simp: expire_assigned_room_def Let_def abort_upgrade_kept split: option.split)

lemma expire_worker_kept:
  "deadline_of (expire_worker inst t) = (deadline_of t)(inst := None)"
  "vt_reconnect_grace (expire_worker inst t) = vt_reconnect_grace t"
proof -
  have "kept t' (fold expire_assigned_room rids t')" for rids t'
  proof (induction rids arbitrary: t')
    case (Cons rid rids)
    with expire_assigned_room_kept [of t' rid] show ?case by (auto intro: kept_trans)
  qed simp
  moreover have "kept t' (fold forget_command reqs t')" for reqs t'
  proof (induction reqs arbitrary: t')
    case (Cons req reqs)
    then show ?case using kept_trans [of t' "forget_command req t'"] by simp
  qed simp
  ultimately have "kept t (fold forget_command reqs (fold expire_assigned_room rids t))" for reqs rids
    by (blast intro: kept_trans)
  then show "deadline_of (expire_worker inst t) = (deadline_of t)(inst := None)"
    "vt_reconnect_grace (expire_worker inst t) = vt_reconnect_grace t"
    by (auto simp: expire_worker_def Let_def kept_def on_worker_def deadline_of_def fun_eq_iff split: option.split)
qed

lemma expire_workers_kept:
  "deadline_of (fold expire_worker insts t) = (\<lambda>k. if k \<in> set insts then None else deadline_of t k)"
  "vt_reconnect_grace (fold expire_worker insts t) = vt_reconnect_grace t"
  by (induction insts arbitrary: t) (auto simp: expire_worker_kept fun_eq_iff)

section \<open>The sweep of the table\<close>

lemma sweep_rooms_work:
  assumes "v2_inv t" "0 < vt_reconnect_grace t"
  shows "work now (fst (sweep_rooms now rids t)) \<le> work now t \<and>
    ((\<exists>rid \<in> set rids. \<exists>r. map_of (vt_rooms t) rid = Some r \<and> room_work now r > 0) \<longrightarrow>
       work now (fst (sweep_rooms now rids t)) < work now t)"
  using assms
proof (induction rids arbitrary: t)
  case Nil
  then show ?case by simp
next
  case (Cons rid rids)
  let ?t = "fst (sweep_room now rid t)"
  have le: "work now ?t \<le> work now t"
  proof (cases "map_of (vt_rooms t) rid")
    case None
    then show ?thesis by (simp add: sweep_room_def)
  next
    case (Some r)
    with sweep_room_work [OF Cons.prems Some] show ?thesis by simp
  qed
  have less: "work now ?t < work now t" if "map_of (vt_rooms t) rid = Some r" "room_work now r > 0" for r
    using sweep_room_work [OF Cons.prems that(1)] that(2) by simp
  have IH: "work now (fst (sweep_rooms now rids ?t)) \<le> work now ?t"
    "\<exists>k \<in> set rids. \<exists>r. map_of (vt_rooms ?t) k = Some r \<and> room_work now r > 0 \<Longrightarrow>
       work now (fst (sweep_rooms now rids ?t)) < work now ?t"
    using Cons.IH [of ?t] Cons.prems sweep_room_kept [of t now rid] by (simp_all add: sweep_room_inv kept_def)
  have run: "fst (sweep_rooms now (rid # rids) t) = fst (sweep_rooms now rids ?t)"
    by (simp add: case_prod_beta)
  have "work now (fst (sweep_rooms now rids ?t)) < work now t"
    if "k \<in> set (rid # rids)" "map_of (vt_rooms t) k = Some r" "room_work now r > 0" for k r
  proof (cases "k = rid")
    case True
    with less IH(1) that show ?thesis by fastforce
  next
    case False
    then have "k \<in> set rids" "map_of (vt_rooms ?t) k = Some r" using that sweep_room_others [OF False] by simp_all
    with IH(2) le that(3) show ?thesis by fastforce
  qed
  with IH(1) le show ?case unfolding run by (auto intro: order_trans)
qed

lemma sweep_rooms_work_all:
  assumes "v2_inv t" "0 < vt_reconnect_grace t" "work now t > 0"
  shows "work now (fst (sweep_rooms now (hm_keys (vt_rooms t)) t)) < work now t"
proof -
  obtain k r where kr: "(k, r) \<in> set (vt_rooms t)" "room_work now r > 0"
    using hm_size_pos [OF assms(3) [unfolded work_def]] by blast
  have "hm_ok (vt_rooms t)" using assms(1) by (simp add: v2_inv_def hm_all_def)
  then have "map_of (vt_rooms t) k = Some r" using kr(1) by (rule map_of_is_SomeI)
  moreover have "k \<in> set (hm_keys (vt_rooms t))" using kr(1) by force
  ultimately show ?thesis using kr(2) sweep_rooms_work [OF assms(1,2), of now "hm_keys (vt_rooms t)"] by blast
qed

section \<open>Progress\<close>

text \<open>After a sweep no worker is due, and if none was due before, there is less work.\<close>

lemma timeout_workers: "\<not> worker_due now (fst (v2_handle_timeout now t)) inst"
proof -
  let ?due = "map fst (filter (\<lambda>(k, w). passed now (wk_disconnect_deadline w)) (vt_workers t))"
  let ?t = "fold expire_worker ?due t"
  have "deadline_of (fst (v2_handle_timeout now t)) = deadline_of ?t"
    using sweep_rooms_kept [of ?t now "hm_keys (vt_rooms ?t)"] by (simp add: v2_handle_timeout_def Let_def kept_def)
  moreover have "inst \<in> set ?due" if "passed now (deadline_of t inst)"
    using that by (force simp: deadline_of_def passed_def split: option.splits bind_splits dest: map_of_SomeD)
  ultimately show ?thesis by (auto simp: worker_due_iff expire_workers_kept)
qed

lemma timeout_work:
  assumes "v2_inv t" "0 < vt_reconnect_grace t" "\<And>inst. \<not> worker_due now t inst" "0 < work now t"
  shows "work now (fst (v2_handle_timeout now t)) < work now t"
proof -
  have "\<not> passed now (wk_disconnect_deadline w)" if "(k, w) \<in> set (vt_workers t)" for k w
  proof -
    have "hm_ok (vt_workers t)" using assms(1) by (simp add: v2_inv_def hm_all_def)
    then have "map_of (vt_workers t) k = Some w" using that by (rule map_of_is_SomeI)
    with assms(3) [of k] show ?thesis by (simp add: worker_due_def)
  qed
  then have "filter (\<lambda>(k, w). passed now (wk_disconnect_deadline w)) (vt_workers t) = []"
    by (auto simp: filter_empty_conv)
  then have "v2_handle_timeout now t = sweep_rooms now (hm_keys (vt_rooms t)) t"
    by (simp add: v2_handle_timeout_def)
  with sweep_rooms_work_all [OF assms(1,2,4)] show ?thesis by simp
qed

text \<open>The rank of a table at an instant: a sweep lowers it while a deadline has passed.\<close>

definition timer_rank :: "instant \<Rightarrow> v2_table \<Rightarrow> bool \<times> nat" where
  "timer_rank now t = (\<exists>inst. worker_due now t inst, work now t)"

definition rank_less :: "((bool \<times> nat) \<times> (bool \<times> nat)) set" where
  "rank_less = {(False, True)} <*lex*> less_than"

lemma wf_rank_less: "wf rank_less"
  unfolding rank_less_def by (intro wf_lex_prod) (auto intro: wf_subset [OF wf_measure [of "\<lambda>b. if b then 1 else 0"]])

lemma timeout_rank:
  assumes "v2_inv t" "0 < vt_reconnect_grace t" "v2_poll_timeout t = Some d" "d \<le> now"
  shows "(timer_rank now (fst (v2_handle_timeout now t)), timer_rank now t) \<in> rank_less"
proof (cases "\<exists>inst. worker_due now t inst")
  case True
  then show ?thesis by (simp add: timer_rank_def rank_less_def timeout_workers)
next
  case False
  with poll_timeout_work [OF assms(1,3,4)] have "0 < work now t" by blast
  with timeout_work [OF assms(1,2)] False show ?thesis by (simp add: timer_rank_def rank_less_def timeout_workers)
qed

lemma timeout_grace: "vt_reconnect_grace (fst (v2_handle_timeout now t)) = vt_reconnect_grace t"
  using sweep_rooms_kept by (auto simp: v2_handle_timeout_def Let_def kept_def expire_workers_kept)

text \<open>Iterating an operation that lowers a rank until there is nothing to do.\<close>

lemma iterate_until:
  assumes "wf R" "P s" "\<And>s. P s \<Longrightarrow> P (f s)" "\<And>s. P s \<Longrightarrow> \<not> stop s \<Longrightarrow> (rank (f s), rank s) \<in> R"
  shows "\<exists>n. stop ((f ^^ n) s)"
  using assms(2)
proof (induction "rank s" arbitrary: s rule: wf_induct_rule [OF assms(1)])
  case (1 s)
  show ?case
  proof (cases "stop s")
    case True
    then show ?thesis by (metis funpow_0)
  next
    case False
    with 1 assms(3,4) obtain n where "stop ((f ^^ n) (f s))" by blast
    then have "stop ((f ^^ Suc n) s)" by (simp add: funpow_swap1)
    then show ?thesis by blast
  qed
qed

end
