(* ===== verification/Collider_Timers.thy ===== *)
theory Collider_Timers
  imports Collider_Signaling V2_Timers
begin

text \<open>
  Time in the whole authority: a driver that hands in the time until \<^verbatim>\<open>poll_timeout\<close> lies in the
  future comes to an end.
\<close>

lemma timer_rank_drained [simp]: "timer_rank now (t\<lparr>vt_actions := as\<rparr>) = timer_rank now t"
  by (simp add: timer_rank_def worker_due_def work_def)

lemma push_promotions_v1 [simp]: "co_rooms (drain_v2_actions js lib c) = co_rooms c"
proof (induction js lib c rule: drain_v2_actions.induct)
  case (1 js lib c)
  obtain rooms x where p: "v2_poll_action (co_v2_rooms c) = (rooms, x)" by force
  show ?case
  proof (cases x)
    case None
    then show ?thesis by (simp add: drain_v2_actions.simps [of js lib c] p)
  next
    case (Some a)
    with 1 [OF p [symmetric] Some] show ?thesis by (simp add: drain_v2_actions.simps [of js lib c] p)
  qed
qed

text \<open>The two tables after a timeout.\<close>

lemma timeout_tables:
  assumes "collider_inv c"
  shows "co_rooms (fst (collider_handle_timeout js lib now c)) = fst (table_handle_timeout now (co_rooms c))"
    "co_v2_rooms (fst (collider_handle_timeout js lib now c)) = (fst (v2_handle_timeout now (co_v2_rooms c)))\<lparr>vt_actions := []\<rparr>"
proof -
  have "snd (table_handle_timeout now (co_rooms c)) = Ok ()"
    using table_handle_timeout_registered(2) [of "co_rooms c" now] assms by (simp add: collider_inv_def collider_ok_def)
  then show "co_rooms (fst (collider_handle_timeout js lib now c)) = fst (table_handle_timeout now (co_rooms c))"
    "co_v2_rooms (fst (collider_handle_timeout js lib now c)) = (fst (v2_handle_timeout now (co_v2_rooms c)))\<lparr>vt_actions := []\<rparr>"
    by (auto simp: collider_handle_timeout_def split: prod.split)
qed

text \<open>
  C5. The clock never drives the authority into a loop. From every reachable state, with a
  positive grace period, handing in the same instant again and again (a sweep may leave work
  for the next one: a room that has just been downgraded, the second of two expired members
  of an SFU room) reaches after finitely many calls a state whose next deadline, if there is
  one, lies strictly in the future.
\<close>

theorem collider_timeouts_settle:
  assumes "reachable collider_initial (collider_step js lib) c" "0 < vt_reconnect_grace (co_v2_rooms c)"
  shows "\<exists>n. \<forall>d. collider_poll_timeout (((\<lambda>c. fst (collider_exec js lib (CoTimeout now) c)) ^^ n) c) = Some d \<longrightarrow> now < d"
proof -
  let ?f = "\<lambda>c. fst (collider_handle_timeout js lib now c)"
  let ?P = "\<lambda>c. collider_inv c \<and> 0 < vt_reconnect_grace (co_v2_rooms c) \<and>
      (\<forall>d. table_poll_timeout (co_rooms c) = Some d \<longrightarrow> now < d)"
  let ?stop = "\<lambda>c. \<forall>d. collider_poll_timeout c = Some d \<longrightarrow> now < d"
  have P: "?P (?f c)" if "collider_inv c" "0 < vt_reconnect_grace (co_v2_rooms c)" for c
  proof -
    have "table_inv (co_rooms c)" using that(1) by (simp add: collider_inv_def collider_ok_def)
    then show ?thesis
      using collider_handle_timeout_inv [OF that(1), of js lib now] that(2) table_timeout_later [of "co_rooms c" now]
      by (simp add: timeout_tables [OF that(1)] timeout_grace)
  qed
  have "(timer_rank now (co_v2_rooms (?f c)), timer_rank now (co_v2_rooms c)) \<in> rank_less"
    if p: "?P c" and st: "\<not> ?stop c" for c
  proof -
    obtain d where d: "collider_poll_timeout c = Some d" "d \<le> now" using st by auto
    then have "v2_poll_timeout (co_v2_rooms c) = Some d"
      using p d by (auto simp: collider_poll_timeout_def min_def split: option.splits if_splits)
    moreover have "v2_inv (co_v2_rooms c)" using p by (simp add: collider_inv_def collider_ok_def)
    ultimately show ?thesis
      using timeout_rank [of "co_v2_rooms c" d now] p d(2) by (simp add: timeout_tables)
  qed
  then obtain n where "?stop ((?f ^^ n) (?f c))"
    using iterate_until [OF wf_rank_less, of ?P "?f c" ?f ?stop "\<lambda>c. timer_rank now (co_v2_rooms c)"]
      P [OF authority.inv_reachable [OF assms(1)] assms(2)] P by blast
  then have "?stop ((?f ^^ Suc n) c)" by (simp only: funpow_Suc_right comp_apply)
  then show ?thesis unfolding collider_exec.simps by blast
qed

theorem collider_timeouts_settle_witness:
  "\<exists>n. \<forall>d. collider_poll_timeout (((\<lambda>c. fst (collider_exec v2_js sample_lib (CoTimeout 50) c)) ^^ n) v2_early) = Some d \<longrightarrow> 50 < d"
proof -
  have "0 < vt_reconnect_grace (co_v2_rooms v2_early)" by (simp add: v2_sel)
  from collider_timeouts_settle [OF v2_early_reachable this] show ?thesis .
qed

end
