(* ===== verification/V2_Answers.thy ===== *)
theory V2_Answers
  imports V2_Transitions
begin

text \<open>
  What the authority owes its driver: the admissions and removals that wait for a worker. A
  request id is held by the upgrade, the pending join or the pending leave of a room until the
  answer is queued as an action; no operation makes two answers out of one request.
\<close>

section \<open>Owed answers\<close>

definition room_owes :: "u64 \<Rightarrow> v2_room \<Rightarrow> nat" where
  "room_owes q r =
     (case vr_upgrade r of None \<Rightarrow> 0 | Some u \<Rightarrow> of_bool (up_authority_request_id u = q)) +
     (case vr_pending_join r of None \<Rightarrow> 0 | Some pj \<Rightarrow> of_bool (pj_authority_request_id pj = q)) +
     (case vr_pending_leave r of None \<Rightarrow> 0 | Some pl \<Rightarrow> of_bool (pl_authority_request_id pl = Some q))"

definition action_answers :: "u64 \<Rightarrow> action \<Rightarrow> nat" where
  "action_answers q a =
     (case a of AdmissionCompleted areq _ \<Rightarrow> of_bool (areq = q) | RemovalCompleted areq _ _ _ \<Rightarrow> of_bool (areq = q) | _ \<Rightarrow> 0)"

definition owed :: "u64 \<Rightarrow> v2_table \<Rightarrow> nat" where
  "owed q t = hm_size (room_owes q) (vt_rooms t) + sum_list (map (action_answers q) (vt_actions t))"

lemma action_answers_simps [simp]:
  "action_answers q (ActionSfu out) = 0" "action_answers q (AdmissionCompleted areq res) = of_bool (areq = q)"
  "action_answers q (RemovalCompleted areq rid cid res') = of_bool (areq = q)"
  "action_answers q (Upgraded rid e cs) = 0" "action_answers q (Downgraded rid e i cs) = 0"
  "action_answers q (Deliver d) = 0" "action_answers q (RoomFailed rid cs reason) = 0"
  by (simp_all add: action_answers_def)

lemma owed_frame [simp]:
  "owed q (push_action a t) = owed q t + action_answers q a" "owed q (put_worker inst w t) = owed q t"
  "owed q (on_worker inst f t) = owed q t" "owed q (forget_command req t) = owed q t"
  "owed q (issue_command inst conn kind p t) = owed q t" "owed q (t\<lparr>vt_lifecycle_ids := L\<rparr>) = owed q t"
  by (simp_all add: owed_def)

lemma room_owes_sel [simp]:
  "room_owes q (r\<lparr>vr_members := M\<rparr>) = room_owes q r" "room_owes q (r\<lparr>vr_mode := m\<rparr>) = room_owes q r"
  "room_owes q (r\<lparr>vr_signal_epoch := e\<rparr>) = room_owes q r" "room_owes q (r\<lparr>vr_assignment_epoch := e\<rparr>) = room_owes q r"
  "room_owes q (r\<lparr>vr_assigned_instance := i\<rparr>) = room_owes q r" "room_owes q (r\<lparr>vr_downgrade_deadline := d\<rparr>) = room_owes q r"
  "room_owes q (put_member cid mb r) = room_owes q r" "room_owes q (remove_member cid r) = room_owes q r"
  "room_owes q (new_v2_room M) = 0"
  by (simp_all add: room_owes_def put_member_def remove_member_def new_v2_room_def)

lemma owed_put_room:
  "map_of (vt_rooms t) rid = Some r \<Longrightarrow> owed q (put_room rid r' t) + room_owes q r = owed q t + room_owes q r'"
  using hm_size_update [of "vt_rooms t" rid r "room_owes q" r'] by (simp add: owed_def)

lemma owed_put_same:
  "map_of (vt_rooms t) rid = Some r \<Longrightarrow> room_owes q r' = room_owes q r \<Longrightarrow> owed q (put_room rid r' t) = owed q t"
  using owed_put_room [of t rid r q r'] by simp

lemma owed_put_new: "map_of (vt_rooms t) rid = None \<Longrightarrow> owed q (put_room rid r' t) = owed q t + room_owes q r'"
  using hm_size_put [of "room_owes q" rid r' "vt_rooms t"] by (simp add: owed_def)

lemma owed_drop: "owed q (drop_room rid t) \<le> owed q t"
  by (simp add: owed_def hm_size_remove)

lemma owed_lifecycle: "next_lifecycle rid cid t = (t', l) \<Longrightarrow> owed q t' = owed q t"
  by (auto simp: next_lifecycle_eq)

section \<open>Browser operations\<close>

lemma issue_next_upgrade_join_owed: "owed q (fst (issue_next_upgrade_join rid t)) = owed q t"
  by (auto simp: issue_next_upgrade_join_def Let_def split: option.split)

lemma issue_next_upgrade_join_ok:
  assumes "map_of (vt_rooms t) rid = Some r" "vr_upgrade r = Some u" "up_next_client u < length (up_ordered_clients u)"
    "hm_contains (vr_members r) (up_ordered_clients u ! up_next_client u)"
    "vr_assigned_instance r = Some inst" "worker_connection inst t = Some conn"
  shows "snd (issue_next_upgrade_join rid t) = Ok ()"
  using assms by (auto simp: issue_next_upgrade_join_def Let_def)

lemma begin_upgrade_owed:
  assumes t: "v2_inv t" and r: "map_of (vt_rooms t) rid = Some r" "vr_mode r = P2p"
    and new: "map_of (vr_members r) cid = None" and w: "select_worker n t = Some inst"
  shows "snd (begin_upgrade areq now rid cid token inst r t) = Ok AdmissionPending \<and>
    owed q (fst (begin_upgrade areq now rid cid token inst r t)) = owed q t + of_bool (areq = q) \<and>
    (\<exists>r'. map_of (vt_rooms (fst (begin_upgrade areq now rid cid token inst r t))) rid = Some r' \<and> 0 < room_owes areq r')"
proof -
  have good: "room_good (vt_lifecycle_ids t) rid r" by (rule v2_invD(1) [OF t r(1)])
  then have ok: "hm_ok (vr_members r)" and up: "vr_upgrade r = None"
    using r(2) by (auto simp: room_good_def hm_all_def v2_room_ok_def mode_ok_def)
  obtain w' conn where w': "map_of (vt_workers t) inst = Some w'" "wk_connection_id w' = Some conn"
  proof (cases rule: select_worker_cases [of n t])
    case (2 inst' w')
    have "hm_ok (vt_workers t)" using t by (simp add: v2_inv_def hm_all_def)
    with 2 w show thesis
      by (auto simp: worker_available_def split: option.splits intro: that map_of_is_SomeI)
  qed (use w in simp)
  obtain L' M' where eq: "begin_upgrade areq now rid cid token inst r t =
      (case issue_next_upgrade_join rid (put_worker inst
          (w'\<lparr>wk_assigned_rooms := List.insert rid (wk_assigned_rooms w'),
             wk_assigned_clients := sat_add (wk_assigned_clients w') 3\<rparr>)
          (put_room rid (upgrading_room areq cid inst M' r) (t\<lparr>vt_lifecycle_ids := L'\<rparr>))) of
         (t4, Inl e) \<Rightarrow> (t4, Inl e) | (t4, Inr _) \<Rightarrow> (t4, Ok AdmissionPending))"
    and M': "fst ` set M' = insert cid (fst ` set (vr_members r))"
    using begin_upgrade_eq [where areq = areq and now = now and rid = rid and token = token, OF ok new w'(1)] by blast
  let ?r = "upgrading_room areq cid inst M' r"
  let ?t3 = "put_worker inst (w'\<lparr>wk_assigned_rooms := List.insert rid (wk_assigned_rooms w'),
             wk_assigned_clients := sat_add (wk_assigned_clients w') 3\<rparr>)
          (put_room rid ?r (t\<lparr>vt_lifecycle_ids := L'\<rparr>))"
  have owes: "room_owes q ?r = room_owes q r + of_bool (areq = q)" for q
    using up by (simp add: upgrading_room_def room_owes_def)
  have hd_in: "hd (sort xs @ [c]) \<in> insert c (set xs)" for xs and c :: member_id
    by (cases "sort xs") (auto, metis list.set_intros(1) set_sort)
  have present: "hm_contains M' k" if "k \<in> insert cid (fst ` set (vr_members r))" for k
    using that M' by (metis hm_keys_iff)
  have "hm_contains M' ((sort (map fst (vr_members r)) @ [cid]) ! 0)"
    using present [of "hd (sort (map fst (vr_members r)) @ [cid])"] hd_in [of "map fst (vr_members r)" cid]
    by (simp add: hd_conv_nth)
  then have ok': "snd (issue_next_upgrade_join rid ?t3) = Ok ()"
    using w' by (intro issue_next_upgrade_join_ok [where r = ?r and inst = inst and conn = conn])
      (auto simp: upgrading_room_def worker_connection_def)
  have t4: "begin_upgrade areq now rid cid token inst r t = (fst (issue_next_upgrade_join rid ?t3), Ok AdmissionPending)"
    unfolding eq using ok' by (cases "issue_next_upgrade_join rid ?t3") simp
  have rooms: "vt_rooms (fst (issue_next_upgrade_join rid ?t3)) = vt_rooms ?t3"
    by (auto simp: issue_next_upgrade_join_def Let_def split: option.split)
  have "owed q (put_room rid ?r (t\<lparr>vt_lifecycle_ids := L'\<rparr>)) = owed q t + of_bool (areq = q)"
    using owed_put_room [of "t\<lparr>vt_lifecycle_ids := L'\<rparr>" rid r q ?r] r(1) owes by simp
  then show ?thesis
    using owes [of areq] by (simp add: t4 issue_next_upgrade_join_owed rooms)
qed

lemma owed_waits: "map_of (vt_rooms t) rid = Some r \<Longrightarrow> 0 < room_owes q r \<Longrightarrow> 0 < owed q t"
  using hm_size_in [OF map_of_SomeD, of "vt_rooms t" rid r "room_owes q"] by (simp add: owed_def)

text \<open>An admission that has to wait leaves its request id in the room, and only then.\<close>

lemma admit_to_sfu_owed:
  assumes r: "map_of (vt_rooms t) rid = Some r" "vr_pending_join r = None"
  shows "owed q (fst (admit_to_sfu areq now rid cid token r t)) =
      owed q t + of_bool (areq = q \<and> snd (admit_to_sfu areq now rid cid token r t) = Ok AdmissionPending) \<and>
    (snd (admit_to_sfu areq now rid cid token r t) = Ok AdmissionPending \<longrightarrow>
       0 < owed areq (fst (admit_to_sfu areq now rid cid token r t)))"
proof -
  obtain t1 l where l: "next_lifecycle rid cid t = (t1, l)" by force
  have rooms: "vt_rooms t1 = vt_rooms t" "owed q t1 = owed q t" for q using l by (auto simp: next_lifecycle_eq)
  define r1 where "r1 = (put_member cid (new_member now (vt_reconnect_grace t) token False l) r)
      \<lparr>vr_pending_join := Some \<lparr>pj_authority_request_id = areq, pj_client_id = cid\<rparr>, vr_downgrade_deadline := None\<rparr>"
  have r1: "room_owes q r1 = room_owes q r + of_bool (areq = q)" for q
    using r(2) by (simp add: r1_def room_owes_def put_member_def)
  have put: "owed q (put_room rid r1 t1) = owed q t + of_bool (areq = q)" for q
    using owed_put_room [of t1 rid r q r1] r(1) rooms r1 by simp
  show ?thesis
    unfolding admit_to_sfu_def l prod.case Let_def r1_def [symmetric] by (simp add: put split: option.split)
qed

lemma admit_owed:
  assumes t: "v2_inv t"
  shows "owed q (fst (admit areq now rid cid token t)) =
      owed q t + of_bool (areq = q \<and> snd (admit areq now rid cid token t) = Ok AdmissionPending) \<and>
    (snd (admit areq now rid cid token t) = Ok AdmissionPending \<longrightarrow> 0 < owed areq (fst (admit areq now rid cid token t)))"
proof (cases "map_of (vt_rooms t) rid")
  case None
  then show ?thesis by (auto simp: admit_def owed_put_new next_lifecycle_eq)
next
  case (Some r)
  have p2p: "owed q (put_room rid (put_member cid m r) (t\<lparr>vt_lifecycle_ids := L\<rparr>)) = owed q t" for m L
    using owed_put_same [of "t\<lparr>vt_lifecycle_ids := L\<rparr>" rid r q "put_member cid m r"] Some by simp
  have upgrade: "snd (begin_upgrade areq now rid cid token inst r t) = Ok AdmissionPending"
      "owed q (fst (begin_upgrade areq now rid cid token inst r t)) = owed q t + of_bool (areq = q)"
      "0 < owed areq (fst (begin_upgrade areq now rid cid token inst r t))"
    if "vr_mode r = P2p" "map_of (vr_members r) cid = None" "select_worker 3 t = Some inst" for inst q areq
    using begin_upgrade_owed [OF t Some that, of areq now token q] owed_waits by blast+
  show ?thesis
    using admit_to_sfu_owed [OF Some, of q areq now cid token]
    by (cases "vr_mode r") (auto simp: admit_def Some next_lifecycle_eq p2p upgrade split: option.split)
qed

lemma owed_take:
  "map_of (vt_rooms t) rid = Some r \<Longrightarrow> room_owes q r' + k \<le> room_owes q r \<Longrightarrow> owed q (put_room rid r' t) + k \<le> owed q t"
  using owed_put_room [of t rid r q r'] by simp

lemma room_owes_take:
  "vr_upgrade r = Some u \<Longrightarrow> room_owes q (r\<lparr>vr_upgrade := None\<rparr>) + of_bool (up_authority_request_id u = q) = room_owes q r"
  "vr_pending_join r = Some pj \<Longrightarrow>
     room_owes q (r\<lparr>vr_pending_join := None\<rparr>) + of_bool (pj_authority_request_id pj = q) = room_owes q r"
  "vr_pending_leave r = Some pl \<Longrightarrow>
     room_owes q (r\<lparr>vr_pending_leave := None\<rparr>) + of_bool (pl_authority_request_id pl = Some q) = room_owes q r"
  by (simp_all add: room_owes_def)

lemma room_owes_cong:
  "vr_upgrade r = vr_upgrade r' \<Longrightarrow> vr_pending_join r = vr_pending_join r' \<Longrightarrow> vr_pending_leave r = vr_pending_leave r' \<Longrightarrow>
     room_owes q r = room_owes q r'"
  by (simp add: room_owes_def)

lemma owed_drop_put: "owed q (put_room rid r t) \<le> n \<Longrightarrow> owed q (drop_room rid (put_room rid r t)) \<le> n"
  using owed_drop order_trans by blast

lemma room_owes_drain [simp]: "room_owes q (drain_others cid r) = room_owes q r"
  by (simp add: drain_others_def)

lemma room_owes_promote: "promote_survivor rid r = (r', p) \<Longrightarrow> room_owes q r' = room_owes q r"
  by (auto simp: promote_survivor_def Let_def split: if_splits list.splits)

lemma v2_register_owed: "owed q (fst (v2_register rid cid token t)) = owed q t"
  by (auto simp: v2_register_def Let_def owed_put_same split: option.split)

lemma issue_sfu_leave_owed: "owed q (fst (issue_sfu_leave rid cid reason t)) = owed q t"
  by (auto simp: issue_sfu_leave_def room_owes_def intro!: owed_put_same split: option.split)

lemma arm_reconnect_owed: "owed q (arm_reconnect now rid cid t) = owed q t"
  by (auto simp: arm_reconnect_def owed_put_same split: option.split)

lemma leave_or_arm_owed:
  "owed q (case issue_sfu_leave rid cid reason t of
     (t1, True) \<Rightarrow> t1 | (t1, False) \<Rightarrow> arm_reconnect now rid cid t1) = owed q t"
  using issue_sfu_leave_owed [of q rid cid reason t]
  by (auto simp: arm_reconnect_owed split: prod.split bool.split)

lemma v2_deregister_owed: "owed q (v2_deregister now rid cid t) = owed q t"
  by (simp add: v2_deregister_def Let_def leave_or_arm_owed arm_reconnect_owed owed_put_same split: option.split)

lemma v2_send_owed: "owed q (fst (v2_send rid cid epoch msg t)) = owed q t"
  by (auto simp: v2_send_def queue_for_peer_def owed_put_same split: option.split prod.split sum.split)

lemma v2_remove_owed:
  "owed q (fst (v2_remove areq rid cid token t)) \<le>
      owed q t + of_bool (areq = q \<and> snd (v2_remove areq rid cid token t) = Ok RemovalPending) \<and>
   (snd (v2_remove areq rid cid token t) = Ok RemovalPending \<longrightarrow> 0 < owed areq (fst (v2_remove areq rid cid token t)))"
proof (cases "map_of (vt_rooms t) rid")
  case None
  then show ?thesis by (simp add: v2_remove_def)
next
  case (Some r)
  have gone: "owed q (put_room rid r' t) = owed q t" "owed q (drop_room rid (put_room rid r' t)) \<le> owed q t"
    if "room_owes q r' = room_owes q r" for r'
    using owed_put_same [OF Some that] owed_drop [of q rid "put_room rid r' t"] by simp_all
  define r1 where "r1 = r\<lparr>vr_pending_leave := Some \<lparr>pl_authority_request_id = Some areq, pl_client_id = cid\<rparr>\<rparr>"
  have wait: "owed q (put_room rid r1 t) = owed q t + of_bool (areq = q)" if "vr_pending_leave r = None" for q
    using owed_put_room [OF Some, of q r1] that by (simp add: r1_def room_owes_def)
  note promote = room_owes_promote [of rid "remove_member cid r"]
  show ?thesis
    unfolding v2_remove_def Some option.case r1_def [symmetric] Let_def
    by (auto simp: gone wait promote split: option.split prod.split)
qed

section \<open>Worker operations\<close>

lemma fail_room_owed: "owed q (fail_room rid reason t) = owed q t"
  by (auto simp: fail_room_def owed_put_same split: option.split)

lemma commit_upgrade_owed: "owed q (fst (commit_upgrade rid t)) \<le> owed q t"
proof -
  have take: "owed q (put_room rid (r\<lparr>vr_upgrade := None, vr_mode := Sfu, vr_signal_epoch := e, vr_members := M\<rparr>) t) +
      of_bool (up_authority_request_id u = q) \<le> owed q t"
    if "map_of (vt_rooms t) rid = Some r" "vr_upgrade r = Some u" for r u e M
    using room_owes_take(1) [OF that(2), of q] by (intro owed_take [OF that(1)]) simp
  show ?thesis
    by (auto simp: commit_upgrade_def Let_def split: option.split dest: take add_leD1)
qed

lemma cleanup_joined_owed: "owed q (fst (cleanup_joined inst conn rid epoch cids t)) = owed q t"
  by (induction cids arbitrary: t) (auto split: option.split)

lemma abort_upgrade_owed: "owed q (fst (abort_upgrade rid reason t)) \<le> owed q t"
proof -
  have clean: "owed q t2 = owed q t'" if "cleanup_joined inst c rid e cs t' = (t2, res)" for inst c e cs t' t2 res
    using cleanup_joined_owed [of q inst c rid e cs t'] that by simp
  have take: "owed q (put_room rid (remove_member k r\<lparr>vr_upgrade := None, vr_mode := P2p, vr_assigned_instance := i\<rparr>) t) +
      of_bool (up_authority_request_id u = q) \<le> owed q t"
    "owed q (put_room rid (remove_member k r\<lparr>vr_upgrade := None, vr_mode := P2p\<rparr>) t) \<le> owed q t"
    if "map_of (vt_rooms t) rid = Some r" "vr_upgrade r = Some u" for r u i k
  proof -
    have "room_owes q (remove_member k r\<lparr>vr_upgrade := None, vr_mode := P2p, vr_assigned_instance := i\<rparr>) = room_owes q (r\<lparr>vr_upgrade := None\<rparr>)"
      "room_owes q (remove_member k r\<lparr>vr_upgrade := None, vr_mode := P2p\<rparr>) = room_owes q (r\<lparr>vr_upgrade := None\<rparr>)"
      by (auto intro: room_owes_cong)
    with room_owes_take(1) [OF that(2), of q] that(1) owed_take [OF that(1), of q _ "of_bool (up_authority_request_id u = q)"]
      owed_take [OF that(1), of q _ 0]
    show "owed q (put_room rid (remove_member k r\<lparr>vr_upgrade := None, vr_mode := P2p, vr_assigned_instance := i\<rparr>) t) +
      of_bool (up_authority_request_id u = q) \<le> owed q t"
      "owed q (put_room rid (remove_member k r\<lparr>vr_upgrade := None, vr_mode := P2p\<rparr>) t) \<le> owed q t"
      by simp_all
  qed
  show ?thesis
    by (auto simp: abort_upgrade_def Let_def split: option.split prod.split sum.split dest!: clean dest: take take(1) [THEN add_leD1])
qed

lemma arm_downgrade_owed: "owed q (arm_downgrade rid now t) = owed q t"
  by (auto simp: arm_downgrade_def owed_put_same split: option.split)

lemma leave_all_owed: "owed q (leave_all inst conn rid epoch leaving t) = owed q t"
  by (induction leaving arbitrary: t) auto

lemma commit_downgrade_owed: "owed q (fst (commit_downgrade rid t)) = owed q t"
  by (auto simp: commit_downgrade_def Let_def leave_all_owed owed_put_same split: option.split list.split)

lemma sync_rooms_owed: "owed q (sync_rooms inst conn rids t) = owed q t"
  by (induction rids arbitrary: t) (auto split: option.split)

lemma forget_commands_owed: "owed q (fold forget_command reqs t) = owed q t"
  by (induction reqs arbitrary: t) auto

lemma register_worker_owed: "owed q (fst (register_worker conn inst req cap t)) = owed q t"
  by (auto simp: register_worker_def Let_def sync_rooms_owed forget_commands_owed split: option.split)

lemma worker_signal_owed: "owed q (fst (worker_signal inst s t)) = owed q t"
  by (auto simp: worker_signal_def split: option.split)

lemma handle_worker_event_owed: "owed q (fst (handle_worker_event conn inst event t)) = owed q t"
proof -
  have signal: "owed q t2 = owed q t1" if "worker_signal inst s t1 = (t2, res)" for s t1 t2 res
    using worker_signal_owed [of q inst s t1] that by simp
  show ?thesis
    by (auto simp: handle_worker_event_def Let_def fail_room_owed dest!: signal
        split: option.split event_kind.split prod.split sum.split)
qed

lemma upgrade_join_result_owed: "owed q (fst (upgrade_join_result rid cid valid reason t)) \<le> owed q t"
proof -
  have put: "owed q (put_room rid (r\<lparr>vr_upgrade := Some (u\<lparr>up_joined_clients := js, up_next_client := n\<rparr>)\<rparr>) t) = owed q t"
    if "map_of (vt_rooms t) rid = Some r" "vr_upgrade r = Some u" for r u js n
    using that by (intro owed_put_same [OF that(1)]) (simp add: room_owes_def)
  show ?thesis
    using commit_upgrade_owed [of q rid]
    by (auto simp: upgrade_join_result_def Let_def abort_upgrade_owed issue_next_upgrade_join_owed put
        split: option.split intro: order_trans [OF commit_upgrade_owed])
qed

lemma sfu_join_result_owed: "owed q (fst (sfu_join_result inst rid cid valid reason t)) \<le> owed q t"
proof -
  have take: "owed q (put_room rid (r\<lparr>vr_pending_join := None\<rparr>) t) + of_bool (pj_authority_request_id pj = q) \<le> owed q t"
    "owed q (put_room rid (remove_member k (r\<lparr>vr_pending_join := None\<rparr>)) (put_room rid (r\<lparr>vr_pending_join := None\<rparr>) t)) +
       of_bool (pj_authority_request_id pj = q) \<le> owed q t"
    if "map_of (vt_rooms t) rid = Some r" "vr_pending_join r = Some pj" for r pj k
    using room_owes_take(2) [OF that(2), of q] owed_take [OF that(1), of q "r\<lparr>vr_pending_join := None\<rparr>" "of_bool (pj_authority_request_id pj = q)"]
      owed_put_same [of "put_room rid (r\<lparr>vr_pending_join := None\<rparr>) t" rid "r\<lparr>vr_pending_join := None\<rparr>" q "remove_member k (r\<lparr>vr_pending_join := None\<rparr>)"]
    by simp_all
  show ?thesis
    by (auto simp: sfu_join_result_def Let_def split: option.split dest: take take(1) [THEN add_leD1])
qed

lemma sfu_leave_result_owed: "owed q (fst (sfu_leave_result now inst rid cid valid reason t)) \<le> owed q t"
proof -
  have complete: "owed q ((case x of None \<Rightarrow> id | Some areq \<Rightarrow> push_action (RemovalCompleted areq rid cid (res :: string + unit))) t') =
      owed q t' + of_bool (x = Some q)" for x :: "u64 option" and res t'
    by (simp split: option.split)
  have take: "owed q (put_room rid r' t) + of_bool (pl_authority_request_id pl = Some q) \<le> owed q t"
    if "map_of (vt_rooms t) rid = Some r" "vr_pending_leave r = Some pl" "r' = r\<lparr>vr_pending_leave := None\<rparr> \<or> r' = remove_member cid (r\<lparr>vr_pending_leave := None\<rparr>)"
    for r r' pl
    using that(3) room_owes_take(3) [OF that(2), of q] by (intro owed_take [OF that(1)]) auto
  show ?thesis
    using take by (fastforce simp: sfu_leave_result_def Let_def complete arm_downgrade_owed split: option.split
        intro: order_trans [OF owed_drop])
qed

lemma push_replay_owed: "owed q (fold (\<lambda>c. push_action (ActionSfu (f c))) cs t) = owed q t"
  by (induction cs arbitrary: t) simp_all

lemma handle_command_result_owed: "owed q (fst (handle_command_result conn inst result now t)) \<le> owed q t"
proof -
  have forget: "owed q t' \<le> owed q (forget_command req t) \<Longrightarrow> owed q t' \<le> owed q t" for t' req
    by simp
  show ?thesis
    by (auto simp: handle_command_result_def Let_def fail_room_owed push_replay_owed
        split: option.split pending_command.split
        intro: forget [OF upgrade_join_result_owed] forget [OF sfu_join_result_owed] forget [OF sfu_leave_result_owed])
qed

lemma handle_sfu_input_owed: "owed q (fst (handle_sfu_input input t)) \<le> owed q t"
proof -
  have "owed q (worker_disconnected conn inst now t) = owed q t" for conn inst now
    by (auto simp: worker_disconnected_def split: option.split)
  then show ?thesis
    by (simp add: handle_sfu_input_def register_worker_owed handle_command_result_owed handle_worker_event_owed
        split: sfu_input.split)
qed

section \<open>Timeouts\<close>

lemma expire_assigned_room_owed: "owed q (expire_assigned_room rid t) \<le> owed q t"
proof (cases "map_of (vt_rooms t) rid")
  case None
  then show ?thesis by (simp add: expire_assigned_room_def)
next
  case (Some r)
  define r1 where "r1 = (case vr_pending_join r of None \<Rightarrow> r | Some pj \<Rightarrow> remove_member (pj_client_id pj) (r\<lparr>vr_pending_join := None\<rparr>))"
  define j :: nat where "j = (case vr_pending_join r of None \<Rightarrow> 0 | Some pj \<Rightarrow> of_bool (pj_authority_request_id pj = q))"
  define l :: nat where "l = (case vr_pending_leave r of None \<Rightarrow> 0 | Some pl \<Rightarrow> of_bool (pl_authority_request_id pl = Some q))"
  define r2 where "r2 = (case vr_pending_leave r1 of None \<Rightarrow> r1 | Some pl \<Rightarrow> r1\<lparr>vr_pending_leave := None\<rparr>)"
  have r1: "vr_pending_leave r1 = vr_pending_leave r" by (simp add: r1_def remove_member_def split: option.split)
  have "room_owes q (r2\<lparr>vr_mode := Failed\<rparr>) + (j + l) \<le> room_owes q r"
    by (auto simp: r1_def r2_def j_def l_def room_owes_def remove_member_def split: option.split)
  note put = owed_take [OF Some this]
  have push: "owed q (put_room rid r' (case x of None \<Rightarrow> t' | Some y \<Rightarrow> push_action (f y) t')) =
      owed q (put_room rid r' t') + (case x of None \<Rightarrow> 0 | Some y \<Rightarrow> action_answers q (f y))" for r' t' f and x :: "'x option"
    by (cases x) (simp_all add: put_room_push_action)
  show ?thesis
    using put abort_upgrade_owed [of q rid "''WORKER_UNAVAILABLE''" t] r1
    by (auto simp: expire_assigned_room_def Some Let_def r1_def r2_def j_def l_def push put_room_push_action
        split: option.splits)
qed

lemma expire_workers_owed: "owed q (fold expire_worker insts t) \<le> owed q t"
proof (induction insts arbitrary: t)
  case (Cons inst insts)
  have "owed q (fold expire_assigned_room rids t) \<le> owed q t" for rids t
    by (induction rids arbitrary: t) (auto intro: order_trans expire_assigned_room_owed)
  then have "owed q (expire_worker inst t) \<le> owed q t"
    by (simp add: expire_worker_def Let_def forget_commands_owed)
  with Cons.IH [of "expire_worker inst t"] show ?case by simp
qed simp

lemma fold_remove_owes: "room_owes q (fold remove_member cs r) = room_owes q r"
  by (induction cs arbitrary: r) auto

lemma sweep_room_owed: "owed q (fst (sweep_room now rid t)) \<le> owed q t"
proof -
  have leave: "owed q (fst (case issue_sfu_leave rid cid reason t of
      (t1, True) \<Rightarrow> (t1, p) | (t1, False) \<Rightarrow> (arm_reconnect now rid cid t1, p))) = owed q t"
    for cid reason and p :: "promotion option"
    using issue_sfu_leave_owed [of q rid cid reason t]
    by (auto simp: arm_reconnect_owed split: prod.splits bool.splits)
  have "owed q (fst (sweep_p2p now rid r t)) \<le> owed q t" if r: "map_of (vt_rooms t) rid = Some r" for r
    using room_owes_promote [of rid "fold remove_member cs r" for cs] owed_put_same [OF r]
    by (auto simp: sweep_p2p_def Let_def fold_remove_owes split: prod.split intro: order_trans [OF owed_drop])
  then show ?thesis
    by (auto simp: sweep_room_def commit_downgrade_owed leave owed_put_same split: option.split)
qed

lemma sweep_rooms_owed: "owed q (fst (sweep_rooms now rids t)) \<le> owed q t"
  by (induction rids arbitrary: t) (auto simp: case_prod_beta intro: order_trans sweep_room_owed)

lemma v2_handle_timeout_owed: "owed q (fst (v2_handle_timeout now t)) \<le> owed q t"
  by (auto simp: v2_handle_timeout_def Let_def intro: order_trans sweep_rooms_owed expire_workers_owed)

section \<open>Polls and rehashes\<close>

lemma v2_poll_action_owed:
  "owed q (fst (v2_poll_action t)) + (case snd (v2_poll_action t) of None \<Rightarrow> 0 | Some a \<Rightarrow> action_answers q a) = owed q t"
  by (simp add: v2_poll_action_def owed_def split: list.split)

lemma owed_perm:
  assumes "hm_ok (vt_rooms t)" "v2_perm t t'"
  shows "owed q t' = owed q t"
proof -
  have rel: "rel_option v2_room_perm (map_of (vt_rooms t) k) (map_of (vt_rooms t') k)" for k
    using assms(2) by (simp add: v2_perm_def)
  have p: "hm_ok (vt_rooms t')" "vt_actions t' = vt_actions t"
    using assms(2) by (simp_all add: v2_perm_def)
  have owes: "room_owes q r' = room_owes q r" if "v2_room_perm r r'" for r r'
  proof -
    have "r' = r\<lparr>vr_members := vr_members r'\<rparr>" using that by (simp add: v2_room_perm_def)
    then show ?thesis by (metis room_owes_sel(1))
  qed
  have "map_of (vt_rooms t') k = None \<longleftrightarrow> map_of (vt_rooms t) k = None" for k
    using rel [of k] by (auto elim: option.rel_cases)
  then have "dom (map_of (vt_rooms t')) = dom (map_of (vt_rooms t))" unfolding dom_def by simp
  moreover have "room_owes q (the (map_of (vt_rooms t') k)) = room_owes q (the (map_of (vt_rooms t) k))"
    if "k \<in> dom (map_of (vt_rooms t))" for k
    using rel [of k] that by (auto elim!: option.rel_cases simp: owes)
  ultimately show ?thesis
    using assms(1) p by (simp add: owed_def hm_size_dom)
qed

end
