(* ===== verification/Collider_Answers.thy ===== *)
theory Collider_Answers
  imports Collider_Flush V2_Answers
begin

text \<open>
  The answers to authority commands. Every command that is accepted is answered at once or
  waits in a V2 room for a worker, and no command is ever answered twice.
\<close>

section \<open>Answers on the way\<close>

definition answers :: "request_id \<Rightarrow> authority_response list \<Rightarrow> nat" where
  "answers q rs = length (filter (\<lambda>r. ar_request_id r = q) rs)"

definition open_answers :: "request_id \<Rightarrow> collider \<Rightarrow> nat" where
  "open_answers q c = answers q (co_authority_responses c) + owed q (co_v2_rooms c)"

lemma answers_simps [simp]:
  "answers q [] = 0" "answers q (rs @ rs') = answers q rs + answers q rs'"
  "answers q (r # rs) = of_bool (ar_request_id r = q) + answers q rs"
  by (simp_all add: answers_def)

lemma responses_push [simp]:
  "co_authority_responses (push_response req res c) = co_authority_responses c @ [\<lparr>ar_request_id = req, ar_result = res\<rparr>]"
  by (simp add: push_response_def)

lemma responses_frame [simp]:
  "co_authority_responses (close_v2_client_connection rid cid c) = co_authority_responses c"
  "co_authority_responses (close_client_connection rid' cid' c) = co_authority_responses c"
  "co_authority_responses (fail_connection js conn e c) = co_authority_responses c"
  "co_authority_responses (push_promotion js lib p c) = co_authority_responses c"
  "co_authority_responses (fold (\<lambda>m. push_output (f m)) ms c) = co_authority_responses c"
  "co_v2_rooms (fail_connection js conn e c) = co_v2_rooms c"
  by (simp_all add: close_v2_client_connection_def close_client_connection_def fail_connection_def push_promotion_def
      split: option.split) (induction ms arbitrary: c, simp_all)

lemma drain_room_writes_responses [simp]: "co_authority_responses (drain_room_writes js c) = co_authority_responses c"
  by (induction js c rule: drain_room_writes.induct;
      subst drain_room_writes.simps; auto split: prod.split option.split)

lemma handle_action_open:
  "co_v2_rooms (handle_action js lib a c) = co_v2_rooms c \<and>
   answers q (co_authority_responses (handle_action js lib a c)) = answers q (co_authority_responses c) + action_answers q a"
  by (simp add: handle_action_rooms) (simp add: handle_action_def action_answers_def split: action.split sum.split)

text \<open>Draining the actions turns owed answers into responses, one for one.\<close>

lemma drain_v2_actions_open: "open_answers q (drain_v2_actions js lib c) = open_answers q c"
proof (induction js lib c rule: drain_v2_actions.induct)
  case (1 js lib c)
  obtain rooms x where p: "v2_poll_action (co_v2_rooms c) = (rooms, x)" by force
  have poll: "owed q rooms + (case x of None \<Rightarrow> 0 | Some a \<Rightarrow> action_answers q a) = owed q (co_v2_rooms c)"
    using v2_poll_action_owed [where t = "co_v2_rooms c" and q = q] p by simp
  show ?case
  proof (cases x)
    case None
    with p poll show ?thesis by (simp add: drain_v2_actions.simps [of js lib c] open_answers_def)
  next
    case (Some a)
    with p poll 1 [OF p [symmetric] Some] handle_action_open [of js lib a "c\<lparr>co_v2_rooms := rooms\<rparr>" q]
    show ?thesis by (simp add: drain_v2_actions.simps [of js lib c] open_answers_def)
  qed
qed

section \<open>Inputs\<close>

lemma open_same: "co_authority_responses c' = co_authority_responses c \<Longrightarrow> owed q (co_v2_rooms c') = owed q (co_v2_rooms c) \<Longrightarrow>
    open_answers q c' = open_answers q c"
  by (simp add: open_answers_def)

lemma register_v1_open: "open_answers q (fst (register_v1 js conn msg now c)) = open_answers q c"
  by (auto simp: register_v1_def refuse_def intro!: open_same split: prod.split sum.split failure.split)

lemma register_v2_open: "open_answers q (fst (register_v2 js lib conn msg c)) = open_answers q c"
proof -
  have "owed q t = owed q (co_v2_rooms c)" if "v2_register rid cid token (co_v2_rooms c) = (t, res)" for rid cid token t res
    using v2_register_owed [of q rid cid token "co_v2_rooms c"] that by simp
  then show ?thesis
    by (auto simp: register_v2_def refuse_def intro!: open_same split: prod.split sum.split failure.split option.split)
qed

lemma send_v1_open: "open_answers q (fst (send_v1 js rid cid text now c)) = open_answers q c"
  by (auto simp: send_v1_def intro!: open_same split: prod.split sum.split)

lemma send_v2_open: "open_answers q (fst (send_v2 js lib rid cid msg c)) = open_answers q c"
proof -
  have "owed q t = owed q (co_v2_rooms c)" if "v2_send rid cid epoch m (co_v2_rooms c) = (t, res)" for epoch m t res
    using v2_send_owed [of q rid cid epoch m "co_v2_rooms c"] that by simp
  then show ?thesis
    by (auto simp: send_v2_def Let_def drain_v2_actions_open intro!: open_same
        split: prod.split sum.split option.split send_result.split)
qed

lemma handle_browser_text_open: "open_answers q (fst (handle_browser_text js lib conn text now c)) = open_answers q c"
proof -
  have refuse: "open_answers q (fst (refuse js conn e c)) = open_answers q c" for e
    by (auto simp: refuse_def intro!: open_same)
  show ?thesis
    by (simp add: handle_browser_text_def collider_send_def refuse register_v1_open register_v2_open
        send_v1_open send_v2_open split: sum.split option.split session.split)
qed

lemma disconnect_open: "open_answers q (disconnect js lib conn now c) = open_answers q c"
  by (auto simp: disconnect_def Let_def drain_v2_actions_open v2_deregister_owed intro!: open_same
      split: option.split session.split)

section \<open>Commands\<close>

lemma open_update: "open_answers q (c\<lparr>co_v2_rooms := t\<rparr>) = answers q (co_authority_responses c) + owed q t"
  by (simp add: open_answers_def)

lemma open_frame [simp]:
  "open_answers q (close_v2_client_connection rid cid c) = open_answers q c"
  "open_answers q (close_client_connection rid' cid' c) = open_answers q c"
  "open_answers q (push_promotion js lib p c) = open_answers q c" "open_answers q (c\<lparr>co_rooms := t\<rparr>) = open_answers q c"
  "open_answers q (drain_v2_actions js lib c) = open_answers q c" "open_answers q (drain_room_writes js c) = open_answers q c"
  by (simp_all only: drain_v2_actions_open)
    (simp_all add: open_answers_def push_promotion_def close_v2_client_connection_def close_client_connection_def split: option.split)

lemma authority_match_open:
  assumes c: "v2_inv (co_v2_rooms c)" and m: "authority_match js lib req operation c = (c1, res)"
  shows "open_answers q c1 \<le> open_answers q c + of_bool (req = q \<and> res = Ok None) \<and>
    (res = Ok None \<longrightarrow> 0 < open_answers req c1)"
proof (cases operation)
  case (OpAdmitV2 rid cid token now)
  obtain t r where a: "admit req now rid cid token (co_v2_rooms c) = (t, r)" by force
  have "owed q t = owed q (co_v2_rooms c) + of_bool (req = q \<and> r = Ok AdmissionPending)"
    "r = Ok AdmissionPending \<longrightarrow> 0 < owed req t"
    using admit_owed [OF c, of q req now rid cid token] a by simp_all
  with m a show ?thesis
    by (auto simp: OpAdmitV2 authority_match_def open_update open_answers_def [of _ c]
        split: sum.splits failure.splits admission_result.splits)
next
  case (OpRemoveV2 rid cid token)
  obtain t r where a: "v2_remove req rid cid token (co_v2_rooms c) = (t, r)" by force
  have "owed q t \<le> owed q (co_v2_rooms c) + of_bool (req = q \<and> r = Ok RemovalPending)"
    "r = Ok RemovalPending \<longrightarrow> 0 < owed req t"
    using v2_remove_owed [of q req rid cid token "co_v2_rooms c"] a by simp_all
  with m a show ?thesis
    by (auto simp: OpRemoveV2 authority_match_def Let_def open_update open_answers_def [of _ c]
        split: sum.splits failure.splits removal_result.splits option.splits)
qed (use m in \<open>auto simp: authority_match_def Let_def split: prod.splits sum.splits failure.splits\<close>)

lemma handle_authority_open:
  assumes c: "v2_inv (co_v2_rooms c)" and h: "handle_authority js lib command c = (c', res)"
  shows "open_answers q c' \<le> open_answers q c + of_bool (ac_request_id command = q)"
    "res = Ok () \<Longrightarrow> 0 < open_answers (ac_request_id command) c'"
proof -
  let ?req = "ac_request_id command"
  obtain c1 r where m: "authority_match js lib ?req (ac_operation command) c = (c1, r)" by force
  note step = authority_match_open [OF c m]
  have push: "open_answers q (drain_v2_actions js lib (push_response ?req x c1)) = open_answers q c1 + of_bool (?req = q)" for x q
    by (simp add: open_answers_def [of _ "push_response _ _ _"]) (simp add: open_answers_def)
  show "open_answers q c' \<le> open_answers q c + of_bool (?req = q)"
    using h step [of q] push by (auto simp: handle_authority_def m split: sum.splits option.splits)
  show "res = Ok () \<Longrightarrow> 0 < open_answers ?req c'"
    using h step push by (auto simp: handle_authority_def m split: sum.splits option.splits)
qed

definition polled :: "collider_op \<Rightarrow> collider \<Rightarrow> authority_response list" where
  "polled op c = (case op of CoPollEvent \<Rightarrow> (case snd (collider_poll_event c) of None \<Rightarrow> [] | Some r \<Rightarrow> [r]) | _ \<Rightarrow> [])"

definition commands :: "collider_op \<Rightarrow> request_id list" where
  "commands op = (case op of CoWrite command \<Rightarrow> [ac_request_id command] | _ \<Rightarrow> [])"

lemma collider_exec_open:
  assumes c: "collider_inv c"
  shows "answers q (polled op c) + open_answers q (fst (collider_exec js lib op c)) \<le> open_answers q c + count_list (commands op) q"
proof (cases op)
  case (CoRead input)
  then show ?thesis
    by (cases input, simp_all add: collider_handle_read_def handle_browser_text_open disconnect_open polled_def)
      (simp add: open_answers_def)
next
  case (CoWrite command)
  have "v2_inv (co_v2_rooms c)" using c by (simp add: collider_inv_def collider_ok_def)
  then show ?thesis
    using handle_authority_open(1) [of c js lib command _ _ q]
    by (cases "handle_authority js lib command c") (auto simp: CoWrite collider_handle_write_def polled_def commands_def split: if_splits)
next
  case (CoSfu input)
  have "owed q t \<le> owed q (co_v2_rooms c)" if "handle_sfu_input input (co_v2_rooms c) = (t, res)" for t res
    using handle_sfu_input_owed [of q input "co_v2_rooms c"] that by simp
  then show ?thesis
    by (auto simp: CoSfu collider_handle_sfu_input_def polled_def open_update open_answers_def [of _ c]
        split: prod.split sum.split)
next
  case (CoTimeout now)
  have "owed q t \<le> owed q (co_v2_rooms c)" if "v2_handle_timeout now (co_v2_rooms c) = (t, ps)" for t ps
    using v2_handle_timeout_owed [of q now "co_v2_rooms c"] that by simp
  moreover have "open_answers q (fold (push_promotion js lib) ps c) = open_answers q c" for ps and c :: collider
    by (induction ps arbitrary: c) (simp_all add: open_answers_def push_promotion_def)
  ultimately show ?thesis
    by (auto simp: CoTimeout collider_handle_timeout_def polled_def split: prod.split sum.split)
      (auto simp: open_answers_def)
next
  case CoPollEvent
  then show ?thesis
    by (cases "co_authority_responses c") (simp_all add: collider_poll_event_def polled_def open_answers_def)
next
  case CoClose
  then show ?thesis
    by (simp add: collider_close_def Let_def table_close_eq polled_def open_answers_def owed_def v2_clear_def hm_size_def)
qed (simp_all add: polled_def open_answers_def collider_set_downgrade_dwell_def set_downgrade_dwell_def
    collider_poll_write_def owed_def split: list.split)

section \<open>Histories\<close>

text \<open>
  A state with the request ids of all commands given so far and all responses already polled:
  any operations of a driver that keeps its contract, with rehashes in between.
\<close>

inductive history :: "'v json \<Rightarrow> token_lib \<Rightarrow> request_id list \<Rightarrow> authority_response list \<Rightarrow> collider \<Rightarrow> bool" for js lib where
  start: "collider_initial c \<Longrightarrow> history js lib [] [] c"
| exec: "history js lib cmds rs c \<Longrightarrow> driver_ok op c \<Longrightarrow>
    history js lib (cmds @ commands op) (rs @ polled op c) (fst (collider_exec js lib op c))"
| rehash: "history js lib cmds rs c \<Longrightarrow> collider_perm c c' \<Longrightarrow> history js lib cmds rs c'"

lemma history_reachable: "history js lib cmds rs c \<Longrightarrow> reachable collider_initial (collider_step js lib) c"
  by (induction rule: history.induct) (auto intro: reachable_initial reachable_step collider_step.intros)

lemmas history_inv = authority.inv_reachable [OF history_reachable]

text \<open>
  C9. No authority command is answered twice. In every history of the authority the responses
  to a request id, polled or still queued, together with the answers that V2 rooms and queued
  actions still owe under that id, are at most as many as the commands given under it.
\<close>

theorem authority_answers_once:
  assumes "history js lib cmds rs c"
  shows "answers q (rs @ co_authority_responses c) + owed q (co_v2_rooms c) \<le> count_list cmds q"
  using assms
proof (induction rule: history.induct)
  case (start c)
  have "answers q (co_authority_responses (collider_new d)) + owed q (co_v2_rooms (collider_new d)) = 0" for d
    by (simp add: collider_new_def v2_new_def owed_def hm_size_def)
  with start show ?case by (metis append_Nil collider_initial_def order.refl count_list.simps(1))
next
  case (exec cmds rs c op)
  have "answers q (polled op c) + open_answers q (fst (collider_exec js lib op c)) \<le> open_answers q c + count_list (commands op) q"
    by (rule collider_exec_open [OF history_inv [OF exec(1)]])
  with exec.IH show ?case by (simp add: open_answers_def)
next
  case (rehash cmds rs c c')
  have "hm_ok (vt_rooms (co_v2_rooms c))"
    using history_inv [OF rehash(1)] by (simp add: collider_inv_def collider_ok_def v2_inv_def hm_all_def)
  with owed_perm rehash show ?case by (simp add: collider_perm_def)
qed

text \<open>
  C18. No accepted authority command is forgotten by the call that accepts it: when the call
  returns without an error, a response under the command's request id is queued, or a V2 room
  waits for a worker and owes the answer under that id.
\<close>

theorem authority_answer_or_wait:
  assumes "reachable collider_initial (collider_step js lib) c"
    "collider_handle_write js lib command c = (c', Ok ())"
  shows "(\<exists>r \<in> set (co_authority_responses c'). ar_request_id r = ac_request_id command) \<or>
    (\<exists>rid r. map_of (vt_rooms (co_v2_rooms c')) rid = Some r \<and> 0 < room_owes (ac_request_id command) r)"
proof -
  have "v2_inv (co_v2_rooms c)" using authority.inv_reachable [OF assms(1)] by (simp add: collider_inv_def collider_ok_def)
  then have pos: "0 < open_answers (ac_request_id command) c'"
    using handle_authority_open(2) [OF _ _ refl] assms(2) by (simp add: collider_handle_write_def)
  have "vt_actions (co_v2_rooms c') = []"
    using assms(2) by (auto simp: collider_handle_write_def handle_authority_def authority_match_pending
        split: prod.splits sum.splits option.splits)
  then consider "0 < answers (ac_request_id command) (co_authority_responses c')"
    | "0 < hm_size (room_owes (ac_request_id command)) (vt_rooms (co_v2_rooms c'))"
    using pos by (auto simp: open_answers_def owed_def)
  then show ?thesis
  proof cases
    case 1
    then show ?thesis by (auto simp: answers_def filter_empty_conv)
  next
    case 2
    have "hm_ok (vt_rooms (co_v2_rooms c'))"
    proof -
      have "collider_inv c'"
        using collider_exec_inv [OF authority.inv_reachable [OF assms(1)], of "CoWrite command" js lib] assms(2) by simp
      then show ?thesis by (simp add: collider_inv_def collider_ok_def v2_inv_def hm_all_def)
    qed
    with hm_size_pos [OF 2] show ?thesis by (metis map_of_is_SomeI)
  qed
qed

section \<open>Applied\<close>

text \<open>A worker, two members of a V2 room and a third admission that has to wait for the worker.\<close>

definition admit_command :: "request_id \<Rightarrow> member_id \<Rightarrow> authority_command" where
  "admit_command req cid = \<lparr>ac_request_id = req, ac_operation = OpAdmitV2 sample_rid cid ''tok'' 6\<rparr>"

definition full_pair :: collider where
  "full_pair = collider_run v1_js rfc_lib
     [CoSfu (InputRegister 9 ''w1'' 1 sample_cap),
      CoSfu (InputEvent 9 ''w1'' \<lparr>ev_request_id = 1, ev_event = EventHealth sample_health\<rparr>),
      CoWrite (admit_command 1 20), CoWrite (admit_command 2 10)] (collider_new 10)"

definition waiting :: "collider \<times> unit result" where
  "waiting = collider_handle_write v1_js rfc_lib (admit_command 3 15) full_pair"

lemma waiting_eval:
  "snd waiting = Ok () \<and> map ar_request_id (co_authority_responses (fst waiting)) = [1, 2] \<and>
   map (\<lambda>(rid, r). (rid, room_owes 3 r)) (vt_rooms (co_v2_rooms (fst waiting))) = [(sample_rid, 1)]"
  by code_simp

theorem authority_answers_once_witness:
  "answers 3 (co_authority_responses (fst waiting)) + owed 3 (co_v2_rooms (fst waiting)) \<le> 1"
proof -
  have "history v1_js rfc_lib [] [] (collider_new 10)"
    by (rule history.start) (simp add: collider_initial_def collider_new_def table_new_def)
  from history.exec [OF history.exec [OF history.exec [OF history.exec [OF history.exec [OF this]]]],
    of "CoSfu (InputRegister 9 ''w1'' 1 sample_cap)"
       "CoSfu (InputEvent 9 ''w1'' \<lparr>ev_request_id = 1, ev_event = EventHealth sample_health\<rparr>)"
       "CoWrite (admit_command 1 20)" "CoWrite (admit_command 2 10)" "CoWrite (admit_command 3 15)"]
  have "history v1_js rfc_lib [1, 2, 3] [] (fst waiting)"
    by (simp add: waiting_def full_pair_def commands_def polled_def admit_command_def)
  from authority_answers_once [OF this, of 3] show ?thesis by simp
qed

theorem authority_answer_or_wait_witness:
  "\<exists>r. map_of (vt_rooms (co_v2_rooms (fst waiting))) sample_rid = Some r \<and> 0 < room_owes 3 r"
proof -
  have r: "reachable collider_initial (collider_step v1_js rfc_lib) full_pair"
    unfolding full_pair_def by (rule collider_run_reachable [OF collider_new_reachable]) simp
  have "collider_handle_write v1_js rfc_lib (admit_command 3 15) full_pair = (fst waiting, Ok ())"
    using waiting_eval unfolding waiting_def by (metis prod.collapse)
  from authority_answer_or_wait [OF r this] waiting_eval show ?thesis
    by (auto simp: admit_command_def)
qed

end
