(* ===== verification/Test_Kit.thy ===== *)
theory Test_Kit
  imports Prelude "HOL-Library.Monad_Syntax"
begin

text \<open>
  What the unit tests of the crate are written in: a test is a \<open>do\<close> block in the option monad
  that threads the state under test, and \<open>None\<close> is a panic of the test (a failed assertion, an
  \<^verbatim>\<open>unwrap\<close> of an error or of nothing).
\<close>

type_synonym test = "unit option"

definition assert :: "bool \<Rightarrow> test" where
  "assert b = (if b then Some () else None)"

definition passes :: "test \<Rightarrow> bool" where
  "passes t \<longleftrightarrow> t = Some ()"

text \<open>\<^verbatim>\<open>operation(..).unwrap()\<close> on the state: the new state and the value.\<close>

definition unwrap :: "'s \<times> 'a result \<Rightarrow> ('s \<times> 'a) option" where
  "unwrap x = (case x of (s, Inr v) \<Rightarrow> Some (s, v) | (s, Inl e) \<Rightarrow> None)"

text \<open>The same where the value is \<^verbatim>\<open>()\<close> or not looked at.\<close>

definition unwrapped :: "'s \<times> 'a result \<Rightarrow> 's option" where
  "unwrapped x = (case x of (s, Inr v) \<Rightarrow> Some s | (s, Inl e) \<Rightarrow> None)"

text \<open>A \<^verbatim>\<open>for\<close> loop over a list, on the state under test.\<close>

fun for_each :: "'a list \<Rightarrow> ('a \<Rightarrow> 's \<Rightarrow> 's option) \<Rightarrow> 's \<Rightarrow> 's option" where
  "for_each [] f s = Some s"
| "for_each (x # xs) f s = do { s \<leftarrow> f x s; for_each xs f s }"

text \<open>\<^verbatim>\<open>Duration::from_secs\<close>\<close>

definition from_secs :: "nat \<Rightarrow> duration" where
  "from_secs s = 1000 * s"

text \<open>Evaluation of a \<open>do\<close> block goes on with the rest only once the step before has a value.\<close>

lemma bind_case [code_unfold]: "Option.bind m f = (case m of None \<Rightarrow> None | Some x \<Rightarrow> f x)"
  by (cases m) simp_all

lemma assert_True [simp]: "assert True = Some ()"
  by (simp add: assert_def)

end
