(* ===== verification/Room_Tests.thy ===== *)
theory Room_Tests
  imports Test_Kit Room_Table "HOL-Library.Code_Target_Nat"
begin

text \<open>
  The unit tests of \<^verbatim>\<open>src/room.rs\<close> and \<^verbatim>\<open>src/room_table.rs\<close>, transcribed statement by
  statement and passed by the model. \<open>now\<close> is the instant the test reads from the clock; naturals are
  computed in binary.
\<close>

section \<open>Tests of a room\<close>

definition test_new_room :: "string \<Rightarrow> room" where
  "test_new_room rid = room_new rid (from_secs 1)"

definition assert_message :: "message option \<Rightarrow> room_id \<Rightarrow> client_id \<Rightarrow> string \<Rightarrow> test" where
  "assert_message actual rid cid msg = do {
     m \<leftarrow> actual;
     assert (msg_roomid m = rid);
     assert (msg_clientid m = cid);
     assert (msg_msg m = msg)
   }"

definition new_room_is_empty :: "test" where
  "new_room_is_empty = do {
     let r = test_new_room ''abc'';
     assert (rm_id r = ''abc'');
     assert (room_occupancy r = 0)
   }"

definition get_or_create_client :: "instant \<Rightarrow> test" where
  "get_or_create_client now = do {
     let r = test_new_room ''ab'';
     r \<leftarrow> unwrapped (room_client now ''1'' r);
     let r = room_set_initiator ''1'' True r;
     r \<leftarrow> unwrapped (room_client now ''1'' r);
     assert (room_client_is_initiator ''1'' r);
     assert (room_occupancy r = 1);
     r \<leftarrow> unwrapped (room_client now ''2'' r);
     assert (room_occupancy r = 2);
     assert (\<not> is_ok (snd (room_client now ''3'' r)))
   }"

definition register_delivers_queued_message :: "instant \<Rightarrow> test" where
  "register_delivers_queued_message now = do {
     let r = test_new_room ''a'';
     r \<leftarrow> unwrapped (room_client now ''1'' r);
     c \<leftarrow> map_of (rm_clients r) ''1'';
     c \<leftarrow> unwrapped (client_enqueue ''hello'' c);
     r \<leftarrow> unwrapped (room_register now ''2'' (room_put ''1'' c r));
     assert (room_occupancy r = 2);
     r \<leftarrow> unwrapped (room_client now ''2'' r);
     c \<leftarrow> map_of (rm_clients r) ''2'';
     assert (cl_registered c);
     assert_message (snd (room_poll_write r)) ''a'' ''2'' ''hello''
   }"

definition send_queues_when_alone :: "instant \<Rightarrow> test" where
  "send_queues_when_alone now = do {
     let r = test_new_room ''a'';
     r \<leftarrow> unwrapped (room_send now ''1'' ''hi'' r);
     let (r, written) = room_poll_write r;
     assert (written = None);
     r \<leftarrow> unwrapped (room_client now ''1'' r);
     c \<leftarrow> map_of (rm_clients r) ''1'';
     assert (snd (client_drain_msgs c) = [''hi''])
   }"

definition send_delivers_when_paired :: "instant \<Rightarrow> test" where
  "send_delivers_when_paired now = do {
     let r = test_new_room ''a'';
     r \<leftarrow> unwrapped (room_register now ''2'' r);
     r \<leftarrow> unwrapped (room_send now ''1'' ''hi'' r);
     r \<leftarrow> unwrapped (room_client now ''1'' r);
     c \<leftarrow> map_of (rm_clients r) ''1'';
     let (c, drained) = client_drain_msgs c;
     assert (drained = []);
     assert_message (snd (room_poll_write (room_put ''1'' c r))) ''a'' ''2'' ''hi''
   }"

definition remove_deletes_client :: "instant \<Rightarrow> test" where
  "remove_deletes_client now = do {
     let r = test_new_room ''a'';
     r \<leftarrow> unwrapped (room_register now ''1'' r);
     assert (room_empty (room_remove ''1'' r))
   }"

lemma room_tests_pass:
  "passes new_room_is_empty" "passes (get_or_create_client now)"
  "passes (register_delivers_queued_message now)" "passes (send_queues_when_alone 5)"
  "passes (send_delivers_when_paired now)" "passes (remove_deletes_client 5)"
  by code_simp+

section \<open>Tests of the table\<close>

definition test_table :: room_table where
  "test_table = table_new (from_secs 10)"

definition test_message :: "room_id \<Rightarrow> client_id \<Rightarrow> string \<Rightarrow> message" where
  "test_message rid cid msg = \<lparr>msg_roomid = rid, msg_clientid = cid, msg_msg = msg\<rparr>"

definition room_gets_or_creates :: "test" where
  "room_gets_or_creates = do {
     let t = table_room ''room'' test_table;
     r \<leftarrow> map_of (rt_rooms t) ''room'';
     assert (rm_id r = ''room'');
     assert (table_room_count t = 1);
     let t = table_room ''room'' t;
     r \<leftarrow> map_of (rt_rooms t) ''room'';
     assert (rm_id r = ''room'');
     assert (table_room_count t = 1)
   }"

definition remove_reaps_an_empty_room_and_promotes_a_survivor :: "instant \<Rightarrow> test" where
  "remove_reaps_an_empty_room_and_promotes_a_survivor now = do {
     (t, first, _) \<leftarrow> unwrap (table_join now ''room'' ''1'' False test_table);
     assert first;
     (t, second, _) \<leftarrow> unwrap (table_join now ''room'' ''2'' False t);
     assert (\<not> second);
     let t = table_remove ''room'' ''1'' t;
     assert (table_occupancy ''room'' t = 1);
     let t = table_room ''room'' t;
     r \<leftarrow> map_of (rt_rooms t) ''room'';
     assert (room_client_is_initiator ''2'' r);
     let t = table_remove ''room'' ''2'' t;
     assert (table_occupancy ''room'' t = 0);
     assert (table_room_count t = 0)
   }"

definition send_and_save_or_send_create_rooms_and_queue_messages :: "instant \<Rightarrow> test" where
  "send_and_save_or_send_create_rooms_and_queue_messages now = do {
     t \<leftarrow> unwrapped (table_send now ''room'' ''1'' ''offer'' test_table);
     t \<leftarrow> unwrapped (table_save_or_send now ''room'' ''1'' ''candidate'' t);
     (t, _, messages) \<leftarrow> unwrap (table_join now ''room'' ''new-client'' False t);
     assert (messages = [''offer'', ''candidate''])
   }"

definition join_leave_and_occupancy_match_room_server_operations :: "instant \<Rightarrow> test" where
  "join_leave_and_occupancy_match_room_server_operations now = do {
     (t, initiator, messages) \<leftarrow> unwrap (table_join now ''room'' ''1'' False test_table);
     assert initiator;
     assert (messages = []);
     assert (table_occupancy ''room'' t = 1);
     (t, second, _) \<leftarrow> unwrap (table_join now ''room'' ''2'' False t);
     assert (\<not> second);
     assert (table_occupancy ''room'' t = 2);
     let t = table_leave ''room'' ''1'' t;
     let t = table_leave ''room'' ''2'' t;
     assert (table_occupancy ''room'' t = 0)
   }"

definition register_deregister_and_remove_if_unregistered :: "instant \<Rightarrow> test" where
  "register_deregister_and_remove_if_unregistered now = do {
     t \<leftarrow> unwrapped (table_register now ''room'' ''1'' test_table);
     assert (table_ws_count t = 1);
     let t = table_deregister now ''room'' ''1'' t;
     assert (table_ws_count t = 0);
     assert (table_occupancy ''room'' t = 1);
     assert (table_room_count (table_remove_if_unregistered ''room'' ''1'' t) = 0)
   }"

definition remove_if_unregistered_preserves_registered_client :: "instant \<Rightarrow> test" where
  "remove_if_unregistered_preserves_registered_client now = do {
     t \<leftarrow> unwrapped (table_register now ''room'' ''1'' test_table);
     let t = table_remove_if_unregistered ''room'' ''1'' t;
     assert (table_occupancy ''room'' t = 1);
     assert (table_ws_count t = 1)
   }"

definition protocol_read_plane_preserves_room_and_client_address :: "instant \<Rightarrow> test" where
  "protocol_read_plane_preserves_room_and_client_address now = do {
     t \<leftarrow> unwrapped (table_join now ''room'' ''1'' False test_table);
     t \<leftarrow> unwrapped (table_handle_read (test_message ''room'' ''1'' ''offer'') t);
     let (t, first) = table_poll_read t;
     assert_message first ''room'' ''1'' ''offer'';
     assert (snd (table_poll_read t) = None)
   }"

definition protocol_write_plane_preserves_room_and_client_address :: "instant \<Rightarrow> test" where
  "protocol_write_plane_preserves_room_and_client_address now = do {
     t \<leftarrow> unwrapped (table_register now ''room'' ''1'' test_table);
     t \<leftarrow> unwrapped (table_handle_write (test_message ''room'' ''1'' ''answer'') t);
     let (t, first) = table_poll_write t;
     assert_message first ''room'' ''1'' ''answer'';
     assert (snd (table_poll_write t) = None)
   }"

definition protocol_drops_messages_for_unknown_rooms :: "test" where
  "protocol_drops_messages_for_unknown_rooms = do {
     t \<leftarrow> unwrapped (table_handle_read (test_message ''room'' ''1'' ''read'') test_table);
     t \<leftarrow> unwrapped (table_handle_write (test_message ''room'' ''1'' ''write'') t);
     assert (table_room_count t = 0);
     let (t, read) = table_poll_read t;
     assert (read = None);
     assert (snd (table_poll_write t) = None)
   }"

definition protocol_timeout_reaps_expired_clients_and_empty_rooms :: "instant \<Rightarrow> test" where
  "protocol_timeout_reaps_expired_clients_and_empty_rooms now = do {
     t \<leftarrow> unwrapped (table_join now ''room'' ''1'' False test_table);
     assert (table_poll_timeout t = Some (now + from_secs 10));
     t \<leftarrow> unwrapped (table_handle_timeout (now + from_secs 10) t);
     assert (table_room_count t = 0);
     assert (table_poll_timeout t = None)
   }"

definition protocol_timeout_uses_the_earliest_room_deadline :: "instant \<Rightarrow> test" where
  "protocol_timeout_uses_the_earliest_room_deadline now = do {
     t \<leftarrow> unwrapped (table_join now ''room-1'' ''client'' False test_table);
     t \<leftarrow> unwrapped (table_join (now + from_secs 2) ''room-2'' ''client'' False t);
     assert (table_poll_timeout t = Some (now + from_secs 10))
   }"

definition protocol_close_clears_all_rooms :: "instant \<Rightarrow> test" where
  "protocol_close_clears_all_rooms now = do {
     t \<leftarrow> unwrapped (table_register now ''room'' ''1'' test_table);
     t \<leftarrow> unwrapped (table_close t);
     assert (table_room_count t = 0);
     assert (table_ws_count t = 0)
   }"

lemma table_tests_pass:
  "passes room_gets_or_creates" "passes (remove_reaps_an_empty_room_and_promotes_a_survivor now)"
  "passes (send_and_save_or_send_create_rooms_and_queue_messages now)"
  "passes (join_leave_and_occupancy_match_room_server_operations now)"
  "passes (register_deregister_and_remove_if_unregistered now)"
  "passes (remove_if_unregistered_preserves_registered_client now)"
  "passes (protocol_read_plane_preserves_room_and_client_address now)"
  "passes (protocol_write_plane_preserves_room_and_client_address now)"
  "passes protocol_drops_messages_for_unknown_rooms"
  "passes (protocol_timeout_reaps_expired_clients_and_empty_rooms 5)"
  "passes (protocol_timeout_uses_the_earliest_room_deadline 5)" "passes (protocol_close_clears_all_rooms now)"
  by code_simp+

end
