(* ===== verification/Token_Tests.thy ===== *)
theory Token_Tests
  imports Test_Kit V2_Token
begin

text \<open>
  The unit tests of the room tokens (\<^verbatim>\<open>src/v2.rs\<close>) on the reference codec, and the rooms the
  other tests of V2 use. Random ids are arguments.
\<close>

section \<open>Rooms for tests\<close>

text \<open>\<^verbatim>\<open>u128::to_be_bytes\<close>\<close>

definition to_be_bytes :: "128 word \<Rightarrow> u8 list" where
  "to_be_bytes seed = map (\<lambda>i. ucast (drop_bit (8 * (15 - i)) seed)) [0..<16]"

definition test_room :: "128 word \<Rightarrow> uuid" where
  "test_room seed = tl_new_v8 rfc_lib (to_be_bytes seed)"

definition room_42 :: uuid where "room_42 = test_room 42"
definition room_7 :: uuid where "room_7 = test_room 7"
definition room_9 :: uuid where "room_9 = test_room 9"
definition room_5 :: uuid where "room_5 = test_room 5"

lemma test_rooms [code]:
  "room_42 = [0, 0, 0, 0, 0, 0, 0x80, 0, 0x80, 0, 0, 0, 0, 0, 0, 42]"
  "room_7 = [0, 0, 0, 0, 0, 0, 0x80, 0, 0x80, 0, 0, 0, 0, 0, 0, 7]"
  "room_9 = [0, 0, 0, 0, 0, 0, 0x80, 0, 0x80, 0, 0, 0, 0, 0, 0, 9]"
  "room_5 = [0, 0, 0, 0, 0, 0, 0x80, 0, 0x80, 0, 0, 0, 0, 0, 0, 5]"
  by code_simp+

text \<open>Their tokens.\<close>

lemma test_tokens:
  "format_room_token rfc_lib room_42 = ''AAAAAAAAgACAAAAAAAAAKg''"
  "format_room_token rfc_lib room_9 = ''AAAAAAAAgACAAAAAAAAACQ''"
  "format_room_token rfc_lib room_5 = ''AAAAAAAAgACAAAAAAAAABQ''"
  by code_simp+

section \<open>The tests\<close>

definition room_tokens_round_trip_and_are_22_characters :: "u8 list \<Rightarrow> test" where
  "room_tokens_round_trip_and_are_22_characters random = do {
     for_each [0, 1, 42, - 1] (\<lambda>seed _. do {
       let id = test_room seed;
       let token = format_room_token rfc_lib id;
       assert (length token = ROOM_TOKEN_LEN);
       assert (parse_room_token rfc_lib token = Some id)
     }) ();
     let minted = new_room_id rfc_lib random;
     assert (is_room_uuid rfc_lib minted);
     assert (parse_room_token rfc_lib (format_room_token rfc_lib minted) = Some minted)
   }"

text \<open>\<^verbatim>\<open>str::find\<close> of a character, and \<^verbatim>\<open>str::to_lowercase\<close> on ASCII.\<close>

definition find_char :: "char \<Rightarrow> string \<Rightarrow> nat option" where
  "find_char c s = (if c \<in> set s then Some (length (takeWhile (\<lambda>d. d \<noteq> c) s)) else None)"

definition ascii_lower :: "char \<Rightarrow> char" where
  "ascii_lower c = (let n = of_char c :: nat in if 65 \<le> n \<and> n \<le> 90 then char_of (n + 32) else c)"

definition room_token_parsing_rejects_every_non_canonical_spelling :: "uuid \<Rightarrow> test" where
  "room_token_parsing_rejects_every_non_canonical_spelling v4 = do {
     let id = room_42;
     let token = format_room_token rfc_lib id;
     let letters = ''ABCDEFGHIJKLMNOPQRSTUVWXYZabcdefghijklmnopqrstuvwxyz0123456789-_'';
     last \<leftarrow> find_char (last token) letters;
     for_each [1..<16] (\<lambda>bump _. do {
       let twin = take (ROOM_TOKEN_LEN - 1) token @ take 1 (drop (last + bump) letters);
       assert (twin \<noteq> token);
       assert (parse_room_token rfc_lib twin = None)
     }) ();
     for_each
       ['''', ''short'', take (ROOM_TOKEN_LEN - 1) token, token @ ''A'',
        take (ROOM_TOKEN_LEN - 1) token @ ''='', map ascii_lower token,
        [CHR 0xD0, CHR 0xBD, CHR 0xD0, CHR 0xB5] @ ''-ascii-'' @ [CHR 0xD1, CHR 0x82, CHR 0xD0, CHR 0xBE,
          CHR 0xD0, CHR 0xBA, CHR 0xD0, CHR 0xB5, CHR 0xD0, CHR 0xBD] @ ''-2222222'']
       (\<lambda>invalid _. assert (parse_room_token rfc_lib invalid = None)) ();
     assert (\<not> is_room_uuid rfc_lib v4);
     assert (parse_room_token rfc_lib (base64url_encode v4) = None)
   }"

lemma room_tokens_seeds:
  "list_all (\<lambda>seed. parse_room_token rfc_lib (format_room_token rfc_lib (test_room seed)) = Some (test_room seed) \<and>
     length (format_room_token rfc_lib (test_room seed)) = ROOM_TOKEN_LEN) [0, 1, 42, - 1]"
  by code_simp

lemma room_tokens_letter:
  "find_char (last ''AAAAAAAAgACAAAAAAAAAKg'') ''ABCDEFGHIJKLMNOPQRSTUVWXYZabcdefghijklmnopqrstuvwxyz0123456789-_'' = Some 32"
  by code_simp

lemma room_tokens_twins:
  "for_each [1..<16] (\<lambda>bump _. do {
       let twin = take (ROOM_TOKEN_LEN - 1) ''AAAAAAAAgACAAAAAAAAAKg'' @ take 1 (drop (32 + bump)
         ''ABCDEFGHIJKLMNOPQRSTUVWXYZabcdefghijklmnopqrstuvwxyz0123456789-_'');
       assert (twin \<noteq> ''AAAAAAAAgACAAAAAAAAAKg'');
       assert (parse_room_token rfc_lib twin = None)
     }) () = Some ()"
  by code_simp

lemma room_tokens_invalid:
  "for_each
       ['''', ''short'', take (ROOM_TOKEN_LEN - 1) ''AAAAAAAAgACAAAAAAAAAKg'', ''AAAAAAAAgACAAAAAAAAAKg'' @ ''A'',
        take (ROOM_TOKEN_LEN - 1) ''AAAAAAAAgACAAAAAAAAAKg'' @ ''='', map ascii_lower ''AAAAAAAAgACAAAAAAAAAKg'',
        [CHR 0xD0, CHR 0xBD, CHR 0xD0, CHR 0xB5] @ ''-ascii-'' @ [CHR 0xD1, CHR 0x82, CHR 0xD0, CHR 0xBE,
          CHR 0xD0, CHR 0xBA, CHR 0xD0, CHR 0xB5, CHR 0xD0, CHR 0xBD] @ ''-2222222'']
       (\<lambda>invalid _. assert (parse_room_token rfc_lib invalid = None)) () = Some ()"
  by code_simp

text \<open>Every minted id passes the first test, every id of version 4 the second.\<close>

lemma token_tests_pass:
  "length random = 16 \<Longrightarrow> passes (room_tokens_round_trip_and_are_22_characters random)"
  "length v4 = 16 \<Longrightarrow> tl_version rfc_lib v4 = 4 \<Longrightarrow>
     passes (room_token_parsing_rejects_every_non_canonical_spelling v4)"
proof -
  show "passes (room_tokens_round_trip_and_are_22_characters random)" if "length random = 16"
    using room_tokens_seeds rfc.new_room_id_valid [OF that]
    by (simp add: room_tokens_round_trip_and_are_22_characters_def passes_def Let_def rfc.parse_format)
  assume v4: "length v4 = 16" "tl_version rfc_lib v4 = 4"
  then have "\<not> is_room_uuid rfc_lib v4" by (simp add: is_room_uuid_def)
  moreover from this have "parse_room_token rfc_lib (base64url_encode v4) = None"
    using rfc.parse_format [OF v4(1)] by (simp add: format_room_token_def rfc_lib_def)
  ultimately show "passes (room_token_parsing_rejects_every_non_canonical_spelling v4)"
    unfolding room_token_parsing_rejects_every_non_canonical_spelling_def passes_def Let_def test_tokens(1)
      room_tokens_letter room_tokens_twins [unfolded Let_def] room_tokens_invalid Option.bind_lunit
    by simp
qed

end
