(* ===== verification/V2_Tests.thy ===== *)
theory V2_Tests
  imports Token_Tests V2_System Decimal "HOL-Library.Code_Target_Nat"
begin

text \<open>
  The unit tests of the V2 authority (\<^verbatim>\<open>src/v2.rs\<close>), transcribed statement by statement and
  passed by the model. Naturals are computed in binary.
\<close>

text \<open>Small numbers are words as they stand.\<close>

lemma take_bit_small [code]:
  "take_bit n k = (if 0 \<le> k \<and> k < 256 \<and> 8 \<le> n then k else k mod 2 ^ n)" for k :: int
proof (cases "0 \<le> k \<and> k < 256 \<and> 8 \<le> n")
  case True
  have "(2::int) ^ 8 \<le> 2 ^ n" using True by (intro power_increasing) simp_all
  then have "k < 2 ^ n" using True by simp
  with True show ?thesis by (simp add: take_bit_eq_mod)
next
  case False
  then show ?thesis by (simp only: if_False take_bit_eq_mod)
qed

section \<open>Helpers of the tests\<close>

text \<open>\<^verbatim>\<open>rooms.poll_action().unwrap()\<close>\<close>

definition polled :: "v2_table \<Rightarrow> (v2_table \<times> action) option" where
  "polled t = (case v2_poll_action t of (t', None) \<Rightarrow> None | (t', Some a) \<Rightarrow> Some (t', a))"

text \<open>\<^verbatim>\<open>while rooms.poll_action().is_some() {}\<close> leaves no action.\<close>

definition polled_out :: "v2_table \<Rightarrow> v2_table" where
  "polled_out t = fst (drain v2_poll_action (length (vt_actions t)) t)"

text \<open>The matches on actions and commands that panic on anything else.\<close>

definition command_in :: "action \<Rightarrow> sfu_command option" where
  "command_in a = (case a of ActionSfu (OutputCommand conn command) \<Rightarrow> Some command | _ \<Rightarrow> None)"

definition join_in :: "sfu_command \<Rightarrow> join_member option" where
  "join_in c = (case cm_command c of Join j \<Rightarrow> Some j | _ \<Rightarrow> None)"

definition leave_in :: "sfu_command \<Rightarrow> leave_member option" where
  "leave_in c = (case cm_command c of Leave l \<Rightarrow> Some l | _ \<Rightarrow> None)"

definition sync_in :: "sfu_command \<Rightarrow> sync_room option" where
  "sync_in c = (case cm_command c of SyncRoom s \<Rightarrow> Some s | _ \<Rightarrow> None)"

definition complete_in :: "admission_result \<Rightarrow> admission option" where
  "complete_in r = (case r of AdmissionComplete a \<Rightarrow> Some a | AdmissionPending \<Rightarrow> None)"

definition token_for :: "member_id \<Rightarrow> string" where
  "token_for client = ''token-'' @ u64_to_string client"

definition worker_1 :: instance_id where
  "worker_1 = ''worker-1''"

definition test_capacity :: capacity where
  "test_capacity = \<lparr>max_rooms = 10, max_clients = 100\<rparr>"

text \<open>The answer of the worker to a command, as every test sends it.\<close>

definition answer :: "connection_id \<Rightarrow> request_id \<Rightarrow> command_ok \<Rightarrow> instant \<Rightarrow> v2_table \<Rightarrow> v2_table option" where
  "answer conn req ok now t = unwrapped (handle_sfu_input
     (InputCommandResult conn worker_1 \<lparr>cr_request_id = req, cr_result = Inr ok\<rparr> now) t)"

definition register_ready_worker :: "v2_table \<Rightarrow> v2_table option" where
  "register_ready_worker t = do {
     t \<leftarrow> unwrapped (handle_sfu_input (InputRegister 9 worker_1 1 test_capacity) t);
     (t, a) \<leftarrow> polled t;
     assert (case a of ActionSfu (OutputRegistered _ _ _ _) \<Rightarrow> True | _ \<Rightarrow> False);
     t \<leftarrow> unwrapped (handle_sfu_input (InputEvent 9 worker_1 \<lparr>ev_request_id = 2,
            ev_event = EventHealth \<lparr>he_state = Ready, he_capacity = test_capacity, he_current_rooms = 0,
              he_current_clients = 0\<rparr>\<rparr>) t);
     (t, a) \<leftarrow> polled t;
     assert (case a of ActionSfu (OutputEventAck _ _) \<Rightarrow> True | _ \<Rightarrow> False);
     Some t
   }"

text \<open>One round of the loops that acknowledge the joins of an upgrade.\<close>

definition acknowledge_join :: "instant \<Rightarrow> v2_table \<Rightarrow> (v2_table \<times> join_member) option" where
  "acknowledge_join now t = do {
     (t, a) \<leftarrow> polled t;
     command \<leftarrow> command_in a;
     join \<leftarrow> join_in command;
     t \<leftarrow> answer 9 (cm_request_id command) (MemberJoined join) now t;
     Some (t, join)
   }"

section \<open>The tests\<close>

definition admission_registration_relay_and_promotion :: "instant \<Rightarrow> test" where
  "admission_registration_relay_and_promotion now = do {
     let t = v2_new (from_secs 10);
     (t, res) \<leftarrow> unwrap (admit 1 now room_42 101 ''token-1'' t);
     first \<leftarrow> complete_in res;
     (t, res) \<leftarrow> unwrap (admit 2 now room_42 102 ''token-2'' t);
     second \<leftarrow> complete_in res;
     assert (ad_is_initiator first = Some True);
     assert (ad_is_initiator second = Some False);
     let (t, res) = admit 3 now room_42 103 ''token-3'' t;
     assert (res = Err ''NO_SFU_AVAILABLE'');
     t \<leftarrow> unwrapped (v2_register room_42 101 (ad_admission_token first) t);
     t \<leftarrow> unwrapped (v2_register room_42 102 (ad_admission_token second) t);
     (t, sent) \<leftarrow> unwrap (v2_send room_42 101 0 ''candidate'' t);
     assert (case sent of SendP2p (Some d) \<Rightarrow> de_client_id d = 102 | _ \<Rightarrow> False);
     (t, removed) \<leftarrow> unwrap (v2_remove 3 room_42 102 (ad_admission_token second) t);
     promotion \<leftarrow> (case removed of RemovalComplete p \<Rightarrow> p | RemovalPending \<Rightarrow> None);
     assert (pr_client_id promotion = 101)
   }"

definition idle_single_member_room_is_not_promoted_by_an_unrelated_timeout :: "instant \<Rightarrow> test" where
  "idle_single_member_room_is_not_promoted_by_an_unrelated_timeout now = do {
     let t = v2_new (from_secs 10);
     (t, res) \<leftarrow> unwrap (admit 1 now room_7 701 ''token-701'' t);
     leaving \<leftarrow> complete_in res;
     (t, res) \<leftarrow> unwrap (admit 2 now room_7 702 ''token-702'' t);
     staying \<leftarrow> complete_in res;
     t \<leftarrow> unwrapped (v2_register room_7 701 (ad_admission_token leaving) t);
     t \<leftarrow> unwrapped (v2_register room_7 702 (ad_admission_token staying) t);
     let t = v2_deregister now room_7 701 t;
     (t, res) \<leftarrow> unwrap (admit 3 now room_42 101 ''token-101'' t);
     alone \<leftarrow> complete_in res;
     t \<leftarrow> unwrapped (v2_register room_42 101 (ad_admission_token alone) t);
     let (t, promotions) = v2_handle_timeout (now + from_secs 11) t;
     assert (length promotions = 1);
     assert (pr_room_id (hd promotions) = room_7);
     assert (pr_client_id (hd promotions) = 702);
     assert (snd (v2_handle_timeout (now + from_secs 30) t) = [])
   }"

text \<open>The last part of the next test.\<close>

definition a_signal_survives_the_worker_reconnecting :: "instant \<Rightarrow> v2_table \<Rightarrow> test" where
  "a_signal_survives_the_worker_reconnecting now t = do {
     let (t, sent) = v2_send room_42 101 1 ''{\"type\":\"candidate\"}'' t;
     assert (sent = Ok SendSfu);
     (t, a) \<leftarrow> polled t;
     pending_signal \<leftarrow> command_in a;
     t \<leftarrow> unwrapped (handle_sfu_input (InputDisconnected 9 worker_1 now) t);
     t \<leftarrow> unwrapped (handle_sfu_input (InputRegister 10 worker_1 50 test_capacity) t);
     (t, a) \<leftarrow> polled t;
     assert (case a of ActionSfu (OutputRegistered _ _ _ resumed) \<Rightarrow> resumed | _ \<Rightarrow> False);
     (t, a) \<leftarrow> polled t;
     sync \<leftarrow> command_in a;
     sync_room \<leftarrow> sync_in sync;
     let (t, a) = v2_poll_action t;
     assert (a = None);
     t \<leftarrow> answer 10 (cm_request_id sync) (RoomSynced \<lparr>rs_room_id = sy_room_id sync_room,
            rs_assignment_epoch = sy_assignment_epoch sync_room\<rparr>) now t;
     (t, a) \<leftarrow> polled t;
     assert (a = ActionSfu (OutputCommand 10 pending_signal));
     assert (v2_occupancy room_42 t = (3, Sfu))
   }"

definition third_join_commits_only_after_all_worker_join_results :: "instant \<Rightarrow> test" where
  "third_join_commits_only_after_all_worker_join_results now = do {
     t \<leftarrow> register_ready_worker (v2_new (from_secs 10));
     t \<leftarrow> for_each [(10, 101), (11, 102)] (\<lambda>(request, client) t. do {
       (t, res) \<leftarrow> unwrap (admit request now room_42 client (token_for client) t);
       complete_in res;
       Some t
     }) t;
     (t, res) \<leftarrow> unwrap (admit 12 now room_42 103 ''token-103'' t);
     assert (res = AdmissionPending);
     t \<leftarrow> for_each [101, 102, 103] (\<lambda>expected_client t. do {
       (t, join) \<leftarrow> acknowledge_join now t;
       assert (jm_client_id join = expected_client);
       Some t
     }) t;
     (t, a) \<leftarrow> polled t;
     assert (case a of Upgraded _ signal_epoch _ \<Rightarrow> signal_epoch = 1 | _ \<Rightarrow> False);
     (t, a) \<leftarrow> polled t;
     assert (case a of AdmissionCompleted areq (Inr ad) \<Rightarrow>
               areq = 12 \<and> ad_mode ad = Sfu \<and> ad_is_initiator ad = None | _ \<Rightarrow> False);
     assert (v2_occupancy room_42 t = (3, Sfu));
     (t, res) \<leftarrow> unwrap (admit 13 now room_42 104 ''token-104'' t);
     assert (res = AdmissionPending);
     (t, a) \<leftarrow> polled t;
     command \<leftarrow> command_in a;
     join \<leftarrow> join_in command;
     t \<leftarrow> answer 9 (cm_request_id command) (MemberJoined join) now t;
     (t, a) \<leftarrow> polled t;
     assert (case a of AdmissionCompleted areq (Inr ad) \<Rightarrow> areq = 13 \<and> ad_mode ad = Sfu | _ \<Rightarrow> False);
     assert (v2_occupancy room_42 t = (4, Sfu));
     (t, removal) \<leftarrow> unwrap (v2_remove 14 room_42 104 ''token-104'' t);
     assert (removal = RemovalPending);
     (t, a) \<leftarrow> polled t;
     command \<leftarrow> command_in a;
     leave \<leftarrow> leave_in command;
     t \<leftarrow> answer 9 (cm_request_id command) (MemberLeft leave) now t;
     (t, a) \<leftarrow> polled t;
     assert (case a of RemovalCompleted areq _ _ (Inr _) \<Rightarrow> areq = 14 | _ \<Rightarrow> False);
     assert (v2_occupancy room_42 t = (3, Sfu));
     a_signal_survives_the_worker_reconnecting now t
   }"

definition worker_disconnect_grace_expires_assigned_rooms :: "instant \<Rightarrow> test" where
  "worker_disconnect_grace_expires_assigned_rooms now = do {
     t \<leftarrow> register_ready_worker (v2_new (from_secs 10));
     t \<leftarrow> for_each [(10, 101), (11, 102)] (\<lambda>(request, client).
       unwrapped \<circ> admit request now room_42 client (token_for client)) t;
     t \<leftarrow> unwrapped (admit 12 now room_42 103 ''token-103'' t);
     t \<leftarrow> for_each [0, 1, 2 :: nat] (\<lambda>_ t. map_option fst (acknowledge_join now t)) t;
     (t, a) \<leftarrow> polled t;
     assert (case a of Upgraded _ _ _ \<Rightarrow> True | _ \<Rightarrow> False);
     (t, a) \<leftarrow> polled t;
     assert (case a of AdmissionCompleted _ _ \<Rightarrow> True | _ \<Rightarrow> False);
     t \<leftarrow> unwrapped (handle_sfu_input (InputDisconnected 9 worker_1 now) t);
     let t = fst (v2_handle_timeout (now + from_secs 10) t);
     (t, a) \<leftarrow> polled t;
     assert (case a of RoomFailed rid _ _ \<Rightarrow> rid = room_42 | _ \<Rightarrow> False);
     assert (v2_occupancy room_42 t = (3, Failed))
   }"

definition sfu_member_disconnect_issues_immediate_leave :: "instant \<Rightarrow> test" where
  "sfu_member_disconnect_issues_immediate_leave now = do {
     t \<leftarrow> register_ready_worker (v2_new (from_secs 10));
     (t, res) \<leftarrow> unwrap (admit 10 now room_42 101 ''token-101'' t);
     first \<leftarrow> complete_in res;
     t \<leftarrow> unwrapped (admit 11 now room_42 102 ''token-102'' t);
     t \<leftarrow> unwrapped (admit 12 now room_42 103 ''token-103'' t);
     t \<leftarrow> for_each [0, 1, 2 :: nat] (\<lambda>_ t. map_option fst (acknowledge_join now t)) t;
     assert (v2_occupancy room_42 t = (3, Sfu));
     t \<leftarrow> unwrapped (v2_register room_42 101 (ad_admission_token first) t);
     let t = polled_out t;
     let t = v2_deregister now room_42 101 t;
     (t, a) \<leftarrow> polled t;
     command \<leftarrow> command_in a;
     leave \<leftarrow> leave_in command;
     assert (lm_room_id leave = room_42);
     assert (lm_client_id leave = 101);
     assert (lm_reason leave = Disconnected);
     assert (snd (v2_poll_action t) = None)
   }"

text \<open>
  The loop that polls the actions of a downgrade: it counts the leaves, remembers that the
  \<open>Downgraded\<close> came, and panics on anything else.
\<close>

definition downgrade_action :: "action \<Rightarrow> nat \<times> bool \<Rightarrow> (nat \<times> bool) option" where
  "downgrade_action a x =
     (case a of
        ActionSfu (OutputCommand _ command) \<Rightarrow> do {
          leave_in command;
          Some (fst x + 1, snd x)
        }
      | Downgraded rid signal_epoch initiator clients \<Rightarrow> do {
          assert (rid = room_42);
          assert (signal_epoch = 2);
          assert (initiator = 101);
          assert (sort clients = [101, 102]);
          Some (fst x, True)
        }
      | _ \<Rightarrow> None)"

definition sfu_room_downgrades_to_p2p_after_dwell_at_two_members :: "instant \<Rightarrow> test" where
  "sfu_room_downgrades_to_p2p_after_dwell_at_two_members now = do {
     t \<leftarrow> register_ready_worker (v2_new (from_secs 10));
     (t, tokens) \<leftarrow> for_each [(10, 101), (11, 102), (12, 103)] (\<lambda>(request, client) (t, tokens). do {
       (t, res) \<leftarrow> unwrap (admit request now room_42 client (token_for client) t);
       Some (t, tokens @ [case res of AdmissionComplete ad \<Rightarrow> (client, ad_admission_token ad)
                          | AdmissionPending \<Rightarrow> (client, token_for client)])
     }) (t, []);
     t \<leftarrow> for_each [0, 1, 2 :: nat] (\<lambda>_ t. map_option fst (acknowledge_join now t)) t;
     assert (v2_occupancy room_42 t = (3, Sfu));
     t \<leftarrow> for_each tokens (\<lambda>(client, token). unwrapped \<circ> v2_register room_42 client token) t;
     let t = polled_out t;
     (t, removal) \<leftarrow> unwrap (v2_remove 14 room_42 103 ''token-103'' t);
     assert (removal = RemovalPending);
     (t, a) \<leftarrow> polled t;
     command \<leftarrow> command_in a;
     leave \<leftarrow> leave_in command;
     t \<leftarrow> answer 9 (cm_request_id command) (MemberLeft leave) now t;
     let t = polled_out t;
     assert (v2_occupancy room_42 t = (2, Sfu));
     assert (v2_poll_timeout t \<noteq> None);
     let t = fst (v2_handle_timeout (now + from_secs 1) t);
     assert (v2_occupancy room_42 t = (2, Sfu));
     let (t, a) = v2_poll_action t;
     assert (a = None);
     let t = fst (v2_handle_timeout (now + DOWNGRADE_DWELL + from_secs 1) t);
     assert (v2_occupancy room_42 t = (2, P2p));
     let (t, actions) = drain v2_poll_action (length (vt_actions t)) t;
     (leaves, downgraded) \<leftarrow> for_each actions downgrade_action (0, False);
     assert (leaves = 2);
     assert downgraded;
     (t, res) \<leftarrow> unwrap (admit 20 now room_42 104 ''token-104'' t);
     assert (res = AdmissionPending);
     assert (v2_occupancy room_42 t = (3, Upgrading))
   }"

lemma v2_tests_pass:
  "passes (admission_registration_relay_and_promotion 5)"
  "passes (idle_single_member_room_is_not_promoted_by_an_unrelated_timeout 5)"
  "passes (third_join_commits_only_after_all_worker_join_results 5)"
  "passes (worker_disconnect_grace_expires_assigned_rooms 5)"
  "passes (sfu_member_disconnect_issues_immediate_leave 5)"
  "passes (sfu_room_downgrades_to_p2p_after_dwell_at_two_members 5)"
  by code_simp+

end
