(* ===== verification/Collider_Tests.thy ===== *)
theory Collider_Tests
  imports V2_Tests Collider
begin

text \<open>
  The unit tests of the authority as a whole (\<^verbatim>\<open>src/collider.rs\<close>), transcribed statement by
  statement and passed by the model, with the reference codec of the tokens and, for JSON, a
  codec of the frames the tests exchange.
\<close>

section \<open>A codec of flat frames\<close>

text \<open>
  Objects whose fields are strings without escapes or numbers, written without blanks. The
  fields of a client frame default as their \<^verbatim>\<open>serde\<close> attributes say.
\<close>

datatype json_value = JString string | JNumber string

type_synonym json_object = "(string \<times> json_value) list"

fun read_until :: "char \<Rightarrow> string \<Rightarrow> (string \<times> string) option" where
  "read_until stop [] = None"
| "read_until stop (c # cs) =
     (if c = stop then Some ([], cs)
      else case read_until stop cs of None \<Rightarrow> None | Some (s, rest) \<Rightarrow> Some (c # s, rest))"

definition read_value :: "string \<Rightarrow> (json_value \<times> string) option" where
  "read_value s =
     (case s of
        [] \<Rightarrow> None
      | c # cs \<Rightarrow>
         (if c = CHR 0x22 then
            case read_until (CHR 0x22) cs of None \<Rightarrow> None | Some (text, rest) \<Rightarrow> Some (JString text, rest)
          else if is_ascii_digit c then Some (JNumber (takeWhile is_ascii_digit s), dropWhile is_ascii_digit s)
          else None))"

text \<open>The fields after an opening brace or a comma; the fuel is the length of the text.\<close>

fun read_fields :: "nat \<Rightarrow> string \<Rightarrow> json_object option" where
  "read_fields 0 s = None"
| "read_fields (Suc fuel) s =
     (case read_value s of
        Some (JString key, rest) \<Rightarrow>
         (if take 1 rest \<noteq> '':'' then None
          else
           (case read_value (drop 1 rest) of
              None \<Rightarrow> None
            | Some (v, rest) \<Rightarrow>
               (if rest = ''}'' then Some [(key, v)]
                else if take 1 rest = '','' then map_option (Cons (key, v)) (read_fields fuel (drop 1 rest))
                else None)))
      | _ \<Rightarrow> None)"

definition read_object :: "string \<Rightarrow> string + (json_value + json_object)" where
  "read_object s =
     (case (if take 1 s = ''{'' then read_fields (length s) (drop 1 s) else None) of
        None \<Rightarrow> Inl ''syntax error'' | Some obj \<Rightarrow> Inr (Inr obj))"

definition string_field :: "string \<Rightarrow> json_object \<Rightarrow> string option" where
  "string_field key obj =
     (case map_of obj key of None \<Rightarrow> Some '''' | Some (JString s) \<Rightarrow> Some s | Some (JNumber _) \<Rightarrow> None)"

definition u8_field :: "string \<Rightarrow> json_object \<Rightarrow> u8 option option" where
  "u8_field key obj =
     (case map_of obj key of
        None \<Rightarrow> Some None
      | Some (JNumber n) \<Rightarrow> (if digits_int n < 256 then Some (Some (word_of_int (digits_int n))) else None)
      | Some (JString _) \<Rightarrow> None)"

definition client_frame :: "json_object \<Rightarrow> (json_value + json_object) ws_client_msg option" where
  "client_frame obj = do {
     cmd \<leftarrow> string_field ''cmd'' obj;
     roomid \<leftarrow> string_field ''roomid'' obj;
     clientid \<leftarrow> string_field ''clientid'' obj;
     msg \<leftarrow> string_field ''msg'' obj;
     ver \<leftarrow> u8_field ''ver'' obj;
     token \<leftarrow> string_field ''token'' obj;
     Some \<lparr>ws_cmd = cmd, ws_roomid = roomid, ws_clientid = clientid, ws_msg = msg, ws_ver = ver,
       ws_token = token, ws_epoch = map_option Inl (map_of obj ''epoch'')\<rparr>
   }"

text \<open>Encoding: the fields in the order of the structs.\<close>

definition quoted :: "string \<Rightarrow> string" where
  "quoted s = [CHR 0x22] @ s @ [CHR 0x22]"

definition json_bool :: "bool \<Rightarrow> string" where
  "json_bool b = (if b then ''true'' else ''false'')"

definition json_fields :: "(string \<times> string) list \<Rightarrow> string" where
  "json_fields obj =
     ''{'' @ concat (map (\<lambda>(i, key, v). (if i = 0 then '''' else '','') @ quoted key @ '':'' @ v)
       (zip [0..<length obj] obj)) @ ''}''"

definition wire_json :: "wire \<Rightarrow> string" where
  "wire_json w = json_fields
     (case w of
        WRegistered r \<Rightarrow>
          [(''control'', quoted (rd_control r)), (''roomid'', quoted (rd_roomid r)), (''epoch'', quoted (rd_epoch r)),
           (''mode'', quoted (rd_mode r))] @
          (case rd_is_initiator r of None \<Rightarrow> [] | Some b \<Rightarrow> [(''is_initiator'', json_bool b)])
      | WPromoted p \<Rightarrow>
          [(''control'', quoted (pm_control p)), (''roomid'', quoted (pm_roomid p)), (''epoch'', quoted (pm_epoch p)),
           (''is_initiator'', json_bool (pm_is_initiator p))]
      | WUpgrade u \<Rightarrow>
          [(''control'', quoted (ug_control u)), (''roomid'', quoted (ug_roomid u)), (''epoch'', quoted (ug_epoch u))]
      | WDowngrade d \<Rightarrow>
          [(''control'', quoted (dg_control d)), (''roomid'', quoted (dg_roomid d)), (''epoch'', quoted (dg_epoch d)),
           (''is_initiator'', json_bool (dg_is_initiator d))]
      | WRoomFailed f \<Rightarrow>
          [(''control'', quoted (rf_control f)), (''roomid'', quoted (rf_roomid f)), (''reason'', quoted (rf_reason f))]
      | WServer m \<Rightarrow> [(''msg'', quoted (sv_msg m)), (''error'', quoted (sv_error m))])"

definition flat_json :: "(json_value + json_object) json" where
  "flat_json =
     \<lparr>json_from_str = read_object,
      json_from_value = (\<lambda>v. case v of
        Inl _ \<Rightarrow> Inl ''invalid type''
      | Inr obj \<Rightarrow> (case client_frame obj of None \<Rightarrow> Inl ''invalid type'' | Some m \<Rightarrow> Inr m)),
      json_as_str = (\<lambda>v. case v of Inl (JString s) \<Rightarrow> Some s | _ \<Rightarrow> None),
      json_to_string = Some \<circ> wire_json\<rparr>"

section \<open>Helpers of the tests\<close>

definition room_token :: "uuid \<Rightarrow> string" where
  "room_token rid = format_room_token rfc_lib rid"

text \<open>For evaluation, the reference codec with the tokens of these rooms looked up.\<close>

definition test_book :: "(string \<times> uuid) list" where
  "test_book = [(''AAAAAAAAgACAAAAAAAAAKg'', room_42), (''AAAAAAAAgACAAAAAAAAACQ'', room_9),
     (''AAAAAAAAgACAAAAAAAAABQ'', room_5)]"

lemma test_book_encode: "(token, rid) \<in> set test_book \<Longrightarrow> base64url_encode rid = token"
  using test_tokens by (auto simp: test_book_def format_room_token_def rfc_lib_def)

lemma rfc_lib_code [code]:
  "rfc_lib =
     \<lparr>tl_encode = (\<lambda>rid. case map_of (map prod.swap test_book) rid of Some token \<Rightarrow> token | None \<Rightarrow> base64url_encode rid),
      tl_decode = (\<lambda>token. case map_of test_book token of Some rid \<Rightarrow> Some rid | None \<Rightarrow> base64url_decode token),
      tl_version = (\<lambda>b. unat (drop_bit 4 (b ! 6))),
      tl_rfc_variant = (\<lambda>b. and (b ! 8) 0xC0 = 0x80),
      tl_new_v8 = (\<lambda>b. b[6 := or (and (b ! 6) 0x0F) 0x80, 8 := or (and (b ! 8) 0x3F) 0x80])\<rparr>"
proof -
  have "tl_encode rfc_lib rid = (case map_of (map prod.swap test_book) rid of Some token \<Rightarrow> token
      | None \<Rightarrow> base64url_encode rid)" for rid
    by (auto simp: rfc_lib_def split: option.split dest!: map_of_SomeD test_book_encode)
  moreover have "tl_decode rfc_lib token = (case map_of test_book token of Some rid \<Rightarrow> Some rid
      | None \<Rightarrow> base64url_decode token)" for token
    by (auto simp: rfc_lib_def base64url_decode_encode split: option.split
        dest!: map_of_SomeD test_book_encode)
  ultimately show ?thesis by (simp add: rfc_lib_def fun_eq_iff)
qed

text \<open>And the messages of the rooms counted before they are drained.\<close>

fun drain_writes_upto :: "'v json \<Rightarrow> nat \<Rightarrow> collider \<Rightarrow> collider" where
  "drain_writes_upto js 0 c = c\<lparr>co_rooms := fst (table_poll_write (co_rooms c))\<rparr>"
| "drain_writes_upto js (Suc n) c =
     (case table_poll_write (co_rooms c) of
        (rooms, None) \<Rightarrow> c\<lparr>co_rooms := rooms\<rparr>
      | (rooms, Some m) \<Rightarrow>
          drain_writes_upto js n
            (case map_of (co_connections c) (msg_roomid m, msg_clientid m) of
               None \<Rightarrow> c\<lparr>co_rooms := rooms\<rparr>
             | Some conn \<Rightarrow> push_output (OutText conn (server_msg js (msg_msg m))) (c\<lparr>co_rooms := rooms\<rparr>)))"

lemma drain_writes_upto:
  "table_writes_size (co_rooms c) \<le> n \<Longrightarrow> drain_writes_upto js n c = drain_room_writes js c"
proof (induction n arbitrary: c)
  case 0
  then show ?case
    by (subst drain_room_writes.simps)
      (auto split: prod.split option.split dest!: sym [of "(_, _)" "table_poll_write _"] dest: table_poll_sizes(1))
next
  case (Suc n)
  then show ?case
    by (subst drain_room_writes.simps)
      (auto split: prod.split option.split dest!: table_poll_sizes(1) intro!: Suc.IH)
qed

lemma drain_room_writes_code [code]:
  "drain_room_writes js c = drain_writes_upto js (table_writes_size (co_rooms c)) c"
  by (simp add: drain_writes_upto)

definition browser_text :: "connection_id \<Rightarrow> string \<Rightarrow> instant \<Rightarrow> collider \<Rightarrow> collider option" where
  "browser_text conn value now c =
     unwrapped (collider_handle_read flat_json rfc_lib (BrowserText conn value now) c)"

definition connect :: "connection_id \<Rightarrow> collider \<Rightarrow> collider option" where
  "connect conn c = unwrapped (collider_handle_read flat_json rfc_lib (BrowserConnected conn) c)"

definition disconnected :: "connection_id \<Rightarrow> instant \<Rightarrow> collider \<Rightarrow> collider option" where
  "disconnected conn now c =
     unwrapped (collider_handle_read flat_json rfc_lib (BrowserDisconnected conn now) c)"

definition authority ::
    "request_id \<Rightarrow> authority_operation \<Rightarrow> collider \<Rightarrow> (collider \<times> authority_result) option" where
  "authority req operation c = do {
     c \<leftarrow> unwrapped (collider_handle_write flat_json rfc_lib \<lparr>ac_request_id = req, ac_operation = operation\<rparr> c);
     let (c, response) = collider_poll_event c;
     response \<leftarrow> response;
     assert (ar_request_id response = req);
     Some (c, ar_result response)
   }"

text \<open>\<^verbatim>\<open>assert_eq!(collider.poll_write(), expected)\<close>\<close>

definition writes :: "browser_output option \<Rightarrow> collider \<Rightarrow> collider option" where
  "writes expected c = do {
     let (c, out) = collider_poll_write c;
     assert (out = expected);
     Some c
   }"

definition assert_error_and_close :: "connection_id \<Rightarrow> string \<Rightarrow> collider \<Rightarrow> collider option" where
  "assert_error_and_close conn error c = do {
     c \<leftarrow> writes (Some (OutText conn (server_err flat_json error))) c;
     writes (Some (OutClose conn)) c
   }"

definition is_admitted_v2 :: "authority_result \<Rightarrow> bool" where
  "is_admitted_v2 r = (case r of AdmittedV2 _ _ _ _ \<Rightarrow> True | _ \<Rightarrow> False)"

text \<open>The frames of the tests that are built with \<^verbatim>\<open>format!\<close>.\<close>

definition register_frame :: "uuid \<Rightarrow> string \<Rightarrow> string \<Rightarrow> string" where
  "register_frame rid client token =
     ''{\"cmd\":\"register\",\"roomid\":\"'' @ room_token rid @ ''\",\"clientid\":\"'' @ client @
     ''\",\"ver\":2,\"token\":\"'' @ token @ ''\"}''"

section \<open>The tests\<close>

definition successful_v1_registration_is_silent_and_send_relays :: "instant \<Rightarrow> test" where
  "successful_v1_registration_is_silent_and_send_relays now = do {
     let c = collider_new (from_secs 10);
     c \<leftarrow> for_each [(1, ''1''), (2, ''2'')] (\<lambda>(req, clientid) c. do {
       (c, res) \<leftarrow> authority req (OpAdmit ''room'' clientid False now) c;
       assert (case res of Admitted _ _ \<Rightarrow> True | _ \<Rightarrow> False);
       Some c
     }) c;
     c \<leftarrow> connect 10 c;
     c \<leftarrow> connect 20 c;
     c \<leftarrow> browser_text 10 ''{\"cmd\":\"register\",\"roomid\":\"room\",\"clientid\":\"1\"}'' now c;
     c \<leftarrow> browser_text 20 ''{\"cmd\":\"register\",\"roomid\":\"room\",\"clientid\":\"2\"}'' now c;
     c \<leftarrow> writes None c;
     c \<leftarrow> browser_text 10 ''{\"cmd\":\"send\",\"msg\":\"candidate\"}'' now c;
     writes (Some (OutText 20 ''{\"msg\":\"candidate\",\"error\":\"\"}'')) c;
     Some ()
   }"

definition v2_requires_admission_then_acknowledges_and_relays_p2p_signals :: "instant \<Rightarrow> test" where
  "v2_requires_admission_then_acknowledges_and_relays_p2p_signals now = do {
     let c = collider_new (from_secs 10);
     (c, res) \<leftarrow> authority 1 (OpAdmitV2 room_42 101 ''token-101'' now) c;
     first_token \<leftarrow> (case res of AdmittedV2 mode epoch token is_initiator \<Rightarrow>
                       if mode = P2p \<and> is_initiator = Some True \<and> epoch = 0 then Some token else None
                     | _ \<Rightarrow> None);
     (c, res) \<leftarrow> authority 2 (OpAdmitV2 room_42 102 ''token-102'' now) c;
     second_token \<leftarrow> (case res of AdmittedV2 mode epoch token is_initiator \<Rightarrow>
                       if mode = P2p \<and> is_initiator = Some False \<and> epoch = 0 then Some token else None
                     | _ \<Rightarrow> None);
     c \<leftarrow> connect 10 c;
     c \<leftarrow> connect 20 c;
     c \<leftarrow> browser_text 10 (register_frame room_42 ''101'' first_token) now c;
     c \<leftarrow> writes (Some (OutText 10 (''{\"control\":\"registered\",\"roomid\":\"'' @ room_token room_42 @
            ''\",\"epoch\":\"0\",\"mode\":\"p2p\",\"is_initiator\":true}''))) c;
     c \<leftarrow> browser_text 20 (register_frame room_42 ''102'' second_token) now c;
     c \<leftarrow> writes (Some (OutText 20 (''{\"control\":\"registered\",\"roomid\":\"'' @ room_token room_42 @
            ''\",\"epoch\":\"0\",\"mode\":\"p2p\",\"is_initiator\":false}''))) c;
     c \<leftarrow> browser_text 10 ''{\"cmd\":\"send\",\"epoch\":\"0\",\"msg\":\"candidate\"}'' now c;
     c \<leftarrow> writes (Some (OutText 20 ''{\"msg\":\"candidate\",\"error\":\"\"}'')) c;
     c \<leftarrow> browser_text 10 ''{\"cmd\":\"send\",\"epoch\":\"1\",\"msg\":\"stale offer\"}'' now c;
     c \<leftarrow> browser_text 10 ''{\"cmd\":\"send\",\"msg\":\"missing epoch\"}'' now c;
     writes None c;
     Some ()
   }"

definition v2_rejects_invalid_ids_tokens_and_third_member :: "instant \<Rightarrow> test" where
  "v2_rejects_invalid_ids_tokens_and_third_member now = do {
     let c = collider_new (from_secs 10);
     c \<leftarrow> connect 1 c;
     c \<leftarrow> browser_text 1
       ''{\"cmd\":\"register\",\"roomid\":\"not-a-room-token\",\"clientid\":\"1\",\"ver\":2,\"token\":\"x\"}'' now c;
     c \<leftarrow> assert_error_and_close 1 ''INVALID_ROOM_ID'' c;
     c \<leftarrow> connect 2 c;
     c \<leftarrow> browser_text 2 (register_frame room_42 ''1'' ''wrong'') now c;
     c \<leftarrow> assert_error_and_close 2 ''UNAUTHORIZED'' c;
     c \<leftarrow> for_each [(1, 1), (2, 2)] (\<lambda>(req, client) c. do {
       (c, res) \<leftarrow> authority req (OpAdmitV2 room_42 client (token_for client) now) c;
       assert (is_admitted_v2 res);
       Some c
     }) c;
     (c, res) \<leftarrow> authority 3 (OpAdmitV2 room_42 3 ''token-3'' now) c;
     assert (res = ResultError ''NO_SFU_AVAILABLE'')
   }"

definition v2_leave_closes_member_and_promotes_survivor :: "instant \<Rightarrow> test" where
  "v2_leave_closes_member_and_promotes_survivor now = do {
     let c = collider_new (from_secs 10);
     (c, tokens) \<leftarrow> for_each [(1, 1), (2, 2)] (\<lambda>(req, client) (c, tokens). do {
       (c, res) \<leftarrow> authority req (OpAdmitV2 room_9 client (token_for client) now) c;
       admission_token \<leftarrow> (case res of AdmittedV2 _ _ token _ \<Rightarrow> Some token | _ \<Rightarrow> None);
       let tokens = tokens @ [admission_token];
       c \<leftarrow> connect client c;
       c \<leftarrow> browser_text client (register_frame room_9 (u64_to_string client) (last tokens)) now c;
       Some (fst (collider_poll_write c), tokens)
     }) (c, []);
     (c, res) \<leftarrow> authority 3 (OpRemoveV2 room_9 2 (tokens ! 1)) c;
     assert (res = RemovedV2);
     c \<leftarrow> writes (Some (OutClose 2)) c;
     writes (Some (OutText 1 (''{\"control\":\"p2p-promote\",\"roomid\":\"'' @ room_token room_9 @
       ''\",\"epoch\":\"0\",\"is_initiator\":true}''))) c;
     Some ()
   }"

text \<open>\<^verbatim>\<open>str::contains\<close>\<close>

definition str_contains :: "string \<Rightarrow> string \<Rightarrow> bool" where
  "str_contains s t \<longleftrightarrow> list_ex (\<lambda>i. take (length t) (drop i s) = t) [0..<Suc (length s)]"

definition v2_registered_snapshot_precedes_queued_offer_and_trickle_ice :: "instant \<Rightarrow> test" where
  "v2_registered_snapshot_precedes_queued_offer_and_trickle_ice now = do {
     let c = collider_new (from_secs 10);
     c \<leftarrow> for_each [(1, 1), (2, 2)] (\<lambda>(req, client) c. do {
       (c, res) \<leftarrow> authority req (OpAdmitV2 room_5 client (token_for client) now) c;
       assert (is_admitted_v2 res);
       Some c
     }) c;
     c \<leftarrow> connect 1 c;
     c \<leftarrow> browser_text 1 (register_frame room_5 ''1'' ''token-1'') now c;
     let c = fst (collider_poll_write c);
     c \<leftarrow> browser_text 1 ''{\"cmd\":\"send\",\"epoch\":\"0\",\"msg\":\"offer\"}'' now c;
     c \<leftarrow> browser_text 1 ''{\"cmd\":\"send\",\"epoch\":\"0\",\"msg\":\"candidate\"}'' now c;
     c \<leftarrow> connect 2 c;
     c \<leftarrow> browser_text 2 (register_frame room_5 ''2'' ''token-2'') now c;
     let (c, out) = collider_poll_write c;
     assert (case out of Some (OutText _ text) \<Rightarrow> str_contains text ''registered'' | _ \<Rightarrow> False);
     c \<leftarrow> writes (Some (OutText 2 (server_msg flat_json ''offer''))) c;
     writes (Some (OutText 2 (server_msg flat_json ''candidate''))) c;
     Some ()
   }"

definition v2_decimal_ids_are_canonical_u64_strings :: test where
  "v2_decimal_ids_are_canonical_u64_strings = do {
     assert (canonical_u64 ''0'' = Some 0);
     assert (canonical_u64 ''18446744073709551615'' = Some (- 1));
     for_each ['''', ''00'', ''01'', ''+1'', ''-1'', '' 1'', ''1 '', ''1.0'', ''18446744073709551616'']
       (\<lambda>invalid _. assert (canonical_u64 invalid = None)) ()
   }"

definition v1_protocol_errors_are_framed_then_close_the_socket :: "instant \<Rightarrow> test" where
  "v1_protocol_errors_are_framed_then_close_the_socket now = do {
     let c = collider_new (from_secs 10);
     c \<leftarrow> connect 1 c;
     c \<leftarrow> browser_text 1 ''{\"cmd\":\"send\",\"msg\":\"offer\"}'' now c;
     assert_error_and_close 1 ''Client not registered'' c;
     Some ()
   }"

definition all_v1_validation_failures_preserve_legacy_errors :: "instant \<Rightarrow> test" where
  "all_v1_validation_failures_preserve_legacy_errors now = do {
     let c = collider_new (from_secs 10);
     c \<leftarrow> connect 1 c;
     c \<leftarrow> browser_text 1 ''{\"cmd\":\"register\",\"roomid\":\"\",\"clientid\":\"client\"}'' now c;
     c \<leftarrow> assert_error_and_close 1
            (''Invalid register request: missing 'clientid' or 'roomid'' @ [CHR 0x27]) c;
     c \<leftarrow> connect 2 c;
     c \<leftarrow> browser_text 2
            ''{\"cmd\":\"register\",\"roomid\":\"opaque-room\",\"clientid\":\"opaque-client\"}'' now c;
     c \<leftarrow> writes None c;
     c \<leftarrow> browser_text 2
            ''{\"cmd\":\"register\",\"roomid\":\"opaque-room\",\"clientid\":\"opaque-client\"}'' now c;
     c \<leftarrow> assert_error_and_close 2 ''Duplicated register request'' c;
     c \<leftarrow> connect 3 c;
     c \<leftarrow> browser_text 3 ''{\"cmd\":\"register\",\"roomid\":\"other\",\"clientid\":\"other\"}'' now c;
     c \<leftarrow> browser_text 3 ''{\"cmd\":\"send\",\"msg\":\"\"}'' now c;
     c \<leftarrow> assert_error_and_close 3 (''Invalid send request: missing 'msg'' @ [CHR 0x27]) c;
     c \<leftarrow> connect 4 c;
     c \<leftarrow> browser_text 4 ''{\"cmd\":\"wat\"}'' now c;
     assert_error_and_close 4 (''Invalid message: unexpected 'cmd'' @ [CHR 0x27]) c;
     Some ()
   }"

definition duplicate_live_client_registration_closes_only_the_new_socket :: "instant \<Rightarrow> test" where
  "duplicate_live_client_registration_closes_only_the_new_socket now = do {
     let c = collider_new (from_secs 10);
     c \<leftarrow> connect 1 c;
     c \<leftarrow> connect 2 c;
     c \<leftarrow> for_each [1, 2] (\<lambda>conn. browser_text conn
            ''{\"cmd\":\"register\",\"roomid\":\"room\",\"clientid\":\"client\"}'' now) c;
     c \<leftarrow> assert_error_and_close 2 ''Duplicated registration'' c;
     assert (map_of (co_connections c) (''room'', ''client'') = Some 1)
   }"

definition authority_remove_closes_a_live_browser_connection :: "instant \<Rightarrow> test" where
  "authority_remove_closes_a_live_browser_connection now = do {
     let c = collider_new (from_secs 10);
     c \<leftarrow> connect 1 c;
     c \<leftarrow> browser_text 1 ''{\"cmd\":\"register\",\"roomid\":\"room\",\"clientid\":\"client\"}'' now c;
     (c, res) \<leftarrow> authority 1 (OpRemove ''room'' ''client'') c;
     assert (res = Removed);
     writes (Some (OutClose 1)) c;
     Some ()
   }"

definition authority_admit_includes_queued_messages_for_v1_join :: "instant \<Rightarrow> test" where
  "authority_admit_includes_queued_messages_for_v1_join now = do {
     let c = collider_new (from_secs 10);
     (c, res) \<leftarrow> authority 1 (OpInject ''room'' ''1'' ''offer'' now) c;
     assert (res = Injected);
     (c, res) \<leftarrow> authority 2 (OpAdmit ''room'' ''2'' False now) c;
     assert (res = Admitted False [''offer''])
   }"

definition stale_disconnect_does_not_deregister_replacement_connection :: "instant \<Rightarrow> test" where
  "stale_disconnect_does_not_deregister_replacement_connection now = do {
     let c = collider_new (from_secs 10);
     c \<leftarrow> connect 1 c;
     c \<leftarrow> browser_text 1 ''{\"cmd\":\"register\",\"roomid\":\"room\",\"clientid\":\"1\"}'' now c;
     c \<leftarrow> disconnected 1 now c;
     c \<leftarrow> connect 2 c;
     c \<leftarrow> browser_text 2 ''{\"cmd\":\"register\",\"roomid\":\"room\",\"clientid\":\"1\"}'' now c;
     c \<leftarrow> disconnected 1 now c;
     assert (map_of (co_connections c) (''room'', ''1'') = Some 2)
   }"

lemma collider_tests_pass:
  "passes (successful_v1_registration_is_silent_and_send_relays 5)"
  "passes (v2_requires_admission_then_acknowledges_and_relays_p2p_signals 5)"
  "passes (v2_rejects_invalid_ids_tokens_and_third_member 5)"
  "passes (v2_leave_closes_member_and_promotes_survivor 5)"
  "passes (v2_registered_snapshot_precedes_queued_offer_and_trickle_ice 5)"
  "passes v2_decimal_ids_are_canonical_u64_strings"
  "passes (v1_protocol_errors_are_framed_then_close_the_socket 5)"
  "passes (all_v1_validation_failures_preserve_legacy_errors 5)"
  "passes (duplicate_live_client_registration_closes_only_the_new_socket 5)"
  "passes (authority_remove_closes_a_live_browser_connection 5)"
  "passes (authority_admit_includes_queued_messages_for_v1_join 5)"
  "passes (stale_disconnect_does_not_deregister_replacement_connection 5)"
  by code_simp+

end
