(* ===== verification/Spec2Isabelle.thy ===== *)
theory Spec2Isabelle
  imports Room_Planes V1_Rooms V2_Epochs V2_Signaling V2_Barrier V2_Transitions
    V2_Downgrade V2_Delivery V2_Resync V2_Relay V2_Grace V2_Findings
    Collider_Sessions Collider_Flush Collider_Signaling Collider_Media Collider_Timers Collider_Answers
    Room_Tests V2_Tests Collider_Tests
begin

text \<open>
  A verification library for the WebRTC signaling authority of this repository.

  \<^bold>\<open>The program.\<close> The crate is a sans-I/O state machine: no sockets, no clock, no threads. A
  driver hands it browser frames, authority commands, SFU worker messages and the time, and
  polls it for outputs. Two protocols live side by side. V1 (\<^verbatim>\<open>src/client.rs\<close>, \<^verbatim>\<open>src/room.rs\<close>,
  \<^verbatim>\<open>src/room_table.rs\<close>) pairs two clients in a room and queues what is sent before both are
  registered. V2 (\<^verbatim>\<open>src/v2.rs\<close>, messages in \<^verbatim>\<open>src/sfu.rs\<close>) starts rooms peer to peer, moves a
  room to an SFU worker when a third client is admitted, and back when two are left.

  \<^bold>\<open>Theories.\<close>
  \<^item> Prelude: results, machine integers, hash maps, the poll loops, the locales
    \<open>addressed_plane\<close>, \<open>keyed_planes\<close> and \<open>invariant_system\<close>.
  \<^item> Messages, Decimal: the frames of \<^verbatim>\<open>src/messages.rs\<close>, with JSON as a parameter, and the
    canonical decimal numbers of \<^verbatim>\<open>src/collider.rs\<close>.
  \<^item> Client, Room, Room_Table: the state and operations of the V1 components.
  \<^item> Room_Inv, Room_Planes, Room_Relay, V1_System, V1_Rooms: the V1 invariant, the order of
    polled frames, the relay, the V1 table as a transition system, joins and leaves.
  \<^item> Room_Sizes, V1_Registrations, V1_Quiet: what the collider needs of V1: how many frames each
    operation leaves to poll, who is registered, and that nothing is left to poll between inputs.
  \<^item> Sfu, V2_State, V2_Token, V2_Admission, V2_Worker, V2_Timeout: the data and operations of
    the V2 authority; Base64url is a reference codec that instantiates the token codec.
  \<^item> V2_Inv, V2_Browser_Inv, V2_Worker_Inv, V2_System: the V2 invariant, its preservation by
    every operation and the V2 table as a transition system.
  \<^item> V2_Room_Rule: the locale \<open>room_rule\<close>, a relation between the earlier and the later state of a
    room that respects the small updates respects every operation. V2_Epochs interprets it for
    the signal epochs; V2_Relay for what is queued between two members, which refines the
    signaling of a room to a pair of FIFO channels. V2_Grace: what a timeout does to a P2P room.
  \<^item> V2_Epochs, V2_Signaling, V2_Transitions, V2_Barrier, V2_Downgrade: signal epochs, P2P
    signaling, the choice of workers and the start of upgrades, the commit and abort of
    upgrades, the way back to P2P.
  \<^item> V2_Frame: the locale \<open>frame_rule\<close>, a condition that survives the small updates survives every
    operation; V2_Delivery interprets it for command ids and event ids, which gives at-most-once
    delivery between authority and workers; V2_Resync: the return of a worker.
  \<^item> V2_Registrations, V2_Actions, V2_Answers: who is registered, what is queued for the driver,
    and the answers owed to admissions and removals that wait for a worker.
  \<^item> V2_Timers: the remaining work of the timeouts as a rank, and its descent.
  \<^item> V2_Findings: runs on concrete tables of corner cases the documentation does not lead one to
    expect.
  \<^item> Collider: sessions, connection maps and dispatch of \<^verbatim>\<open>src/collider.rs\<close>; Collider_Inv,
    Collider_System: its invariant, which links sessions, connections and registrations, and the
    whole authority as a transition system; Collider_Samples: runs and sample states.
  \<^item> Collider_Sessions, Collider_Flush, Collider_Signaling, Collider_Media, Collider_Timers,
    Collider_Answers: the properties of the whole: sessions and refused frames, what an input hands
    to the driver, signaling from one browser to another and between browsers and workers,
    timeouts that settle, and commands answered once.
  \<^item> Test_Kit, Room_Tests, Token_Tests, V2_Tests, Collider_Tests: the unit tests of the crate as
    programs over the model, all of which it passes; the frames of the collider's tests are
    read and written by a small JSON codec.

  \<^bold>\<open>How the parts interact.\<close> Only the collider sees the driver. It parses a browser's frame, calls
  the V1 table or the V2 authority, and then drains them: V1 frames go to the connection filed
  under room and client, V2 actions become browser frames, worker outputs or answers to the
  commands of the driver. \<open>collider_exec\<close> is one call of the driver, \<open>v1_exec\<close> and \<open>v2_exec\<close> one call
  of the collider; each theory of a system proves its invariant once, by the locale
  \<open>invariant_system\<close>, and the properties rest on it.

  \<^bold>\<open>Modelling conventions.\<close> A \<^verbatim>\<open>HashMap\<close> is an association list without duplicate keys whose
  order stands for the iteration order; a rehash is a step that permutes it. \<^verbatim>\<open>u64\<close> and \<^verbatim>\<open>usize\<close>
  counters are \<open>64 word\<close> with saturating addition where the source saturates. An \<^verbatim>\<open>Instant\<close>
  is a natural number of milliseconds. Fallible code returns \<open>failure + 'a\<close>, with \<open>Panic\<close> for an
  \<^verbatim>\<open>expect\<close> or index out of range; an early return keeps the changes made before it. Loops that
  poll until nothing is left terminate by the number of frames or actions left, so no fuel is
  used; only the JSON reader of the tests has fuel, the length of the text it reads. The JSON codec, the UUID and base64 crates and the random source are parameters
  (\<open>json\<close>, \<open>token_lib\<close>); hypotheses on them name the codec laws a property relies on. The driver
  is assumed to open a connection under an id that is not in use (\<open>driver_ok\<close>).

  \<^bold>\<open>Bounds.\<close> Properties on request ids exclude the saturated counter, where the source would use
  an id twice, and the channels of V2_Relay the saturated epoch; lifecycle ids and epochs are
  compared with the saturating successor the source computes. Timeouts settle when the grace is
  positive: each sweep takes the rank (a worker due or not, then the number of expired deadlines)
  down, so that many sweeps are enough.

  \<^bold>\<open>Not modelled.\<close> The crate \<^verbatim>\<open>signaling-proto\<close>, which only includes what is generated from the
  protobuf schema at build time and tests it, log statements and module declarations.
\<close>

end
